(* ===== verification/Prelude.thy ===== *)
theory Prelude
  imports Main "HOL-Library.Word"
begin

text \<open>
  Shared vocabulary of the development: the outcome of a Go call (a value or a run-time
  panic), Go maps (which may be nil), the range loop with an early return, machine integers,
  and the generic facts about them that the component theories use.  It also holds the
  generic interface of a state machine with an invariant (locale \<open>invariant_machine\<close>).
\<close>

named_theorems frame \<open>what an operation leaves unchanged\<close>
named_theorems lib_laws \<open>consequences of the documented behaviour of libraries\<close>

type_synonym u16 = "16 word"
type_synonym u32 = "32 word"

subsection \<open>Outcomes of Go calls\<close>

text \<open>A Go call returns a value or panics (nil dereference, write to a nil map).\<close>

datatype 'a go = Ret 'a | Panic

fun go_bind :: "'a go \<Rightarrow> ('a \<Rightarrow> 'b go) \<Rightarrow> 'b go" where
  "go_bind (Ret x) f = f x"
| "go_bind Panic f = Panic"

lemma go_bind_eq_Ret: "go_bind m f = Ret y \<longleftrightarrow> (\<exists>x. m = Ret x \<and> f x = Ret y)"
  by (cases m) auto

lemma go_bind_eq_Panic: "go_bind m f = Panic \<longleftrightarrow> m = Panic \<or> (\<exists>x. m = Ret x \<and> f x = Panic)"
  by (cases m) auto

subsection \<open>Go maps\<close>

text \<open>
  A Go map is nil (\<open>None\<close>) or holds entries.  Reading and deleting work on a nil map,
  assigning an entry of a nil map panics.
\<close>

type_synonym ('k, 'v) gomap = "('k \<rightharpoonup> 'v) option"

definition gm_get :: "('k, 'v) gomap \<Rightarrow> 'k \<Rightarrow> 'v option" where
  "gm_get m k = (case m of None \<Rightarrow> None | Some f \<Rightarrow> f k)"

definition gm_set :: "('k, 'v) gomap \<Rightarrow> 'k \<Rightarrow> 'v \<Rightarrow> ('k, 'v) gomap go" where
  "gm_set m k v = (case m of None \<Rightarrow> Panic | Some f \<Rightarrow> Ret (Some (f(k \<mapsto> v))))"

definition gm_delete :: "('k, 'v) gomap \<Rightarrow> 'k \<Rightarrow> ('k, 'v) gomap" where
  "gm_delete m k = map_option (\<lambda>f. f(k := None)) m"

definition gm_make :: "('k, 'v) gomap" where
  "gm_make = Some Map.empty"

definition gm_dom :: "('k, 'v) gomap \<Rightarrow> 'k set" where
  "gm_dom m = {k. gm_get m k \<noteq> None}"

lemma gm_get_simps [simp]:
  "gm_get None k = None"
  "gm_get (Some f) k = f k"
  "gm_get gm_make k = None"
  by (simp_all add: gm_get_def gm_make_def)

lemma gm_get_delete [simp]: "gm_get (gm_delete m k) j = (if j = k then None else gm_get m j)"
  by (cases m) (auto simp: gm_delete_def)

lemma gm_set_Some [simp]: "gm_set (Some f) k v = Ret (Some (f(k \<mapsto> v)))"
  by (simp add: gm_set_def)

lemma gm_set_None [simp]: "gm_set None k v = Panic"
  by (simp add: gm_set_def)

lemma gm_dom_simps [simp]:
  "gm_dom None = {}"
  "gm_dom (Some f) = dom f"
  "gm_dom gm_make = {}"
  by (auto simp: gm_dom_def)

lemma gm_dom_delete [simp]: "gm_dom (gm_delete m k) = gm_dom m - {k}"
  by (auto simp: gm_dom_def)

lemma gm_dom_not_nil: "k \<in> gm_dom m \<Longrightarrow> m \<noteq> None"
  by (cases m) (auto simp: gm_dom_def)

lemma gm_set_Ret: "gm_set m k v = Ret m' \<longleftrightarrow> (\<exists>f. m = Some f \<and> m' = Some (f(k \<mapsto> v)))"
  by (cases m) auto

text \<open>
  The idiom \<open>p, ok := m[k]; if !ok || p == nil\<close> on a map of pointers: \<open>None\<close> for an
  absent key and for a nil entry.
\<close>

definition ptr_at :: "('k, 'v option) gomap \<Rightarrow> 'k \<Rightarrow> 'v option" where
  "ptr_at m k = Option.bind (gm_get m k) (\<lambda>p. p)"

lemma ptr_at_None: "gm_get m k = None \<Longrightarrow> ptr_at m k = None"
  by (simp add: ptr_at_def)

lemma ptr_at_Some [simp]: "gm_get m k = Some p \<Longrightarrow> ptr_at m k = p"
  by (simp add: ptr_at_def)

lemma ptr_at_eq_Some: "ptr_at m k = Some v \<longleftrightarrow> gm_get m k = Some (Some v)"
  by (cases "gm_get m k") (auto simp: ptr_at_def)

lemma ptr_at_delete [simp]: "ptr_at (gm_delete m k) j = (if j = k then None else ptr_at m j)"
  by (simp add: ptr_at_def)

lemma ptr_at_delete_fun: "ptr_at (gm_delete m k) = (ptr_at m)(k := None)"
  by (rule ext) simp

lemma ptr_at_known:
  "\<forall>p. gm_get m k = Some p \<longrightarrow> p \<noteq> None \<Longrightarrow> ptr_at m k \<noteq> None \<longleftrightarrow> k \<in> gm_dom m"
  by (cases "gm_get m k") (auto simp: ptr_at_def gm_dom_def)

text \<open>Storing a pointer under a key of a map that is known not to be nil.\<close>

definition gm_put :: "('k, 'v) gomap \<Rightarrow> 'k \<Rightarrow> 'v \<Rightarrow> ('k, 'v) gomap" where
  "gm_put m k v = map_option (\<lambda>f. f(k \<mapsto> v)) m"

lemma gm_put_Some [simp]: "gm_put (Some f) k v = Some (f(k \<mapsto> v))"
  by (simp add: gm_put_def)

lemma gm_get_put: "m \<noteq> None \<Longrightarrow> gm_get (gm_put m k v) j = (if j = k then Some v else gm_get m j)"
  by (auto simp: gm_put_def)

lemma gm_put_nil [simp]: "gm_put m k v = None \<longleftrightarrow> m = None"
  by (simp add: gm_put_def)

lemma gm_get_put_present:
  "gm_get m i \<noteq> None \<Longrightarrow> gm_get (gm_put m k v) j = (if j = k then Some v else gm_get m j)"
  by (cases m) (auto simp: gm_put_def)

lemma gm_dom_put: "k \<in> gm_dom m \<Longrightarrow> gm_dom (gm_put m k v) = gm_dom m"
  by (cases m) (auto simp: gm_dom_def gm_put_def split: if_splits)

subsection \<open>Range loops with an early return\<close>

text \<open>
  \<open>for x in xs\<close> with a body that updates the state and may return from the enclosing
  function: \<open>Some r\<close> is an early return of \<open>r\<close>, \<open>None\<close> goes on with the next element.
\<close>

fun for_each :: "('x \<Rightarrow> 's \<Rightarrow> 'r option \<times> 's) \<Rightarrow> 'x list \<Rightarrow> 's \<Rightarrow> 'r option \<times> 's" where
  "for_each body [] s = (None, s)"
| "for_each body (x # xs) s =
     (case body x s of (Some r, s') \<Rightarrow> (Some r, s') | (None, s') \<Rightarrow> for_each body xs s')"

lemma for_each_append:
  "for_each body (xs @ ys) s =
     (case for_each body xs s of (Some r, s') \<Rightarrow> (Some r, s') | (None, s') \<Rightarrow> for_each body ys s')"
  by (induction xs arbitrary: s) (auto split: prod.splits option.splits)

lemma for_each_invariant:
  assumes "\<And>x s. x \<in> set xs \<Longrightarrow> P s \<Longrightarrow> P (snd (body x s))" and "P s"
  shows "P (snd (for_each body xs s))"
  using assms
proof (induction xs arbitrary: s)
  case Nil
  then show ?case by simp
next
  case (Cons x xs)
  have P1: "P (snd (body x s))" using Cons.prems by simp
  show ?case
  proof (cases "body x s")
    case (Pair r s1)
    with P1 have "P s1" by simp
    then have "P (snd (for_each body xs s1))" using Cons by simp
    with Pair \<open>P s1\<close> show ?thesis by (auto split: option.splits)
  qed
qed

text \<open>Every value a loop returns early is returned by the body on some element.\<close>

lemma for_each_result:
  assumes "for_each body xs s = (Some r, s')"
  shows "\<exists>x s1. x \<in> set xs \<and> body x s1 = (Some r, s')"
  using assms
  by (induction xs arbitrary: s) (fastforce split: prod.splits option.splits)+

lemma for_each_complete:
  assumes "for_each body (x # xs) s = (None, s')"
  shows "\<exists>s1. body x s = (None, s1) \<and> for_each body xs s1 = (None, s')"
  using assms by (auto split: prod.splits option.splits)

text \<open>A loop that runs to its end has run its body without a return on every element.\<close>

lemma for_each_None_all:
  assumes "for_each body xs s = (None, s')" and "x \<in> set xs"
  shows "\<exists>s1 s2. body x s1 = (None, s2)"
  using assms
proof (induction xs arbitrary: s)
  case Nil
  then show ?case by simp
next
  case (Cons y ys)
  then obtain s1 where s1: "body y s = (None, s1)" "for_each body ys s1 = (None, s')"
    by (blast dest: for_each_complete)
  with Cons show ?case by (cases "x = y") auto
qed

subsection \<open>Strings\<close>

text \<open>\<open>strings.TrimSuffix(s, ".")\<close>.\<close>

definition trim_dot :: "string \<Rightarrow> string" where
  "trim_dot s = (if s \<noteq> [] \<and> last s = CHR ''.'' then butlast s else s)"

lemma trim_dot_snoc [simp]: "trim_dot (s @ ''.'') = s"
  by (simp add: trim_dot_def)

subsection \<open>State machines with an invariant\<close>

text \<open>
  The contract of a component that runs in steps: an initial condition, a step relation
  and an invariant that holds initially and that every step keeps.  What the component's
  users rely on is proved once here: the invariant holds after every run.
\<close>

locale invariant_machine =
  fixes start :: "'s \<Rightarrow> bool" and step :: "'s \<Rightarrow> 's \<Rightarrow> bool" and inv :: "'s \<Rightarrow> bool"
  assumes start_inv: "start s \<Longrightarrow> inv s"
    and step_inv: "step s t \<Longrightarrow> inv s \<Longrightarrow> inv t"
begin

lemma run_inv: "step\<^sup>*\<^sup>* s t \<Longrightarrow> inv s \<Longrightarrow> inv t"
  by (induction rule: rtranclp_induct) (auto intro: step_inv)

lemma reach_inv: "start s \<Longrightarrow> step\<^sup>*\<^sup>* s t \<Longrightarrow> inv t"
  by (blast intro: run_inv start_inv)

end

end
