(* ===== verification/DnsTypes.thy ===== *)
theory DnsTypes
  imports Prelude
begin

text \<open>
  The DNS data the program handles: record headers, resource records, requests and replies,
  with the protocol constants of miekg/dns the source names.  Only the fields the source
  reads or writes are kept.
\<close>

subsection \<open>Protocol constants\<close>

text \<open>Record types (\<open>dns.TypeA\<close> and its kin).\<close>

definition TypeA :: u16 where "TypeA = 1"
definition TypeNS :: u16 where "TypeNS = 2"
definition TypeCNAME :: u16 where "TypeCNAME = 5"
definition TypeSOA :: u16 where "TypeSOA = 6"
definition TypeTXT :: u16 where "TypeTXT = 16"
definition TypeAAAA :: u16 where "TypeAAAA = 28"
definition TypeSRV :: u16 where "TypeSRV = 33"
definition TypeIXFR :: u16 where "TypeIXFR = 251"
definition TypeAXFR :: u16 where "TypeAXFR = 252"
definition TypeANY :: u16 where "TypeANY = 255"

lemmas type_defs = TypeA_def TypeNS_def TypeCNAME_def TypeSOA_def TypeTXT_def TypeAAAA_def
  TypeSRV_def TypeIXFR_def TypeAXFR_def TypeANY_def

text \<open>Classes.\<close>

definition ClassINET :: u16 where "ClassINET = 1"
definition ClassNONE :: u16 where "ClassNONE = 254"
definition ClassANY :: u16 where "ClassANY = 255"

lemmas class_defs = ClassINET_def ClassNONE_def ClassANY_def

text \<open>Operation codes and response codes.\<close>

definition OpcodeNotify :: nat where "OpcodeNotify = 4"
definition OpcodeUpdate :: nat where "OpcodeUpdate = 5"

lemmas opcode_defs = OpcodeNotify_def OpcodeUpdate_def

definition RcodeSuccess :: nat where "RcodeSuccess = 0"
definition RcodeServerFailure :: nat where "RcodeServerFailure = 2"
definition RcodeNameError :: nat where "RcodeNameError = 3"
definition RcodeNotImplemented :: nat where "RcodeNotImplemented = 4"
definition RcodeRefused :: nat where "RcodeRefused = 5"

lemmas rcode_defs = RcodeSuccess_def RcodeServerFailure_def RcodeNameError_def
  RcodeNotImplemented_def RcodeRefused_def

subsection \<open>Resource records\<close>

text \<open>\<open>dns.RR_Header\<close>.\<close>

record rr_header =
  hName :: string
  hRrtype :: u16
  hClass :: u16
  hTtl :: u32

text \<open>
  An IP address is its four or sixteen octets; \<open>None\<close> is the nil \<open>net.IP\<close> that
  \<open>net.ParseIP\<close> returns for text that is no address.
\<close>

type_synonym ip = "8 word list option"

text \<open>
  \<open>dns.RR\<close> is an interface; its dynamic types that the source names are the
  constructors, every other type is \<open>RR_Other\<close> with its data as text.  A \<open>*dns.SOA\<close>
  is a pointer whose target the plugin writes, so its payload is a type parameter: a
  reference into a store of serials in the plugin, the struct itself where the operator
  builds a record.  The header's \<open>Rrtype\<close> is a field of its own, independent of the
  dynamic type, as in Go.
\<close>

datatype 's rr =
  RR_SOA (Header: rr_header) 's
| RR_NS (Header: rr_header) string
| RR_A (Header: rr_header) ip
| RR_AAAA (Header: rr_header) ip
| RR_CNAME (Header: rr_header) string
| RR_TXT (Header: rr_header) "string list"
| RR_SRV (Header: rr_header) u16 u16 u16 string
| RR_Other (Header: rr_header) string

text \<open>The type assertion \<open>rr.(*dns.SOA)\<close>.\<close>

fun as_SOA :: "'s rr \<Rightarrow> 's option" where
  "as_SOA (RR_SOA _ s) = Some s"
| "as_SOA _ = None"

lemma as_SOA_eq_Some: "as_SOA r = Some s \<longleftrightarrow> (\<exists>h. r = RR_SOA h s)"
  by (cases r) auto

lemma as_SOA_eq_None: "as_SOA r = None \<longleftrightarrow> (\<forall>h s. r \<noteq> RR_SOA h s)"
  by (cases r) auto

text \<open>
  In the plugin an SOA record is a pointer into the store of the serials of the live SOA
  structs.  The serial is the only field of a record that the plugin writes.
\<close>

type_synonym soa_ptr = nat
type_synonym serials = "soa_ptr \<rightharpoonup> u32"
type_synonym prr = "soa_ptr rr"

abbreviation rrtype :: "'s rr \<Rightarrow> u16" where "rrtype r \<equiv> hRrtype (Header r)"
abbreviation rrclass :: "'s rr \<Rightarrow> u16" where "rrclass r \<equiv> hClass (Header r)"
abbreviation rrname :: "'s rr \<Rightarrow> string" where "rrname r \<equiv> hName (Header r)"

text \<open>The SOA pointers of a list of records.\<close>

definition soas_of :: "'s rr list \<Rightarrow> 's list" where
  "soas_of rs = List.map_filter as_SOA rs"

lemma soas_of_simps [simp]:
  "soas_of [] = []"
  "soas_of (r # rs) = (case as_SOA r of None \<Rightarrow> soas_of rs | Some s \<Rightarrow> s # soas_of rs)"
  by (simp_all add: soas_of_def List.map_filter_simps split: option.splits)

subsection \<open>Messages\<close>

record question =
  qName :: string
  qType :: u16
  qClass :: u16

text \<open>A request (\<open>*dns.Msg\<close>): the fields the plugin reads.\<close>

record msg =
  mId :: u16
  Opcode :: nat
  Question :: "question list"
  Ns :: "prr list"

text \<open>A reply under construction; \<open>replyTo\<close> is the request it answers.\<close>

record reply =
  replyTo :: msg
  Authoritative :: bool
  Rcode :: nat
  rAnswer :: "prr list"
  rNs :: "prr list"
  rExtra :: "prr list"

text \<open>The outcome of a zone lookup (\<open>file.Result\<close>).\<close>

datatype lookup_result = LSuccess | LNoData | LNameError | LDelegation | LServerFailure

end
