(* ===== verification/Libs.thy ===== *)
theory Libs
  imports DnsTypes
begin

text \<open>
  The third-party code the plugin calls, as parameters: \<open>file_lib\<close> holds the methods of
  CoreDNS's \<open>plugin/file\<close> zone, \<open>dns_lib\<close> adds the functions of miekg/dns and of
  CoreDNS's request and plugin packages.  Their code is not part of the repository, so
  nothing is defined here; what the program relies on is stated as the predicates
  \<open>file_laws\<close>, \<open>alloc_laws\<close>, \<open>text_laws\<close> and \<open>match_laws\<close>, which theorems name as
  hypotheses.
\<close>

subsection \<open>CoreDNS plugin/file\<close>

text \<open>
  \<open>'z\<close> is a \<open>file.Zone\<close>, \<open>'e\<close> an element of its tree (the records of one owner
  name).  \<open>lInsert\<close> returns the error, if any, and the zone after the call.  Functions
  that allocate SOA structs thread the store of serials; functions that read a serial take
  it.  \<open>lParse\<close> takes the text, the origin, the file name and the serial.
\<close>

record ('z, 'e) file_lib =
  lParse :: "string \<Rightarrow> string \<Rightarrow> string \<Rightarrow> int \<Rightarrow> serials \<Rightarrow> (string + 'z) \<times> serials"
  lNewZone :: "string \<Rightarrow> string \<Rightarrow> 'z"
  lInsert :: "'z \<Rightarrow> prr \<Rightarrow> string option \<times> 'z"
  lDelete :: "'z \<Rightarrow> prr \<Rightarrow> 'z"
  lAll :: "'z \<Rightarrow> 'e list"
  lElemAll :: "'e \<Rightarrow> prr list"
  lCopy :: "'z \<Rightarrow> 'z"
  lApex :: "'z \<Rightarrow> string + prr list"
  lExpired :: "'z \<Rightarrow> bool"
  lReloadInterval :: "'z \<Rightarrow> int"
  lLookup :: "'z \<Rightarrow> serials \<Rightarrow> msg \<Rightarrow> string \<Rightarrow>
    prr list \<times> prr list \<times> prr list \<times> lookup_result"
  lTransfer :: "'z \<Rightarrow> serials \<Rightarrow> u32 \<Rightarrow> string + prr list list"

subsection \<open>miekg/dns, CoreDNS request and plugin\<close>

text \<open>
  \<open>lNewRR\<close> parses one record: an error, no record at all (Go's nil without an error), or
  a record.  \<open>lMatches names qname\<close> is the zone of \<open>names\<close> that matches, the empty string
  when there is none.  \<open>lNext\<close> is the result of the rest of the plugin chain.
\<close>

record ('z, 'e) dns_lib = "('z, 'e) file_lib" +
  lNewRR :: "string \<Rightarrow> serials \<Rightarrow> (string + prr option) \<times> serials"
  lRRString :: "serials \<Rightarrow> prr \<Rightarrow> string"
  lFqdn :: "string \<Rightarrow> string"
  lIsDomainName :: "string \<Rightarrow> bool"
  lMatches :: "string list \<Rightarrow> string \<Rightarrow> string"
  lReqName :: "msg \<Rightarrow> string"
  lReqQType :: "msg \<Rightarrow> u16"
  lSetReply :: "msg \<Rightarrow> reply"
  lNext :: "msg \<Rightarrow> nat \<times> string option"

subsection \<open>Zone contents\<close>

text \<open>What ranging over \<open>z.All()\<close> and then over each element's \<open>All()\<close> yields.\<close>

definition records :: "('z, 'e, 'm) file_lib_scheme \<Rightarrow> 'z \<Rightarrow> prr list" where
  "records L z = concat (map (lElemAll L) (lAll L z))"

text \<open>The SOA pointers of a zone's apex.\<close>

definition apex_soas :: "('z, 'e, 'm) file_lib_scheme \<Rightarrow> 'z \<Rightarrow> soa_ptr list" where
  "apex_soas L z = (case lApex L z of Inl _ \<Rightarrow> [] | Inr rs \<Rightarrow> soas_of rs)"

text \<open>The record types a dynamic update may carry.\<close>

definition allowed_type :: "u16 \<Rightarrow> bool" where
  "allowed_type t \<longleftrightarrow> t = TypeTXT \<or> t = TypeCNAME \<or> t = TypeA \<or> t = TypeAAAA \<or> t = TypeSRV"

text \<open>
  Documented behaviour of a zone: \<open>origin\<close> is the zone's origin, \<open>norm\<close> the canonical
  (lower case) form under which a record is stored, \<open>intree o r\<close> says that \<open>r\<close> belongs
  to the tree of a zone with origin \<open>o\<close> (not to its apex, and not a refused type).
  A new zone is empty; a copy has the apex of the original and an empty tree; inserting a
  record of the tree adds it and leaves the apex alone; inserting an SOA replaces the
  apex's SOA; deleting removes the records of the same owner and type; what a zone stores
  is in canonical form.
\<close>

definition file_laws ::
  "('z, 'e, 'm) file_lib_scheme \<Rightarrow> ('z \<Rightarrow> string) \<Rightarrow> (prr \<Rightarrow> prr) \<Rightarrow> (string \<Rightarrow> prr \<Rightarrow> bool) \<Rightarrow> bool"
where
  "file_laws L origin norm intree \<longleftrightarrow>
    (\<forall>ori f. records L (lNewZone L ori f) = [] \<and> origin (lNewZone L ori f) = ori) \<and>
    (\<forall>z. records L (lCopy L z) = [] \<and> origin (lCopy L z) = origin z \<and>
         lApex L (lCopy L z) = lApex L z \<and> lExpired L (lCopy L z) = lExpired L z) \<and>
    (\<forall>z r. intree (origin z) r \<longrightarrow>
       (\<exists>z'. lInsert L z r = (None, z') \<and> set (records L z') = insert (norm r) (set (records L z)) \<and>
             lApex L z' = lApex L z \<and> lExpired L z' = lExpired L z)) \<and>
    (\<forall>z r. origin (snd (lInsert L z r)) = origin z) \<and>
    (\<forall>z h p. \<exists>z' rs. lInsert L z (RR_SOA h p) = (None, z') \<and> records L z' = records L z \<and>
       lApex L z' = Inr rs \<and> soas_of rs = [p] \<and> lExpired L z' = lExpired L z) \<and>
    (\<forall>z r. set (records L (lDelete L z r)) =
         {s \<in> set (records L z). \<not> (rrname s = rrname (norm r) \<and> rrtype s = rrtype r)} \<and>
       origin (lDelete L z r) = origin z) \<and>
    (\<forall>z r. r \<in> set (records L z) \<longrightarrow> intree (origin z) r \<and> norm r = r) \<and>
    (\<forall>ori r. allowed_type (rrtype r) \<and> as_SOA r = None \<longrightarrow> intree ori r)"

text \<open>
  Parsing allocates: the SOA struct of a parsed zone is a fresh object, existing objects
  keep their values, and the zone has the origin it was parsed with.
\<close>

definition alloc_laws :: "('z, 'e, 'm) dns_lib_scheme \<Rightarrow> ('z \<Rightarrow> string) \<Rightarrow> bool" where
  "alloc_laws L origin \<longleftrightarrow>
    (\<forall>txt ori f n h. h \<subseteq>\<^sub>m snd (lParse L txt ori f n h)) \<and>
    (\<forall>txt ori f n h z h'. lParse L txt ori f n h = (Inr z, h') \<longrightarrow>
       origin z = ori \<and> set (apex_soas L z) \<subseteq> dom h' - dom h) \<and>
    (\<forall>ori f. apex_soas L (lNewZone L ori f) = []) \<and>
    (\<forall>s h. h \<subseteq>\<^sub>m snd (lNewRR L s h))"

text \<open>
  Printing a record and parsing the text gives the record back, for the records \<open>printable\<close>
  admits; parsing such a text allocates nothing.
\<close>

definition text_laws :: "('z, 'e, 'm) dns_lib_scheme \<Rightarrow> (prr \<Rightarrow> bool) \<Rightarrow> bool" where
  "text_laws L printable \<longleftrightarrow> (\<forall>r h h'. printable r \<longrightarrow> lNewRR L (lRRString L h r) h' = (Inr (Some r), h'))"

text \<open>\<open>plugin.Zones.Matches\<close> returns one of the zones, or the empty string.\<close>

definition match_laws :: "('z, 'e, 'm) dns_lib_scheme \<Rightarrow> bool" where
  "match_laws L \<longleftrightarrow> (\<forall>names q. lMatches L names q = [] \<or> lMatches L names q \<in> set names)"

subsection \<open>Consequences of the laws\<close>

lemma new_zone_empty [lib_laws]:
  assumes "file_laws L origin norm intree"
  shows "records L (lNewZone L ori f) = []" and "origin (lNewZone L ori f) = ori"
  using assms by (auto simp: file_laws_def)

lemma copy_zone [lib_laws]:
  assumes "file_laws L origin norm intree"
  shows "records L (lCopy L z) = []" and "origin (lCopy L z) = origin z"
    and "lApex L (lCopy L z) = lApex L z" and "lExpired L (lCopy L z) = lExpired L z"
  using assms by (auto simp: file_laws_def)

lemma insert_tree:
  assumes "file_laws L origin norm intree" and "intree (origin z) r"
  shows "\<exists>z'. lInsert L z r = (None, z') \<and> set (records L z') = insert (norm r) (set (records L z)) \<and>
    lApex L z' = lApex L z \<and> lExpired L z' = lExpired L z"
  using assms by (simp add: file_laws_def)

lemma insert_origin [lib_laws]:
  "file_laws L origin norm intree \<Longrightarrow> origin (snd (lInsert L z r)) = origin z"
  by (simp add: file_laws_def)

lemma insert_soa:
  "file_laws L origin norm intree \<Longrightarrow>
   \<exists>z' rs. lInsert L z (RR_SOA h p) = (None, z') \<and> records L z' = records L z \<and>
     lApex L z' = Inr rs \<and> soas_of rs = [p] \<and> lExpired L z' = lExpired L z"
  unfolding file_laws_def by blast

lemma delete_zone [lib_laws]:
  assumes "file_laws L origin norm intree"
  shows "set (records L (lDelete L z r)) =
      {s \<in> set (records L z). \<not> (rrname s = rrname (norm r) \<and> rrtype s = rrtype r)}"
    and "origin (lDelete L z r) = origin z"
  using assms by (auto simp: file_laws_def)

lemma stored_record:
  assumes "file_laws L origin norm intree" and "r \<in> set (records L z)"
  shows "intree (origin z) r" and "norm r = r"
  using assms by (auto simp: file_laws_def)

lemma allowed_intree:
  assumes "file_laws L origin norm intree" and "allowed_type (rrtype r)" and "as_SOA r = None"
  shows "intree ori r"
  using assms by (auto simp: file_laws_def)

lemma parse_alloc:
  assumes "alloc_laws L origin" and "lParse L txt ori f n h = (Inr z, h')"
  shows "origin z = ori" and "set (apex_soas L z) \<subseteq> dom h' - dom h" and "h \<subseteq>\<^sub>m h'"
  using assms unfolding alloc_laws_def by (metis snd_conv)+

lemma parse_keeps: "alloc_laws L origin \<Longrightarrow> h \<subseteq>\<^sub>m snd (lParse L txt ori f n h)"
  by (simp add: alloc_laws_def)

lemma newrr_keeps: "alloc_laws L origin \<Longrightarrow> h \<subseteq>\<^sub>m snd (lNewRR L s h)"
  by (simp add: alloc_laws_def)

lemma new_zone_no_soa [lib_laws]: "alloc_laws L origin \<Longrightarrow> apex_soas L (lNewZone L ori f) = []"
  by (simp add: alloc_laws_def)

lemma matches_name:
  "match_laws L \<Longrightarrow> lMatches L names q = z \<Longrightarrow> z \<noteq> [] \<Longrightarrow> z \<in> set names"
  by (auto simp: match_laws_def)

text \<open>
  Inserting a list of records of the tree one after the other, ignoring errors: all of them
  are stored, and the apex stays.
\<close>

lemma insert_list:
  assumes "file_laws L origin norm intree" and "\<And>r. r \<in> set rs \<Longrightarrow> intree (origin z) r"
  shows "set (records L (fold (\<lambda>r z. snd (lInsert L z r)) rs z)) = norm ` set rs \<union> set (records L z) \<and>
    origin (fold (\<lambda>r z. snd (lInsert L z r)) rs z) = origin z \<and>
    lApex L (fold (\<lambda>r z. snd (lInsert L z r)) rs z) = lApex L z \<and>
    lExpired L (fold (\<lambda>r z. snd (lInsert L z r)) rs z) = lExpired L z"
  using assms(2)
proof (induction rs arbitrary: z)
  case Nil
  then show ?case by simp
next
  case (Cons r rs)
  obtain z' where z': "lInsert L z r = (None, z')"
    "set (records L z') = insert (norm r) (set (records L z))"
    "lApex L z' = lApex L z" "lExpired L z' = lExpired L z"
    using insert_tree [OF assms(1)] Cons.prems by fastforce
  moreover from z' have "origin z' = origin z"
    using insert_origin [OF assms(1), of z r] by simp
  ultimately show ?case using Cons.IH [of z'] Cons.prems by auto
qed

end
