(* ===== verification/ZoneTypes.thy ===== *)
theory ZoneTypes
  imports Libs
begin

text \<open>
  The rfc1035 Zone resource (\<open>pkg/zupd/api/v1alpha1/zone_types.go\<close>): its spec (the static
  zone file), its status (the dynamic records as text, and the serial), and the methods that
  turn a list of records into the status and the status into a zone.
\<close>

text \<open>
  Object metadata: the fields the program uses.  \<open>omDeletion\<close> is the deletion timestamp, a
  pointer to a time (0 is Go's zero time); \<open>omVersion\<close> the resource version the API server
  keeps; \<open>omOwner\<close> the kind and name of the owner reference that is the controller.
\<close>

record ObjectMeta =
  omName :: string
  omNamespace :: string
  omLabels :: "string \<rightharpoonup> string"
  omDeletion :: "nat option"
  omVersion :: string
  omOwner :: "(string \<times> string) option"

record ZoneSpec =
  spZone :: string

record DynamicRR =
  RR :: string

record ZoneStatus =
  DynamicRRs :: "DynamicRR list"
  Serial :: u32

record Zone =
  zMeta :: ObjectMeta
  zSpec :: ZoneSpec
  zStatus :: ZoneStatus

definition GetZone :: "ZoneSpec \<Rightarrow> string" where
  "GetZone zs = spZone zs"

definition GetDynamicRRs :: "ZoneStatus \<Rightarrow> DynamicRR list" where
  "GetDynamicRRs zs = DynamicRRs zs"

text \<open>
  \<open>SetDynamicRRs\<close> replaces the list by the texts of the records.  (The source first makes a
  nil list empty and then overwrites it.)
\<close>

definition SetDynamicRRs ::
  "('z, 'e, 'm) dns_lib_scheme \<Rightarrow> serials \<Rightarrow> prr list \<Rightarrow> ZoneStatus \<Rightarrow> ZoneStatus" where
  "SetDynamicRRs L h rrs zs = zs\<lparr>DynamicRRs := map (\<lambda>rr. \<lparr>RR = lRRString L h rr\<rparr>) rrs\<rparr>"

text \<open>
  One iteration of the loop that parses a stored text and inserts the record: a text that
  does not parse and a record the zone refuses are skipped.  \<open>dns.NewRR\<close> returns nil without
  an error for a text with no record, and inserting nil panics.
\<close>

definition load_rr ::
  "('z, 'e, 'm) dns_lib_scheme \<Rightarrow> DynamicRR \<Rightarrow> 'z \<times> serials \<Rightarrow> unit option \<times> ('z \<times> serials)" where
  "load_rr L d s =
     (case lNewRR L (RR d) (snd s) of
        (Inl _, h') \<Rightarrow> (None, (fst s, h'))
      | (Inr None, h') \<Rightarrow> (Some (), (fst s, h'))
      | (Inr (Some rr), h') \<Rightarrow> (None, (snd (lInsert L (fst s) rr), h')))"

text \<open>\<open>GetDynamicRRsAsZone\<close>: nil when the loaded zone has no element.\<close>

definition GetDynamicRRsAsZone ::
  "('z, 'e, 'm) dns_lib_scheme \<Rightarrow> ZoneStatus \<Rightarrow> string \<Rightarrow> serials \<Rightarrow> 'z option go \<times> serials" where
  "GetDynamicRRsAsZone L zs name h =
     (case for_each (load_rr L) (DynamicRRs zs) (lNewZone L name '''', h) of
        (Some _, (_, h')) \<Rightarrow> (Panic, h')
      | (None, (z, h')) \<Rightarrow> (Ret (if lAll L z = [] then None else Some z), h'))"

subsection \<open>Loading what was stored\<close>

lemma load_rr_printed:
  assumes "text_laws L printable" and "printable r"
  shows "load_rr L \<lparr>RR = lRRString L h0 r\<rparr> (z, h) = (None, (snd (lInsert L z r), h))"
  using assms by (simp add: load_rr_def text_laws_def)

lemma load_printed:
  assumes "text_laws L printable" and "\<And>r. r \<in> set rs \<Longrightarrow> printable r"
  shows "for_each (load_rr L) (map (\<lambda>r. \<lparr>RR = lRRString L h0 r\<rparr>) rs) (z, h) =
    (None, (fold (\<lambda>r z. snd (lInsert L z r)) rs z, h))"
  using assms(2) by (induction rs arbitrary: z) (simp_all add: load_rr_printed [OF assms(1)])

text \<open>Loading keeps the origin of the zone and every existing SOA object.\<close>

lemma load_rr_origin:
  assumes "file_laws L origin norm intree"
  shows "origin (fst (snd (load_rr L d s))) = origin (fst s)"
  using insert_origin [OF assms] by (auto simp: load_rr_def split: prod.splits sum.splits option.splits)

lemma load_origin:
  assumes "file_laws L origin norm intree"
  shows "origin (fst (snd (for_each (load_rr L) ds s))) = origin (fst s)"
  by (rule for_each_invariant [where P = "\<lambda>t. origin (fst t) = origin (fst s)"])
    (simp_all add: load_rr_origin [OF assms])

lemma load_rr_keeps:
  assumes "alloc_laws L origin"
  shows "snd s \<subseteq>\<^sub>m snd (snd (load_rr L d s))"
proof -
  have "snd s \<subseteq>\<^sub>m snd (lNewRR L (RR d) (snd s))" by (rule newrr_keeps [OF assms])
  then show ?thesis by (auto simp: load_rr_def split: prod.splits sum.splits option.splits)
qed

lemma load_keeps:
  assumes "alloc_laws L origin"
  shows "snd s \<subseteq>\<^sub>m snd (snd (for_each (load_rr L) ds s))"
  by (rule for_each_invariant [where P = "\<lambda>t. snd s \<subseteq>\<^sub>m snd t"])
    (auto intro: map_le_trans load_rr_keeps [OF assms])

text \<open>
  Round trip: the status a list of records is written to, loaded into a new zone, gives a
  zone with exactly the canonical forms of these records.
\<close>

lemma load_set_dynamic:
  assumes "file_laws L origin norm intree" and "text_laws L printable"
    and "\<And>r. r \<in> set rs \<Longrightarrow> printable r" and "\<And>r. r \<in> set rs \<Longrightarrow> intree name r"
  shows "\<exists>z. for_each (load_rr L) (DynamicRRs (SetDynamicRRs L h0 rs zs)) (lNewZone L name f, h) =
      (None, (z, h)) \<and> set (records L z) = norm ` set rs \<and> origin z = name"
proof -
  let ?z = "fold (\<lambda>r z. snd (lInsert L z r)) rs (lNewZone L name f)"
  have "for_each (load_rr L) (DynamicRRs (SetDynamicRRs L h0 rs zs)) (lNewZone L name f, h) =
      (None, (?z, h))"
    using load_printed [OF assms(2)] assms(3) by (simp add: SetDynamicRRs_def)
  moreover have "set (records L ?z) = norm ` set rs \<and> origin ?z = name"
    using insert_list [OF assms(1), of rs "lNewZone L name f"] assms(4)
      new_zone_empty [OF assms(1), of name f] by simp
  ultimately show ?thesis by blast
qed

end
