(* ===== verification/Trace.thy ===== *)
theory Trace
  imports ZoneTypes
begin

text \<open>
  The observable events of the plugin (lock operations, notifies, persisted statuses,
  replies), recorded in order, and the discipline of Go's \<open>sync.RWMutex\<close> for the locks one
  goroutine takes: it must not unlock what it does not hold, and must not take a lock it
  cannot get because it holds it already.
\<close>

text \<open>
  The locks: the one embedded in \<open>Zones\<close>, and the one embedded in each \<open>file.Zone\<close>, of the
  static zone of a name, of its dynamic zone, and of a freshly merged zone.
\<close>

datatype lockid = LZones | LBase string | LDyn string | LMerged

datatype event =
  ELock lockid
| EUnlock lockid
| ERLock lockid
| ERUnlock lockid
| ENotify string
| EPersisted Zone
| EWrite reply

text \<open>
  What a goroutine holds of a lock: the write lock, and how many read locks.
\<close>

type_synonym held = "lockid \<Rightarrow> bool \<times> nat"

definition nothing_held :: held where
  "nothing_held = (\<lambda>_. (False, 0))"

text \<open>
  The effect of one event on what is held; \<open>None\<close> where the goroutine blocks on itself
  (\<open>Lock\<close> of a lock it holds, \<open>RLock\<close> under its own write lock) or where Go stops the
  program (unlock of a lock that is not held).  Nested read locks are counted: whether they
  can block depends on other goroutines.
\<close>

fun hold :: "event \<Rightarrow> held \<Rightarrow> held option" where
  "hold (ELock l) s = (if s l = (False, 0) then Some (s(l := (True, 0))) else None)"
| "hold (EUnlock l) s = (if fst (s l) then Some (s(l := (False, snd (s l)))) else None)"
| "hold (ERLock l) s = (if fst (s l) then None else Some (s(l := (False, Suc (snd (s l))))))"
| "hold (ERUnlock l) s =
     (if fst (s l) \<or> snd (s l) = 0 then None else Some (s(l := (False, snd (s l) - 1))))"
| "hold _ s = Some s"

fun hold_all :: "event list \<Rightarrow> held \<Rightarrow> held option" where
  "hold_all [] s = Some s"
| "hold_all (e # es) s = Option.bind (hold e s) (hold_all es)"

lemma hold_all_append: "hold_all (xs @ ys) s = Option.bind (hold_all xs s) (hold_all ys)"
  by (induction xs arbitrary: s) (auto split: Option.bind_splits)

text \<open>A trace that takes and releases its locks in good order and keeps none.\<close>

definition balanced :: "event list \<Rightarrow> bool" where
  "balanced tr \<longleftrightarrow> hold_all tr nothing_held = Some nothing_held"

lemma balanced_Nil [simp]: "balanced []"
  by (simp add: balanced_def)

lemma balanced_append: "balanced xs \<Longrightarrow> balanced ys \<Longrightarrow> balanced (xs @ ys)"
  by (simp add: balanced_def hold_all_append)

lemma nothing_held_at [simp]: "nothing_held l = (False, 0)"
  by (simp add: nothing_held_def)

lemma release_upd [simp]: "s l = (False, n) \<Longrightarrow> s(l := (False, n)) = s"
  by auto

text \<open>The persisted objects, the replies and the notified zones of a trace, in order.\<close>

definition persisted :: "event list \<Rightarrow> Zone list" where
  "persisted tr = List.map_filter (\<lambda>e. case e of EPersisted z \<Rightarrow> Some z | _ \<Rightarrow> None) tr"

definition written :: "event list \<Rightarrow> reply list" where
  "written tr = List.map_filter (\<lambda>e. case e of EWrite m \<Rightarrow> Some m | _ \<Rightarrow> None) tr"

definition notified :: "event list \<Rightarrow> string list" where
  "notified tr = List.map_filter (\<lambda>e. case e of ENotify n \<Rightarrow> Some n | _ \<Rightarrow> None) tr"

lemma map_filter_append: "List.map_filter f (xs @ ys) = List.map_filter f xs @ List.map_filter f ys"
  by (simp add: List.map_filter_def)

lemma persisted_simps [simp]:
  "persisted [] = []"
  "persisted (e # tr) = (case e of EPersisted z \<Rightarrow> z # persisted tr | _ \<Rightarrow> persisted tr)"
  "persisted (xs @ ys) = persisted xs @ persisted ys"
  by (simp_all add: persisted_def List.map_filter_simps map_filter_append split: event.splits)

lemma written_simps [simp]:
  "written [] = []"
  "written (e # tr) = (case e of EWrite m \<Rightarrow> m # written tr | _ \<Rightarrow> written tr)"
  "written (xs @ ys) = written xs @ written ys"
  by (simp_all add: written_def List.map_filter_simps map_filter_append split: event.splits)

lemma notified_simps [simp]:
  "notified [] = []"
  "notified (e # tr) = (case e of ENotify n \<Rightarrow> n # notified tr | _ \<Rightarrow> notified tr)"
  "notified (xs @ ys) = notified xs @ notified ys"
  by (simp_all add: notified_def List.map_filter_simps map_filter_append split: event.splits)

end
