(* ===== verification/ZonesStore.thy ===== *)
theory ZonesStore
  imports Trace
begin

text \<open>
  The table of zones (\<open>type Zones\<close> in \<open>dynamicupdate.go\<close>): the static zones, the dynamic
  zones and the list of names, with the operations the plugin performs on it
  (\<open>DeleteZone\<close>, and the creation and replacement steps of \<open>Reconcile\<close>).  The invariant
  \<open>zones_ok\<close> ties the three fields together; the locale \<open>zone_table\<close> is the contract the
  rest of the plugin uses, interpreted here on these operations.
\<close>

subsection \<open>State and operations\<close>

record 'z Zones =
  Z :: "(string, 'z option) gomap"
  Names :: "string list"
  DynamicZones :: "(string, 'z option) gomap"

text \<open>
  The loop of \<open>DeleteZone\<close> over \<open>z.Names\<close>: \<open>ns\<close> is what is left of the range, \<open>i\<close> the
  index, \<open>names\<close> the slice; the first match is cut out and the loop breaks.
\<close>

fun delete_name :: "string \<Rightarrow> nat \<Rightarrow> string list \<Rightarrow> string list \<Rightarrow> string list" where
  "delete_name name i [] names = names"
| "delete_name name i (n # ns) names =
     (if n = name then take i names @ drop (i + 1) names else delete_name name (i + 1) ns names)"

definition DeleteZone :: "string \<Rightarrow> 'z Zones \<Rightarrow> 'z Zones \<times> event list" where
  "DeleteZone name zs =
     (zs\<lparr>Z := gm_delete (Z zs) name,
         DynamicZones := gm_delete (DynamicZones zs) name,
         Names := delete_name name 0 (Names zs) (Names zs)\<rparr>,
      [ELock LZones, EUnlock LZones])"

text \<open>Making the maps when they are nil (\<open>Reconcile\<close>).\<close>

definition ensure_maps :: "'z Zones \<Rightarrow> 'z Zones" where
  "ensure_maps zs =
     (let zs1 = (if DynamicZones zs = None then zs\<lparr>DynamicZones := gm_make\<rparr> else zs)
      in if Z zs1 = None then zs1\<lparr>Z := gm_make\<rparr> else zs1)"

text \<open>Entering a new zone: both maps, then the name.\<close>

definition create_zone :: "string \<Rightarrow> 'z \<Rightarrow> 'z \<Rightarrow> 'z Zones \<Rightarrow> 'z Zones go" where
  "create_zone name p d zs =
     go_bind (gm_set (Z zs) name (Some p)) (\<lambda>m.
     go_bind (gm_set (DynamicZones zs) name (Some d)) (\<lambda>dm.
     Ret (zs\<lparr>Z := m, DynamicZones := dm, Names := Names zs @ [name]\<rparr>)))"

text \<open>Replacing the static zone of a known name.\<close>

definition replace_zone :: "string \<Rightarrow> 'z \<Rightarrow> 'z Zones \<Rightarrow> 'z Zones go" where
  "replace_zone name p zs =
     go_bind (gm_set (Z zs) name (Some p)) (\<lambda>m. Ret (zs\<lparr>Z := m\<rparr>))"

text \<open>Writing through the pointer of a dynamic zone.\<close>

definition set_dynamic :: "string \<Rightarrow> 'z \<Rightarrow> 'z Zones \<Rightarrow> 'z Zones" where
  "set_dynamic name d zs = zs\<lparr>DynamicZones := gm_put (DynamicZones zs) name (Some d)\<rparr>"

abbreviation static_at :: "'z Zones \<Rightarrow> string \<Rightarrow> 'z option" where
  "static_at zs name \<equiv> ptr_at (Z zs) name"

abbreviation dynamic_at :: "'z Zones \<Rightarrow> string \<Rightarrow> 'z option" where
  "dynamic_at zs name \<equiv> ptr_at (DynamicZones zs) name"

subsection \<open>The invariant\<close>

text \<open>
  No name twice; the two maps have exactly the names as keys, hold no nil pointer, and a
  zone is stored under its own origin.
\<close>

definition zones_ok :: "('z \<Rightarrow> string) \<Rightarrow> 'z Zones \<Rightarrow> bool" where
  "zones_ok origin zs \<longleftrightarrow>
     distinct (Names zs) \<and>
     gm_dom (Z zs) = set (Names zs) \<and>
     gm_dom (DynamicZones zs) = set (Names zs) \<and>
     (\<forall>k p. gm_get (Z zs) k = Some p \<longrightarrow> (\<exists>z. p = Some z \<and> origin z = k)) \<and>
     (\<forall>k p. gm_get (DynamicZones zs) k = Some p \<longrightarrow> (\<exists>z. p = Some z \<and> origin z = k))"

lemma zones_ok_empty: "zones_ok origin \<lparr>Z = gm_make, Names = [], DynamicZones = gm_make\<rparr>"
  by (simp add: zones_ok_def)

lemma zones_ok_nil_maps: "zones_ok origin \<lparr>Z = None, Names = [], DynamicZones = None\<rparr>"
  by (simp add: zones_ok_def)

text \<open>The loop removes the first occurrence of the name.\<close>

lemma delete_name_drop:
  "delete_name name i (drop i names) names = take i names @ remove1 name (drop i names)"
proof (induction "drop i names" arbitrary: i)
  case Nil
  then show ?case by simp
next
  case (Cons n ns)
  then have i: "i < length names" by (metis drop_eq_Nil2 list.distinct(1) not_le)
  then have d: "drop i names = names ! i # drop (Suc i) names" by (simp add: Cons_nth_drop_Suc)
  from Cons.hyps(2) d have ns: "ns = drop (Suc i) names" by simp
  show ?case
    using Cons.hyps(1) [OF ns] i by (simp add: d take_Suc_conv_app_nth)
qed

lemma delete_name_remove1: "delete_name name 0 names names = remove1 name names"
  using delete_name_drop [of name 0 names] by simp

lemma DeleteZone_fields [simp]:
  "Z (fst (DeleteZone name zs)) = gm_delete (Z zs) name"
  "DynamicZones (fst (DeleteZone name zs)) = gm_delete (DynamicZones zs) name"
  "Names (fst (DeleteZone name zs)) = remove1 name (Names zs)"
  "balanced (snd (DeleteZone name zs))"
  by (simp_all add: DeleteZone_def delete_name_remove1 balanced_def)

lemma ensure_maps_fields [simp]:
  "gm_get (Z (ensure_maps zs)) k = gm_get (Z zs) k"
  "gm_get (DynamicZones (ensure_maps zs)) k = gm_get (DynamicZones zs) k"
  "Names (ensure_maps zs) = Names zs"
  by (simp_all add: ensure_maps_def Let_def)

lemma ensure_maps_not_nil: "\<exists>f g. Z (ensure_maps zs) = Some f \<and> DynamicZones (ensure_maps zs) = Some g"
  by (auto simp: ensure_maps_def gm_make_def Let_def)

lemma ensure_maps_dom [simp]:
  "gm_dom (Z (ensure_maps zs)) = gm_dom (Z zs)"
  "gm_dom (DynamicZones (ensure_maps zs)) = gm_dom (DynamicZones zs)"
  by (simp_all add: gm_dom_def)

lemma zones_ok_ensure: "zones_ok origin zs \<Longrightarrow> zones_ok origin (ensure_maps zs)"
  by (simp add: zones_ok_def)

lemma zones_ok_delete:
  assumes "zones_ok origin zs"
  shows "zones_ok origin (fst (DeleteZone name zs))"
  using assms by (auto simp: zones_ok_def)

text \<open>Once the maps are made, creating and replacing never panics.\<close>

lemma create_zone_Ret:
  "\<exists>f g. Z (ensure_maps zs) = Some f \<and> DynamicZones (ensure_maps zs) = Some g \<and>
     create_zone name p d (ensure_maps zs) =
       Ret ((ensure_maps zs)\<lparr>Z := Some (f(name \<mapsto> Some p)),
         DynamicZones := Some (g(name \<mapsto> Some d)), Names := Names zs @ [name]\<rparr>)"
  using ensure_maps_not_nil [of zs] by (auto simp: create_zone_def)

lemma replace_zone_Ret:
  "\<exists>f. Z (ensure_maps zs) = Some f \<and>
     replace_zone name p (ensure_maps zs) = Ret ((ensure_maps zs)\<lparr>Z := Some (f(name \<mapsto> Some p))\<rparr>)"
  using ensure_maps_not_nil [of zs] by (auto simp: replace_zone_def)

lemma create_zone_ok:
  assumes ok: "zones_ok origin zs" and new: "name \<notin> set (Names zs)"
    and "origin p = name" "origin d = name"
  shows "\<exists>zs'. create_zone name p d (ensure_maps zs) = Ret zs' \<and> zones_ok origin zs' \<and>
    Names zs' = Names zs @ [name] \<and>
    (\<forall>k. static_at zs' k = (if k = name then Some p else static_at zs k)) \<and>
    (\<forall>k. dynamic_at zs' k = (if k = name then Some d else dynamic_at zs k))"
proof -
  obtain f g where fg: "Z (ensure_maps zs) = Some f" "DynamicZones (ensure_maps zs) = Some g"
    and r: "create_zone name p d (ensure_maps zs) =
       Ret ((ensure_maps zs)\<lparr>Z := Some (f(name \<mapsto> Some p)),
         DynamicZones := Some (g(name \<mapsto> Some d)), Names := Names zs @ [name]\<rparr>)"
    using create_zone_Ret [of zs name p d] by blast
  have get: "gm_get (Z zs) k = f k" "gm_get (DynamicZones zs) k = g k" for k
    using ensure_maps_fields(1,2) [of zs k] fg by simp_all
  have dom: "dom f = set (Names zs)" "dom g = set (Names zs)"
    using ok fg ensure_maps_dom [of zs] by (auto simp: zones_ok_def)
  show ?thesis
    using ok assms(2-4) dom unfolding r
    by (auto simp: zones_ok_def get ptr_at_def)
qed

lemma replace_zone_ok:
  assumes ok: "zones_ok origin zs" and known: "name \<in> set (Names zs)" and "origin p = name"
  shows "\<exists>zs'. replace_zone name p (ensure_maps zs) = Ret zs' \<and> zones_ok origin zs' \<and>
    Names zs' = Names zs \<and>
    (\<forall>k. static_at zs' k = (if k = name then Some p else static_at zs k)) \<and>
    (\<forall>k. dynamic_at zs' k = dynamic_at zs k)"
proof -
  obtain f where f: "Z (ensure_maps zs) = Some f"
    and r: "replace_zone name p (ensure_maps zs) = Ret ((ensure_maps zs)\<lparr>Z := Some (f(name \<mapsto> Some p))\<rparr>)"
    using replace_zone_Ret [of zs name p] by blast
  have get: "gm_get (Z zs) k = f k" for k
    using ensure_maps_fields(1) [of zs k] f by simp
  have dom: "dom f = set (Names zs)"
    using ok f ensure_maps_dom(1) [of zs] by (auto simp: zones_ok_def)
  show ?thesis
    using ok assms(2,3) dom unfolding r
    by (auto simp: zones_ok_def get ptr_at_def)
qed

lemma zones_ok_set_dynamic:
  assumes ok: "zones_ok origin zs" and "name \<in> set (Names zs)" and "origin d = name"
  shows "zones_ok origin (set_dynamic name d zs)"
    and "dynamic_at (set_dynamic name d zs) k = (if k = name then Some d else dynamic_at zs k)"
proof -
  from assms(1,2) have k: "name \<in> gm_dom (DynamicZones zs)" by (simp add: zones_ok_def)
  then have nn: "DynamicZones zs \<noteq> None" by (rule gm_dom_not_nil)
  show "zones_ok origin (set_dynamic name d zs)"
    using nn ok assms(3) gm_dom_put [OF k] by (auto simp: zones_ok_def set_dynamic_def gm_get_put split: if_splits)
  show "dynamic_at (set_dynamic name d zs) k = (if k = name then Some d else dynamic_at zs k)"
    using nn by (simp add: set_dynamic_def ptr_at_def gm_get_put)
qed

lemma set_dynamic_frame [simp]:
  "Z (set_dynamic name d zs) = Z zs"
  "Names (set_dynamic name d zs) = Names zs"
  by (simp_all add: set_dynamic_def)

lemma known_pointers:
  assumes "zones_ok origin zs"
  shows "static_at zs k \<noteq> None \<longleftrightarrow> k \<in> set (Names zs)"
    and "dynamic_at zs k \<noteq> None \<longleftrightarrow> k \<in> set (Names zs)"
    and "static_at zs k = Some z \<Longrightarrow> origin z = k"
    and "dynamic_at zs k = Some z \<Longrightarrow> origin z = k"
proof -
  show "static_at zs k \<noteq> None \<longleftrightarrow> k \<in> set (Names zs)"
  proof -
    have "\<forall>p. gm_get (Z zs) k = Some p \<longrightarrow> p \<noteq> None"
      using assms unfolding zones_ok_def by fastforce
    from ptr_at_known [OF this] assms show ?thesis by (simp add: zones_ok_def)
  qed
  show "dynamic_at zs k \<noteq> None \<longleftrightarrow> k \<in> set (Names zs)"
  proof -
    have "\<forall>p. gm_get (DynamicZones zs) k = Some p \<longrightarrow> p \<noteq> None"
      using assms unfolding zones_ok_def by fastforce
    from ptr_at_known [OF this] assms show ?thesis by (simp add: zones_ok_def)
  qed
  show "static_at zs k = Some z \<Longrightarrow> origin z = k" "dynamic_at zs k = Some z \<Longrightarrow> origin z = k"
    using assms by (auto simp: zones_ok_def ptr_at_eq_Some)
qed

subsection \<open>The contract of the table\<close>

text \<open>
  What the users of the table rely on: with the invariant, a name is known to both maps or
  to neither; adding, replacing and removing have their effect on the two lookups and on
  the names, keep the invariant and do not panic.
\<close>

locale zone_table =
  fixes inv :: "'t \<Rightarrow> bool" and names :: "'t \<Rightarrow> string list"
    and static :: "'t \<Rightarrow> string \<Rightarrow> 'z option" and dynamic :: "'t \<Rightarrow> string \<Rightarrow> 'z option"
    and add :: "string \<Rightarrow> 'z \<Rightarrow> 'z \<Rightarrow> 't \<Rightarrow> 't go"
    and replace :: "string \<Rightarrow> 'z \<Rightarrow> 't \<Rightarrow> 't go"
    and remove :: "string \<Rightarrow> 't \<Rightarrow> 't"
    and fits :: "string \<Rightarrow> 'z \<Rightarrow> bool"
  assumes inv_names: "inv t \<Longrightarrow> distinct (names t)"
    and inv_static: "inv t \<Longrightarrow> static t k \<noteq> None \<longleftrightarrow> k \<in> set (names t)"
    and inv_dynamic: "inv t \<Longrightarrow> dynamic t k \<noteq> None \<longleftrightarrow> k \<in> set (names t)"
    and inv_fits: "inv t \<Longrightarrow> static t k = Some z \<or> dynamic t k = Some z \<Longrightarrow> fits k z"
    and add_law: "inv t \<Longrightarrow> k \<notin> set (names t) \<Longrightarrow> fits k p \<Longrightarrow> fits k d \<Longrightarrow>
      \<exists>t'. add k p d t = Ret t' \<and> inv t' \<and> names t' = names t @ [k] \<and>
        static t' = (static t)(k \<mapsto> p) \<and> dynamic t' = (dynamic t)(k \<mapsto> d)"
    and replace_law: "inv t \<Longrightarrow> k \<in> set (names t) \<Longrightarrow> fits k p \<Longrightarrow>
      \<exists>t'. replace k p t = Ret t' \<and> inv t' \<and> names t' = names t \<and>
        static t' = (static t)(k \<mapsto> p) \<and> dynamic t' = dynamic t"
    and remove_law: "inv t \<Longrightarrow> inv (remove k t) \<and> names (remove k t) = remove1 k (names t) \<and>
      static (remove k t) = (static t)(k := None) \<and> dynamic (remove k t) = (dynamic t)(k := None)"
begin

lemma both_or_none: "inv t \<Longrightarrow> static t k = None \<longleftrightarrow> dynamic t k = None"
  using inv_static [of t k] inv_dynamic [of t k] by blast

lemma known_pair:
  "inv t \<Longrightarrow> k \<in> set (names t) \<Longrightarrow>
   \<exists>p d. static t k = Some p \<and> dynamic t k = Some d \<and> fits k p \<and> fits k d"
  using inv_static [of t k] inv_dynamic [of t k] inv_fits [of t k] by blast

lemma removed_is_gone:
  assumes "inv t"
  shows "inv (remove k t)" and "set (names (remove k t)) = set (names t) - {k}"
    and "static (remove k t) k = None" and "dynamic (remove k t) k = None"
    and "j \<noteq> k \<Longrightarrow> static (remove k t) j = static t j"
    and "j \<noteq> k \<Longrightarrow> dynamic (remove k t) j = dynamic t j"
  using remove_law [OF assms, of k] inv_names [OF assms] by auto

text \<open>
  Adding a zone or, where the name is known, replacing its static part: the static zone is
  the new one, the dynamic zone of a known name survives, other names are not touched.
\<close>

lemma add_or_replace:
  assumes "inv t" and "fits k p" and "fits k d"
  shows "\<exists>t'. (if static t k = None then add k p d t else replace k p t) = Ret t' \<and> inv t' \<and>
    set (names t') = insert k (set (names t)) \<and>
    static t' = (static t)(k \<mapsto> p) \<and>
    dynamic t' = (dynamic t)(k \<mapsto> (case dynamic t k of None \<Rightarrow> d | Some d' \<Rightarrow> d'))"
proof (cases "k \<in> set (names t)")
  case True
  then obtain d' where "dynamic t k = Some d'" "static t k \<noteq> None"
    using inv_static [OF assms(1), of k] inv_dynamic [OF assms(1), of k] by auto
  moreover obtain t' where "replace k p t = Ret t'" "inv t'" "names t' = names t"
    "static t' = (static t)(k \<mapsto> p)" "dynamic t' = dynamic t"
    using replace_law [OF assms(1) True assms(2)] by blast
  moreover have "(dynamic t)(k \<mapsto> d') = dynamic t" using \<open>dynamic t k = Some d'\<close> by auto
  ultimately show ?thesis using True by (auto intro!: exI [of _ t'])
next
  case False
  then have "dynamic t k = None" "static t k = None"
    using inv_static [OF assms(1), of k] inv_dynamic [OF assms(1), of k] by auto
  moreover obtain t' where "add k p d t = Ret t'" "inv t'" "names t' = names t @ [k]"
    "static t' = (static t)(k \<mapsto> p)" "dynamic t' = (dynamic t)(k \<mapsto> d)"
    using add_law [OF assms(1) False assms(2,3)] by blast
  ultimately show ?thesis by (auto intro!: exI [of _ t'])
qed

end

interpretation zt: zone_table "zones_ok origin" Names
  "\<lambda>t k. ptr_at (Z t) k" "\<lambda>t k. ptr_at (DynamicZones t) k"
  "\<lambda>k p d t. create_zone k p d (ensure_maps t)" "\<lambda>k p t. replace_zone k p (ensure_maps t)"
  "\<lambda>k t. fst (DeleteZone k t)" "\<lambda>k z. origin z = k" for origin
proof (unfold_locales, goal_cases)
  case (1 t)
  then show ?case by (simp add: zones_ok_def)
next
  case (2 t k)
  then show ?case by (rule known_pointers(1))
next
  case (3 t k)
  then show ?case by (rule known_pointers(2))
next
  case (4 t k z)
  then show ?case using known_pointers(3,4) [OF 4(1)] by auto
next
  case (5 t k p d)
  then obtain t' where "create_zone k p d (ensure_maps t) = Ret t'" "zones_ok origin t'"
    "Names t' = Names t @ [k]" "\<forall>j. static_at t' j = (if j = k then Some p else static_at t j)"
    "\<forall>j. dynamic_at t' j = (if j = k then Some d else dynamic_at t j)"
    using create_zone_ok [of origin t k p d] by blast
  then show ?case by (intro exI [of _ t'] conjI ext) simp_all
next
  case (6 t k p)
  then obtain t' where "replace_zone k p (ensure_maps t) = Ret t'" "zones_ok origin t'"
    "Names t' = Names t" "\<forall>j. static_at t' j = (if j = k then Some p else static_at t j)"
    "\<forall>j. dynamic_at t' j = dynamic_at t j"
    using replace_zone_ok [of origin t k p] by blast
  then show ?case by (intro exI [of _ t'] conjI ext) simp_all
next
  case (7 t k)
  then show ?case by (intro conjI ext zones_ok_delete) simp_all
qed

end
