(* ===== verification/World.thy ===== *)
theory World
  imports ZonesStore
begin

text \<open>
  The state of the plugin (\<open>type DynamicUpdate\<close>) together with the part of the world its
  operations act on: the serials of the live SOA structs, the cluster behind the API
  server, and the trace of events.  The Kubernetes client and the response writer are
  parameters (\<open>plugin_lib\<close>), over an abstract cluster.
\<close>

text \<open>Errors of the Kubernetes client, as far as the program tells them apart.\<close>

datatype kerr = KNotFound | KConflict | KOther string

text \<open>
  \<open>kGet\<close> and \<open>kStatusUpdate\<close> are the direct client (\<open>d.K8sClient\<close>), \<open>kCacheGet\<close> the
  manager's client (the embedded \<open>d.Client\<close>), \<open>kList\<close> lists the zones of a namespace,
  \<open>lWriteMsg\<close> is the error, if any, of writing a reply.
\<close>

record ('z, 'e, 'c) plugin_lib = "('z, 'e) dns_lib" +
  kGet :: "'c \<Rightarrow> string \<Rightarrow> string \<Rightarrow> kerr + Zone"
  kCacheGet :: "'c \<Rightarrow> string \<Rightarrow> string \<Rightarrow> kerr + Zone"
  kStatusUpdate :: "'c \<Rightarrow> Zone \<Rightarrow> kerr option \<times> 'c"
  kList :: "'c \<Rightarrow> string \<Rightarrow> kerr + Zone list"
  lWriteMsg :: "reply \<Rightarrow> string option"

text \<open>
  \<open>dTransfer\<close> says whether the transfer plugin is present (\<open>d.transfer != nil\<close>).
\<close>

record ('z, 'c) plugin =
  dZones :: "'z Zones"
  dNamespaces :: "string list"
  dTransfer :: bool
  wSerials :: serials
  wCluster :: 'c
  wTrace :: "event list"

definition emit :: "event list \<Rightarrow> ('z, 'c) plugin \<Rightarrow> ('z, 'c) plugin" where
  "emit es \<sigma> = \<sigma>\<lparr>wTrace := wTrace \<sigma> @ es\<rparr>"

lemma emit_simps [simp]:
  "dZones (emit es \<sigma>) = dZones \<sigma>"
  "dNamespaces (emit es \<sigma>) = dNamespaces \<sigma>"
  "dTransfer (emit es \<sigma>) = dTransfer \<sigma>"
  "wSerials (emit es \<sigma>) = wSerials \<sigma>"
  "wCluster (emit es \<sigma>) = wCluster \<sigma>"
  "wTrace (emit es \<sigma>) = wTrace \<sigma> @ es"
  by (simp_all add: emit_def)

lemma emit_emit: "emit ys (emit xs \<sigma>) = emit (xs @ ys) \<sigma>"
  by (simp add: emit_def)

lemma emit_Nil [simp]: "emit [] \<sigma> = \<sigma>"
  by (simp add: emit_def)

text \<open>The result of \<open>ServeDNS\<close>: a response code and an error.\<close>

type_synonym dns_result = "nat \<times> string option"

text \<open>
  The plugin's state invariant: the table of zones is in order.
\<close>

definition plugin_ok :: "('z \<Rightarrow> string) \<Rightarrow> ('z, 'c) plugin \<Rightarrow> bool" where
  "plugin_ok origin \<sigma> \<longleftrightarrow> zones_ok origin (dZones \<sigma>)"

lemma plugin_ok_emit [simp]: "plugin_ok origin (emit es \<sigma>) = plugin_ok origin \<sigma>"
  by (simp add: plugin_ok_def)

text \<open>
  A call extends the trace by a balanced stretch: it takes and releases its locks in good
  order and keeps none.
\<close>

definition lock_clean :: "('z, 'c) plugin \<Rightarrow> ('z, 'c) plugin \<Rightarrow> bool" where
  "lock_clean \<sigma> \<sigma>' \<longleftrightarrow> (\<exists>tr. wTrace \<sigma>' = wTrace \<sigma> @ tr \<and> balanced tr)"

lemma lock_clean_refl [simp]: "lock_clean \<sigma> \<sigma>"
  by (simp add: lock_clean_def)

lemma lock_clean_trans: "lock_clean \<sigma> \<sigma>' \<Longrightarrow> lock_clean \<sigma>' \<sigma>'' \<Longrightarrow> lock_clean \<sigma> \<sigma>''"
  by (force simp: lock_clean_def intro: balanced_append)

end
