(* ===== verification/SampleLib.thy ===== *)
theory SampleLib
  imports World
begin

text \<open>
  A small concrete instance of the library parameters, on which the laws hold: zones as
  lists of records with an apex, a cluster as a list of objects with resource versions, TXT
  records as the printable ones.  It shows that the hypotheses of the theorems can be met
  together, and the witnesses compute with it.  It is not a model of the libraries.
\<close>

subsection \<open>Zones\<close>

record szone =
  szOrigin :: string
  szSOA :: "(rr_header \<times> soa_ptr) option"
  szNS :: "prr list"
  szTree :: "prr list"
  szExpired :: bool

definition s_intree :: "string \<Rightarrow> prr \<Rightarrow> bool" where
  "s_intree ori r \<longleftrightarrow> as_SOA r = None \<and> rrtype r \<noteq> 50 \<and> rrtype r \<noteq> 51 \<and>
     \<not> (rrtype r = TypeNS \<and> rrname r = ori)"

definition s_recs :: "szone \<Rightarrow> prr list" where
  "s_recs z = filter (s_intree (szOrigin z)) (szTree z)"

definition s_all :: "szone \<Rightarrow> prr list list" where
  "s_all z = map (\<lambda>n. filter (\<lambda>r. rrname r = n) (s_recs z)) (remdups (map rrname (s_recs z)))"

definition s_insert :: "szone \<Rightarrow> prr \<Rightarrow> string option \<times> szone" where
  "s_insert z r =
     (case as_SOA r of
        Some p \<Rightarrow> (None, z\<lparr>szSOA := Some (Header r, p)\<rparr>)
      | None \<Rightarrow>
          if rrtype r = 50 \<or> rrtype r = 51 then (Some ''NSEC3 is not supported'', z)
          else if rrtype r = TypeNS \<and> rrname r = szOrigin z then (None, z\<lparr>szNS := szNS z @ [r]\<rparr>)
          else (None, if r \<in> set (szTree z) then z else z\<lparr>szTree := szTree z @ [r]\<rparr>))"

definition s_delete :: "szone \<Rightarrow> prr \<Rightarrow> szone" where
  "s_delete z r = z\<lparr>szTree := filter (\<lambda>s. \<not> (rrname s = rrname r \<and> rrtype s = rrtype r)) (szTree z)\<rparr>"

definition s_apex :: "szone \<Rightarrow> string + prr list" where
  "s_apex z =
     (case szSOA z of
        None \<Rightarrow> Inl ''no SOA''
      | Some (h, p) \<Rightarrow> Inr (RR_SOA h p # filter (\<lambda>r. as_SOA r = None) (szNS z)))"

definition s_new :: "string \<Rightarrow> string \<Rightarrow> szone" where
  "s_new ori f = \<lparr>szOrigin = ori, szSOA = None, szNS = [], szTree = [], szExpired = False\<rparr>"

text \<open>A zone file is any text but the empty one; its SOA takes the first free cell.\<close>

definition s_parse :: "string \<Rightarrow> string \<Rightarrow> string \<Rightarrow> int \<Rightarrow> serials \<Rightarrow> (string + szone) \<times> serials" where
  "s_parse txt ori f n h =
     (if txt = '''' then (Inl ''no SOA'', h)
      else case find (\<lambda>p. h p = None) [0..<32] of
        None \<Rightarrow> (Inl ''out of memory'', h)
      | Some p \<Rightarrow>
          (Inr ((s_new ori f)\<lparr>
             szSOA := Some (\<lparr>hName = ori, hRrtype = TypeSOA, hClass = ClassINET, hTtl = 3600\<rparr>, p),
             szTree := [RR_TXT \<lparr>hName = ori, hRrtype = TypeTXT, hClass = ClassINET, hTtl = 60\<rparr> [txt]]\<rparr>),
           h(p \<mapsto> word_of_nat (length txt))))"

definition s_lookup ::
  "szone \<Rightarrow> serials \<Rightarrow> msg \<Rightarrow> string \<Rightarrow> prr list \<times> prr list \<times> prr list \<times> lookup_result" where
  "s_lookup z h m q =
     (let named = filter (\<lambda>r. rrname r = q) (s_recs z);
          soa = (case s_apex z of Inl _ \<Rightarrow> [] | Inr rs \<Rightarrow> take 1 rs);
          qt = (case Question m of [] \<Rightarrow> 0 | x # _ \<Rightarrow> qType x);
          hits = filter (\<lambda>r. rrtype r = qt) named
      in if q = szOrigin z \<and> qt = TypeSOA then (soa, [], [], LSuccess)
         else if hits \<noteq> [] then (hits, [], [], LSuccess)
         else if named \<noteq> [] then ([], soa, [], LNoData)
         else ([], soa, [], LNameError))"

definition s_transfer :: "szone \<Rightarrow> serials \<Rightarrow> u32 \<Rightarrow> string + prr list list" where
  "s_transfer z h serial =
     (case s_apex z of
        Inl e \<Rightarrow> Inl e
      | Inr rs \<Rightarrow>
          (if list_all (\<lambda>p. h p = Some serial) (soas_of rs) then Inr [take 1 rs]
           else Inr [rs, s_recs z, take 1 rs]))"

subsection \<open>Records as text, names\<close>

definition s_printable :: "prr \<Rightarrow> bool" where
  "s_printable r =
     (case r of
        RR_TXT h [t] \<Rightarrow> CHR '' '' \<notin> set (hName h) \<and>
          h = \<lparr>hName = hName h, hRrtype = TypeTXT, hClass = ClassINET, hTtl = 60\<rparr>
      | _ \<Rightarrow> False)"

definition s_print :: "serials \<Rightarrow> prr \<Rightarrow> string" where
  "s_print h r = (case r of RR_TXT hr [t] \<Rightarrow> hName hr @ '' TXT '' @ t | _ \<Rightarrow> ''?'')"

definition s_newrr :: "string \<Rightarrow> serials \<Rightarrow> (string + prr option) \<times> serials" where
  "s_newrr s h =
     (if s = '''' then (Inr None, h)
      else let n = takeWhile (\<lambda>c. c \<noteq> CHR '' '') s; rest = drop (length n) s in
        if take 5 rest = '' TXT ''
        then (Inr (Some (RR_TXT \<lparr>hName = n, hRrtype = TypeTXT, hClass = ClassINET, hTtl = 60\<rparr> [drop 5 rest])), h)
        else (Inl ''bad record'', h))"

definition s_fqdn :: "string \<Rightarrow> string" where
  "s_fqdn s = (if s \<noteq> [] \<and> last s = CHR ''.'' then s else s @ ''.'')"

definition s_matches :: "string list \<Rightarrow> string \<Rightarrow> string" where
  "s_matches names q =
     fold (\<lambda>n best. if length n > length best \<and> drop (length q - length n) q = n then n else best) names []"

definition s_set_reply :: "msg \<Rightarrow> reply" where
  "s_set_reply r = \<lparr>replyTo = r, Authoritative = False, Rcode = 0, rAnswer = [], rNs = [], rExtra = []\<rparr>"

subsection \<open>The cluster\<close>

definition same_object :: "Zone \<Rightarrow> Zone \<Rightarrow> bool" where
  "same_object a b \<longleftrightarrow> omNamespace (zMeta a) = omNamespace (zMeta b) \<and> omName (zMeta a) = omName (zMeta b)"

definition s_get :: "Zone list \<Rightarrow> string \<Rightarrow> string \<Rightarrow> kerr + Zone" where
  "s_get c ns nm =
     (case find (\<lambda>z. omNamespace (zMeta z) = ns \<and> omName (zMeta z) = nm) c of
        None \<Rightarrow> Inl KNotFound | Some z \<Rightarrow> Inr z)"

definition s_status_update :: "Zone list \<Rightarrow> Zone \<Rightarrow> kerr option \<times> Zone list" where
  "s_status_update c z =
     (case find (same_object z) c of
        None \<Rightarrow> (Some KNotFound, c)
      | Some old \<Rightarrow>
          if omVersion (zMeta old) \<noteq> omVersion (zMeta z) then (Some KConflict, c)
          else (None, map (\<lambda>x. if same_object z x
             then x\<lparr>zStatus := zStatus z, zMeta := (zMeta x)\<lparr>omVersion := omVersion (zMeta x) @ ''i''\<rparr>\<rparr> else x) c))"

definition s_list :: "Zone list \<Rightarrow> string \<Rightarrow> kerr + Zone list" where
  "s_list c ns = Inr (filter (\<lambda>z. omNamespace (zMeta z) = ns) c)"

definition sample :: "(szone, prr list, Zone list) plugin_lib" where
  "sample = \<lparr>
     lParse = s_parse, lNewZone = s_new, lInsert = s_insert, lDelete = s_delete, lAll = s_all,
     lElemAll = (\<lambda>e. e), lCopy = (\<lambda>z. z\<lparr>szTree := []\<rparr>), lApex = s_apex, lExpired = szExpired,
     lReloadInterval = (\<lambda>_. 0), lLookup = s_lookup, lTransfer = s_transfer,
     lNewRR = s_newrr, lRRString = s_print, lFqdn = s_fqdn, lIsDomainName = (\<lambda>s. s \<noteq> []),
     lMatches = s_matches,
     lReqName = (\<lambda>m. case Question m of [] \<Rightarrow> ''.'' | q # _ \<Rightarrow> qName q),
     lReqQType = (\<lambda>m. case Question m of [] \<Rightarrow> 0 | q # _ \<Rightarrow> qType q),
     lSetReply = s_set_reply, lNext = (\<lambda>m. (RcodeServerFailure, Some ''no next plugin found'')),
     kGet = s_get, kCacheGet = s_get, kStatusUpdate = s_status_update, kList = s_list,
     lWriteMsg = (\<lambda>m. None)\<rparr>"

lemmas sample_defs = s_parse_def s_new_def s_insert_def s_delete_def s_all_def s_recs_def s_intree_def
  s_apex_def s_lookup_def s_transfer_def s_newrr_def s_print_def s_fqdn_def s_matches_def
  s_set_reply_def same_object_def s_get_def s_status_update_def s_list_def

lemma sample_fields [simp]:
  "lParse sample = s_parse" "lNewZone sample = s_new" "lInsert sample = s_insert"
  "lDelete sample = s_delete" "lAll sample = s_all" "lElemAll sample = (\<lambda>e. e)"
  "lCopy sample = (\<lambda>z. z\<lparr>szTree := []\<rparr>)" "lApex sample = s_apex" "lExpired sample = szExpired"
  "lLookup sample = s_lookup" "lTransfer sample = s_transfer" "lNewRR sample = s_newrr"
  "lRRString sample = s_print" "lFqdn sample = s_fqdn" "lIsDomainName sample = (\<lambda>s. s \<noteq> [])"
  "lMatches sample = s_matches" "lSetReply sample = s_set_reply"
  "lReqName sample = (\<lambda>m. case Question m of [] \<Rightarrow> ''.'' | q # _ \<Rightarrow> qName q)"
  "lReqQType sample = (\<lambda>m. case Question m of [] \<Rightarrow> 0 | q # _ \<Rightarrow> qType q)"
  "kGet sample = s_get" "kCacheGet sample = s_get" "kStatusUpdate sample = s_status_update"
  "kList sample = s_list" "lWriteMsg sample = (\<lambda>m. None)"
  by (simp_all add: sample_def)

subsection \<open>The laws hold\<close>

lemma s_records: "set (records sample z) = set (s_recs z)"
  by (auto simp: records_def s_all_def)

lemma s_records_Nil: "s_recs z = [] \<Longrightarrow> records sample z = []"
  by (simp add: records_def s_all_def)

lemma s_records_cong: "szTree z' = szTree z \<Longrightarrow> szOrigin z' = szOrigin z \<Longrightarrow> records sample z' = records sample z"
  by (simp add: records_def s_all_def s_recs_def)

lemma soas_of_none: "soas_of (filter (\<lambda>r. as_SOA r = None) rs) = []"
  by (induction rs) auto

lemma sample_file_laws: "file_laws sample szOrigin (\<lambda>r. r) s_intree"
  unfolding file_laws_def
proof (intro conjI allI impI)
  fix z :: szone and r
  assume i: "s_intree (szOrigin z) r"
  show "\<exists>z'. lInsert sample z r = (None, z') \<and>
      set (records sample z') = insert r (set (records sample z)) \<and>
      lApex sample z' = lApex sample z \<and> lExpired sample z' = lExpired sample z"
    using i by (auto simp: s_insert_def s_intree_def s_records s_recs_def s_apex_def split: option.splits)
next
  fix z :: szone and h p
  let ?z = "z\<lparr>szSOA := Some (h, p)\<rparr>"
  have "records sample ?z = records sample z" by (rule s_records_cong) simp_all
  moreover have "lApex sample ?z = Inr (RR_SOA h p # filter (\<lambda>r. as_SOA r = None) (szNS z))"
    by (simp add: s_apex_def)
  ultimately show "\<exists>z' rs. lInsert sample z (RR_SOA h p) = (None, z') \<and> records sample z' = records sample z \<and>
      lApex sample z' = Inr rs \<and> soas_of rs = [p] \<and> lExpired sample z' = lExpired sample z"
    by (auto simp: s_insert_def soas_of_none)
next
  fix ori and r :: prr
  assume "allowed_type (rrtype r) \<and> as_SOA r = None"
  then show "s_intree ori r" by (auto simp: s_intree_def allowed_type_def type_defs)
qed (auto simp: s_insert_def s_delete_def s_records s_recs_def s_records_Nil s_new_def s_apex_def
    split: option.splits)

lemma sample_alloc_laws: "alloc_laws sample szOrigin"
  unfolding alloc_laws_def
proof (intro conjI allI impI)
  fix doc ori f n h
  show "h \<subseteq>\<^sub>m snd (lParse sample doc ori f n h)"
    by (auto simp: s_parse_def map_le_def find_Some_iff split: option.splits)
  fix z h'
  assume "lParse sample doc ori f n h = (Inr z, h')"
  then obtain p where p: "h p = None" "h' = h(p \<mapsto> word_of_nat (length doc))"
    "z = (s_new ori f)\<lparr>
       szSOA := Some (\<lparr>hName = ori, hRrtype = TypeSOA, hClass = ClassINET, hTtl = 3600\<rparr>, p),
       szTree := [RR_TXT \<lparr>hName = ori, hRrtype = TypeTXT, hClass = ClassINET, hTtl = 60\<rparr> [doc]]\<rparr>"
    by (auto simp: s_parse_def find_Some_iff split: if_splits option.splits)
  then show "szOrigin z = ori" by (simp add: s_new_def)
  have "apex_soas sample z = [p]" using p(3) by (simp add: apex_soas_def s_apex_def s_new_def)
  then show "set (apex_soas sample z) \<subseteq> dom h' - dom h" using p(1,2) by auto
next
  fix ori f
  show "apex_soas sample (lNewZone sample ori f) = []"
    by (simp add: apex_soas_def s_apex_def s_new_def)
next
  fix s and h :: serials
  show "h \<subseteq>\<^sub>m snd (lNewRR sample s h)" by (simp add: s_newrr_def Let_def)
qed

lemma s_newrr_print:
  assumes "CHR '' '' \<notin> set n"
  shows "s_newrr (n @ '' TXT '' @ t) h =
    (Inr (Some (RR_TXT \<lparr>hName = n, hRrtype = TypeTXT, hClass = ClassINET, hTtl = 60\<rparr> [t])), h)"
proof -
  have "takeWhile (\<lambda>c. c \<noteq> CHR '' '') (n @ '' TXT '' @ t) = n"
    using assms by (auto simp: takeWhile_append)
  then show ?thesis by (simp add: s_newrr_def)
qed

lemma sample_text_laws: "text_laws sample s_printable"
  unfolding text_laws_def
proof (intro allI impI)
  fix r and h h' :: serials
  assume p: "s_printable r"
  then obtain hr t where r: "r = RR_TXT hr [t]" and n: "CHR '' '' \<notin> set (hName hr)"
    and hr: "hr = \<lparr>hName = hName hr, hRrtype = TypeTXT, hClass = ClassINET, hTtl = 60\<rparr>"
    by (auto simp: s_printable_def split: rr.splits list.splits)
  show "lNewRR sample (lRRString sample h r) h' = (Inr (Some r), h')"
    using s_newrr_print [OF n, of t h'] r hr by (simp add: s_print_def)
qed

lemma sample_match_laws: "match_laws sample"
proof -
  let ?f = "\<lambda>q n best. if length n > length best \<and> drop (length q - length n) q = n then n else best"
  have "fold (?f q) names b = b \<or> fold (?f q) names b \<in> set names" for names q and b :: string
    by (induction names arbitrary: b) (auto split: if_splits)
  then show ?thesis by (auto simp: match_laws_def s_matches_def)
qed

subsection \<open>A small world\<close>

text \<open>One zone, \<open>a.org.\<close>, with its object, and some requests for it.\<close>

definition ex_meta :: ObjectMeta where
  "ex_meta = \<lparr>omName = ''a.org'', omNamespace = ''d'', omLabels = Map.empty, omDeletion = None, omVersion = ''1'', omOwner = Some (''Ksdns'', ''k'')\<rparr>"

definition ex_obj :: Zone where
  "ex_obj = \<lparr>zMeta = ex_meta, zSpec = \<lparr>spZone = ''file''\<rparr>, zStatus = \<lparr>DynamicRRs = [], Serial = 0\<rparr>\<rparr>"

definition ex_deleted :: Zone where
  "ex_deleted = ex_obj\<lparr>zMeta := ex_meta\<lparr>omDeletion := Some 7\<rparr>\<rparr>"

definition ex_zone :: szone where
  "ex_zone = \<lparr>szOrigin = ''a.org.'',
     szSOA = Some (\<lparr>hName = ''a.org.'', hRrtype = TypeSOA, hClass = ClassINET, hTtl = 3600\<rparr>, 0),
     szNS = [],
     szTree = [RR_TXT \<lparr>hName = ''a.org.'', hRrtype = TypeTXT, hClass = ClassINET, hTtl = 60\<rparr> [''file'']],
     szExpired = False\<rparr>"

definition ex_dyn :: szone where
  "ex_dyn = s_new ''a.org.'' ''''"

definition ex_zones :: "szone Zones" where
  "ex_zones = \<lparr>Z = Some [''a.org.'' \<mapsto> Some ex_zone], Names = [''a.org.''],
     DynamicZones = Some [''a.org.'' \<mapsto> Some ex_dyn]\<rparr>"

definition ex_plugin :: "(szone, Zone list) plugin" where
  "ex_plugin = \<lparr>dZones = ex_zones, dNamespaces = [''d''], dTransfer = True, wSerials = [0 \<mapsto> 4],
     wCluster = [ex_obj], wTrace = []\<rparr>"

definition ex_txt :: "u16 \<Rightarrow> prr" where
  "ex_txt cl = RR_TXT \<lparr>hName = ''x.a.org.'', hRrtype = TypeTXT, hClass = cl, hTtl = 60\<rparr> [''hi'']"

definition ex_msg :: "nat \<Rightarrow> prr list \<Rightarrow> msg" where
  "ex_msg opc rrs = \<lparr>mId = 1, Opcode = opc,
     Question = [\<lparr>qName = ''a.org.'', qType = TypeSOA, qClass = ClassINET\<rparr>], Ns = rrs\<rparr>"

lemmas ex_defs = ex_meta_def ex_obj_def ex_deleted_def ex_zone_def ex_dyn_def ex_zones_def ex_plugin_def
  ex_txt_def ex_msg_def

lemma ex_plugin_simps [simp]:
  "dZones ex_plugin = ex_zones" "dNamespaces ex_plugin = [''d'']" "dTransfer ex_plugin"
  "wSerials ex_plugin = [0 \<mapsto> 4]" "wCluster ex_plugin = [ex_obj]" "wTrace ex_plugin = []"
  "Names ex_zones = [''a.org.'']"
  "static_at ex_zones ''a.org.'' = Some ex_zone" "dynamic_at ex_zones ''a.org.'' = Some ex_dyn"
  by (simp_all add: ex_plugin_def ex_zones_def)

lemma ex_zone_simps [simp]:
  "szOrigin ex_zone = ''a.org.''" "szOrigin ex_dyn = ''a.org.''"
  "s_apex ex_zone = Inr [RR_SOA \<lparr>hName = ''a.org.'', hRrtype = TypeSOA, hClass = ClassINET, hTtl = 3600\<rparr> 0]"
  "records sample ex_dyn = []"
  by (simp_all add: ex_zone_def ex_dyn_def s_new_def s_apex_def records_def s_all_def s_recs_def)

lemma ex_zone_records: "records sample ex_zone =
    [RR_TXT \<lparr>hName = ''a.org.'', hRrtype = TypeTXT, hClass = ClassINET, hTtl = 60\<rparr> [''file'']]"
  by (simp add: ex_zone_def records_def s_all_def s_recs_def s_intree_def type_defs)

lemma ex_plugin_ok: "plugin_ok szOrigin ex_plugin"
  by (auto simp: plugin_ok_def zones_ok_def ex_zones_def split: if_splits)

lemma ex_get: "s_get [ex_obj] ''d'' ''a.org'' = Inr ex_obj"
  by (simp add: s_get_def ex_obj_def ex_meta_def)

lemma ex_status_update: "same_object z ex_obj \<Longrightarrow> omVersion (zMeta z) = ''1'' \<Longrightarrow>
    \<exists>c. s_status_update [ex_obj] z = (None, c)"
  by (simp add: s_status_update_def ex_obj_def ex_meta_def)

lemma ex_parse: "\<exists>p h. s_parse ''file'' ''a.org.'' ''stdin'' 0 [0 \<mapsto> 4] = (Inr p, h)"
  by (simp add: s_parse_def upt_rec)

text \<open>The same library over a cluster that refuses every write.\<close>

definition sample_readonly :: "(szone, prr list, Zone list) plugin_lib" where
  "sample_readonly = sample\<lparr>kStatusUpdate := (\<lambda>c z. (Some KConflict, c))\<rparr>"

lemma readonly_records [simp]: "records sample_readonly z = records sample z"
  by (simp add: records_def sample_readonly_def)

lemma readonly_file_laws: "file_laws sample_readonly szOrigin (\<lambda>r. r) s_intree"
  using sample_file_laws by (simp add: file_laws_def) (simp add: sample_readonly_def)

end
