(* ===== verification/MergeZones.thy ===== *)
theory MergeZones
  imports SampleLib
begin

text \<open>
  Merging the dynamic zone of a name over its static zone (\<open>merge.go\<close>) and the zone transfer
  built on it (\<open>xfer.go\<close>).  The lemmas show that the merged zone holds exactly the records
  of both zones, has the apex of the static zone, and that the two zones are not changed.
\<close>

subsection \<open>Definitions\<close>

text \<open>The nested loops over \<open>z.All()\<close> and \<open>e.All()\<close> that insert every record, logging errors.\<close>

definition insert_elems :: "('z, 'e, 'm) file_lib_scheme \<Rightarrow> 'e list \<Rightarrow> 'z \<Rightarrow> 'z" where
  "insert_elems L es n = fold (\<lambda>e n. fold (\<lambda>rr n. snd (lInsert L n rr)) (lElemAll L e) n) es n"

definition merge_zones :: "('z, 'e, 'm) file_lib_scheme \<Rightarrow> 'z \<Rightarrow> 'z \<Rightarrow> 'z" where
  "merge_zones L z dz = insert_elems L (lAll L dz) (insert_elems L (lAll L z) (lCopy L z))"

text \<open>
  \<open>Merge\<close>: nil when the static or the dynamic zone is missing or nil; otherwise both zones
  are read-locked, the deferred unlocks run in reverse order.
\<close>

definition merge_locks :: "string \<Rightarrow> event list" where
  "merge_locks ori =
     [ERLock (LBase ori), ERLock (LDyn ori), ERUnlock (LDyn ori), ERUnlock (LBase ori)]"

definition Merge ::
  "('z, 'e, 'm) file_lib_scheme \<Rightarrow> string \<Rightarrow> ('z, 'c) plugin \<Rightarrow> 'z option \<times> ('z, 'c) plugin" where
  "Merge L ori \<sigma> =
     (case ptr_at (Z (dZones \<sigma>)) ori of
        None \<Rightarrow> (None, \<sigma>)
      | Some z \<Rightarrow>
          (case ptr_at (DynamicZones (dZones \<sigma>)) ori of
             None \<Rightarrow> (None, \<sigma>)
           | Some dz \<Rightarrow>
               (Some (merge_zones L z dz), emit (merge_locks ori) \<sigma>)))"

text \<open>
  \<open>Transfer\<close>: \<open>transfer.ErrNotAuthoritative\<close> when there is nothing to merge, else the
  records the merged zone sends for the serial.
\<close>

datatype transfer_result = NotAuthoritative | Transferred "string + prr list list"

definition Transfer ::
  "('z, 'e, 'm) file_lib_scheme \<Rightarrow> string \<Rightarrow> u32 \<Rightarrow> ('z, 'c) plugin \<Rightarrow>
   transfer_result \<times> ('z, 'c) plugin" where
  "Transfer L zone serial \<sigma> =
     (case Merge L zone \<sigma> of
        (None, \<sigma>') \<Rightarrow> (NotAuthoritative, \<sigma>')
      | (Some z, \<sigma>') \<Rightarrow> (Transferred (lTransfer L z (wSerials \<sigma>') serial), \<sigma>'))"

subsection \<open>Contents of the merged zone\<close>

lemma insert_elems_fold:
  "insert_elems L es n = fold (\<lambda>rr n. snd (lInsert L n rr)) (concat (map (lElemAll L) es)) n"
  by (induction es arbitrary: n) (simp_all add: insert_elems_def)

lemma insert_elems_zone:
  assumes "file_laws L origin norm intree" and "origin n = origin z"
  shows "set (records L (insert_elems L (lAll L z) n)) = set (records L z) \<union> set (records L n)"
    and "origin (insert_elems L (lAll L z) n) = origin n"
    and "lApex L (insert_elems L (lAll L z) n) = lApex L n"
    and "lExpired L (insert_elems L (lAll L z) n) = lExpired L n"
proof -
  have tree: "r \<in> set (records L z) \<Longrightarrow> intree (origin n) r" for r
    using stored_record(1) [OF assms(1), of r z] assms(2) by simp
  have norm: "norm ` set (records L z) = set (records L z)"
    using stored_record(2) [OF assms(1)] by force
  have *: "insert_elems L (lAll L z) n = fold (\<lambda>rr n. snd (lInsert L n rr)) (records L z) n"
    by (simp add: insert_elems_fold records_def)
  note ins = insert_list [OF assms(1), of "records L z" n, OF tree]
  show "set (records L (insert_elems L (lAll L z) n)) = set (records L z) \<union> set (records L n)"
    "origin (insert_elems L (lAll L z) n) = origin n"
    "lApex L (insert_elems L (lAll L z) n) = lApex L n"
    "lExpired L (insert_elems L (lAll L z) n) = lExpired L n"
    using ins norm unfolding * by auto
qed

lemma merge_zones_contents:
  assumes laws: "file_laws L origin norm intree" and "origin dz = origin z"
  shows "set (records L (merge_zones L z dz)) = set (records L z) \<union> set (records L dz)"
    and "origin (merge_zones L z dz) = origin z"
    and "lApex L (merge_zones L z dz) = lApex L z"
    and "lExpired L (merge_zones L z dz) = lExpired L z"
proof -
  note cp = copy_zone [OF laws, of z]
  let ?b = "insert_elems L (lAll L z) (lCopy L z)"
  have b: "set (records L ?b) = set (records L z)" "origin ?b = origin z"
    "lApex L ?b = lApex L z" "lExpired L ?b = lExpired L z"
    using insert_elems_zone [OF laws, of "lCopy L z" z] cp by simp_all
  then have "origin ?b = origin dz" using assms(2) by simp
  note d = insert_elems_zone [OF laws this]
  show "set (records L (merge_zones L z dz)) = set (records L z) \<union> set (records L dz)"
    "origin (merge_zones L z dz) = origin z"
    "lApex L (merge_zones L z dz) = lApex L z"
    "lExpired L (merge_zones L z dz) = lExpired L z"
    using d b by (auto simp: merge_zones_def)
qed

subsection \<open>Merge as an operation of the plugin\<close>

lemma Merge_frame [frame, simp]:
  "dZones (snd (Merge L ori \<sigma>)) = dZones \<sigma>"
  "dNamespaces (snd (Merge L ori \<sigma>)) = dNamespaces \<sigma>"
  "dTransfer (snd (Merge L ori \<sigma>)) = dTransfer \<sigma>"
  "wSerials (snd (Merge L ori \<sigma>)) = wSerials \<sigma>"
  "wCluster (snd (Merge L ori \<sigma>)) = wCluster \<sigma>"
  by (simp_all add: Merge_def split: option.splits)

lemma Merge_result:
  "fst (Merge L ori \<sigma>) =
     (case (static_at (dZones \<sigma>) ori, dynamic_at (dZones \<sigma>) ori) of
        (Some z, Some dz) \<Rightarrow> Some (merge_zones L z dz) | _ \<Rightarrow> None)"
  by (simp add: Merge_def split: option.splits)

lemma merge_locks_neutral [simp]:
  "persisted (merge_locks ori) = []" "written (merge_locks ori) = []" "notified (merge_locks ori) = []"
  by (simp_all add: merge_locks_def)

lemma Merge_trace:
  "wTrace (snd (Merge L ori \<sigma>)) =
     wTrace \<sigma> @ (if fst (Merge L ori \<sigma>) = None then [] else merge_locks ori)"
  by (simp add: Merge_def split: option.splits)

lemma merge_locks_under:
  assumes "\<not> fst (s (LBase ori))" and "\<not> fst (s (LDyn ori))"
  shows "hold_all (merge_locks ori) s = Some s"
  using assms by (auto simp: merge_locks_def fun_eq_iff prod_eq_iff)

lemma Merge_lock_clean: "lock_clean \<sigma> (snd (Merge L ori \<sigma>))"
proof -
  have "balanced (merge_locks ori)"
    unfolding balanced_def by (rule merge_locks_under) simp_all
  then show ?thesis
    by (simp add: lock_clean_def Merge_trace)
qed

text \<open>Under the table's invariant a merge succeeds exactly for the known names.\<close>

lemma Merge_known:
  assumes "plugin_ok origin \<sigma>" and "ori \<in> set (Names (dZones \<sigma>))"
  shows "\<exists>z dz. static_at (dZones \<sigma>) ori = Some z \<and> dynamic_at (dZones \<sigma>) ori = Some dz \<and>
    origin z = ori \<and> origin dz = ori \<and> fst (Merge L ori \<sigma>) = Some (merge_zones L z dz)"
proof -
  obtain z dz where "static_at (dZones \<sigma>) ori = Some z" "dynamic_at (dZones \<sigma>) ori = Some dz"
    "origin z = ori" "origin dz = ori"
    using zt.known_pair [of origin "dZones \<sigma>" ori] assms by (auto simp: plugin_ok_def)
  then show ?thesis by (simp add: Merge_result)
qed

lemma Merge_unknown:
  assumes "plugin_ok origin \<sigma>" and "ori \<notin> set (Names (dZones \<sigma>))"
  shows "fst (Merge L ori \<sigma>) = None"
proof -
  have "static_at (dZones \<sigma>) ori = None"
    using zt.inv_static [of origin "dZones \<sigma>" ori] assms by (auto simp: plugin_ok_def)
  then show ?thesis by (simp add: Merge_result)
qed

end
