(* ===== verification/DynUpdate.thy ===== *)
theory DynUpdate
  imports MergeZones
begin

text \<open>
  The dynamic update branch of \<open>ServeDNS\<close> (\<open>dynamicupdate.go\<close>): the loop that applies
  the records of the update section to the dynamic zone, the search for the Zone object,
  the update of its status, the merge and the new SOA serial, the notify and the reply.
  An abstract update on sets of records says what the loop computes.
\<close>

subsection \<open>The kind of an update record\<close>

definition updateType :: "rr_header \<Rightarrow> string" where
  "updateType h =
     (if hClass h = ClassINET then ''insert''
      else if hClass h = ClassNONE then ''remove''
      else if hClass h = ClassANY then
        (if hRrtype h = TypeANY then ''removeName'' else ''removeRRSet'')
      else ''unknown'')"

text \<open>\<open>uint32(time.Now().UnixMilli())\<close>: the low 32 bits of the time in milliseconds.\<close>

definition serial_of_ms :: "int \<Rightarrow> u32" where
  "serial_of_ms now = word_of_int now"

subsection \<open>Applying the records\<close>

text \<open>
  One iteration over \<open>r.Ns\<close>.  The state is the dynamic zone and the events so far; the zone
  is locked, and every early return unlocks it.
\<close>

definition update_rr ::
  "('z, 'e, 'm) dns_lib_scheme \<Rightarrow> string \<Rightarrow> prr \<Rightarrow> 'z \<times> event list \<Rightarrow> nat option \<times> ('z \<times> event list)" where
  "update_rr L zone rr s =
     (case s of (dz, tr) \<Rightarrow>
       if rrtype rr \<noteq> TypeTXT \<and> rrtype rr \<noteq> TypeCNAME \<and> rrtype rr \<noteq> TypeA \<and>
          rrtype rr \<noteq> TypeAAAA \<and> rrtype rr \<noteq> TypeSRV
       then (Some RcodeRefused, (dz, tr @ [EUnlock (LDyn zone)]))
       else let h = Header rr in
         if lIsDomainName L (hName h) then
           (let t = updateType h in
            if t = ''insert'' then
              (case lInsert L dz rr of
                 (Some _, dz') \<Rightarrow> (Some RcodeServerFailure, (dz', tr @ [EUnlock (LDyn zone)]))
               | (None, dz') \<Rightarrow> (None, (dz', tr)))
            else if t = ''remove'' then (None, (lDelete L dz rr, tr))
            else (Some RcodeNotImplemented, (dz, tr @ [EUnlock (LDyn zone)])))
         else (None, (dz, tr)))"

text \<open>The two loops: over the questions, and over the records of the update section.\<close>

definition apply_updates ::
  "('z, 'e, 'm) dns_lib_scheme \<Rightarrow> string \<Rightarrow> msg \<Rightarrow> 'z \<Rightarrow> nat option \<times> ('z \<times> event list)" where
  "apply_updates L zone r dz =
     for_each (\<lambda>_. for_each (update_rr L zone) (Ns r)) (Question r) (dz, [])"

subsection \<open>After the loop: status, serial, notify, reply\<close>

text \<open>The first namespace that has the object wins; errors of the client are skipped.\<close>

fun find_zone ::
  "('z, 'e, 'c, 'm) plugin_lib_scheme \<Rightarrow> 'c \<Rightarrow> string \<Rightarrow> string list \<Rightarrow> Zone option" where
  "find_zone L c name [] = None"
| "find_zone L c name (ns # nss) =
     (case kGet L c ns name of Inl _ \<Rightarrow> find_zone L c name nss | Inr obj \<Rightarrow> Some obj)"

text \<open>The status written to the object: the text of every record, and the serial.\<close>

definition dynamic_texts ::
  "('z, 'e, 'm) dns_lib_scheme \<Rightarrow> serials \<Rightarrow> 'z \<Rightarrow> DynamicRR list" where
  "dynamic_texts L h dz =
     concat (map (\<lambda>el. map (\<lambda>rr. \<lparr>RR = lRRString L h rr\<rparr>) (lElemAll L el)) (lAll L dz))"

definition new_status ::
  "('z, 'e, 'm) dns_lib_scheme \<Rightarrow> serials \<Rightarrow> 'z \<Rightarrow> u32 \<Rightarrow> Zone \<Rightarrow> Zone" where
  "new_status L h dz soaSerial obj =
     obj\<lparr>zStatus := (zStatus obj)\<lparr>DynamicRRs := dynamic_texts L h dz, Serial := soaSerial\<rparr>\<rparr>"

text \<open>
  One iteration over the apex: the serial of an SOA is written through its pointer and the
  record is inserted again.
\<close>

definition bump_soa ::
  "('z, 'e, 'm) file_lib_scheme \<Rightarrow> u32 \<Rightarrow> prr \<Rightarrow> 'z \<times> serials \<Rightarrow> nat option \<times> ('z \<times> serials)" where
  "bump_soa L soaSerial rr s =
     (case s of (z, h) \<Rightarrow>
       case as_SOA rr of
         None \<Rightarrow> (None, (z, h))
       | Some p \<Rightarrow>
           (let h' = h(p \<mapsto> soaSerial) in
            case lInsert L z rr of
              (Some _, z') \<Rightarrow> (Some RcodeServerFailure, (z', h'))
            | (None, z') \<Rightarrow> (None, (z', h'))))"

text \<open>The notify and the reply.\<close>

definition send_reply ::
  "('z, 'e, 'c, 'm) plugin_lib_scheme \<Rightarrow> string \<Rightarrow> msg \<Rightarrow> ('z, 'c) plugin \<Rightarrow>
   dns_result go \<times> ('z, 'c) plugin" where
  "send_reply L zone r \<sigma> =
     (let \<sigma>1 = (if dTransfer \<sigma> then emit [ENotify zone] \<sigma> else \<sigma>);
          m = (lSetReply L r)\<lparr>Authoritative := True\<rparr>
      in case lWriteMsg L m of
           Some _ \<Rightarrow> (Ret (RcodeServerFailure, None), \<sigma>1)
         | None \<Rightarrow> (Ret (RcodeSuccess, None), emit [EWrite m] \<sigma>1))"

text \<open>
  From \<open>z = d.Merge(zone)\<close> on: a nil result of the merge is dereferenced.
\<close>

definition publish ::
  "('z, 'e, 'c, 'm) plugin_lib_scheme \<Rightarrow> u32 \<Rightarrow> string \<Rightarrow> msg \<Rightarrow> ('z, 'c) plugin \<Rightarrow>
   dns_result go \<times> ('z, 'c) plugin" where
  "publish L soaSerial zone r \<sigma> =
     (case Merge L zone \<sigma> of
        (None, \<sigma>1) \<Rightarrow> (Panic, \<sigma>1)
      | (Some z, \<sigma>1) \<Rightarrow>
          (case lApex L z of
             Inl _ \<Rightarrow> (Ret (RcodeServerFailure, None), \<sigma>1)
           | Inr apex \<Rightarrow>
               (case for_each (bump_soa L soaSerial) apex (z, wSerials \<sigma>1) of
                  (Some rc, (_, h)) \<Rightarrow> (Ret (rc, None), \<sigma>1\<lparr>wSerials := h\<rparr>)
                | (None, (_, h)) \<Rightarrow> send_reply L zone r (\<sigma>1\<lparr>wSerials := h\<rparr>))))"

text \<open>The part under the deferred read unlock of the dynamic zone.\<close>

definition commit_body ::
  "('z, 'e, 'c, 'm) plugin_lib_scheme \<Rightarrow> u32 \<Rightarrow> string \<Rightarrow> 'z \<Rightarrow> msg \<Rightarrow> ('z, 'c) plugin \<Rightarrow>
   dns_result go \<times> ('z, 'c) plugin" where
  "commit_body L soaSerial zone dz r \<sigma> =
     (case find_zone L (wCluster \<sigma>) (trim_dot zone) (dNamespaces \<sigma>) of
        None \<Rightarrow> (Ret (RcodeRefused, None), \<sigma>)
      | Some obj \<Rightarrow>
          (let obj' = new_status L (wSerials \<sigma>) dz soaSerial obj in
           case kStatusUpdate L (wCluster \<sigma>) obj' of
             (Some _, c') \<Rightarrow> (Ret (RcodeServerFailure, None), \<sigma>\<lparr>wCluster := c'\<rparr>)
           | (None, c') \<Rightarrow>
               publish L soaSerial zone r (emit [EPersisted obj'] (\<sigma>\<lparr>wCluster := c'\<rparr>))))"

definition commit ::
  "('z, 'e, 'c, 'm) plugin_lib_scheme \<Rightarrow> u32 \<Rightarrow> string \<Rightarrow> 'z \<Rightarrow> msg \<Rightarrow> ('z, 'c) plugin \<Rightarrow>
   dns_result go \<times> ('z, 'c) plugin" where
  "commit L soaSerial zone dz r \<sigma> =
     (case commit_body L soaSerial zone dz r (emit [ERLock (LDyn zone)] \<sigma>) of
        (res, \<sigma>') \<Rightarrow> (res, emit [ERUnlock (LDyn zone)] \<sigma>'))"

text \<open>
  The whole branch.  The loop works on the zone behind the pointer, so its effect is in the
  table on every path, early returns included.
\<close>

definition store_dynamic :: "string \<Rightarrow> 'z \<Rightarrow> ('z, 'c) plugin \<Rightarrow> ('z, 'c) plugin" where
  "store_dynamic zone dz \<sigma> = \<sigma>\<lparr>dZones := set_dynamic zone dz (dZones \<sigma>)\<rparr>"

definition serve_update ::
  "('z, 'e, 'c, 'm) plugin_lib_scheme \<Rightarrow> int \<Rightarrow> string \<Rightarrow> 'z \<Rightarrow> msg \<Rightarrow> ('z, 'c) plugin \<Rightarrow>
   dns_result go \<times> ('z, 'c) plugin" where
  "serve_update L now zone dz r \<sigma> =
     (let soaSerial = serial_of_ms now in
      case apply_updates L zone r dz of
        (Some rc, (dz', tr)) \<Rightarrow>
          (Ret (rc, None), emit (ELock (LDyn zone) # tr) (store_dynamic zone dz' \<sigma>))
      | (None, (dz', tr)) \<Rightarrow>
          commit L soaSerial zone dz' r
            (emit (ELock (LDyn zone) # tr @ [EUnlock (LDyn zone)]) (store_dynamic zone dz' \<sigma>)))"

subsection \<open>The abstract update\<close>

text \<open>
  A dynamic update seen as a change of a set of records: a record whose owner is no domain
  name is ignored, one of class IN is added in canonical form, any other removes the
  records of its owner and type.
\<close>

definition update_spec :: "(string \<Rightarrow> bool) \<Rightarrow> (prr \<Rightarrow> prr) \<Rightarrow> prr \<Rightarrow> prr set \<Rightarrow> prr set" where
  "update_spec isdom norm rr S =
     (if \<not> isdom (rrname rr) then S
      else if rrclass rr = ClassINET then insert (norm rr) S
      else {s \<in> S. \<not> (rrname s = rrname (norm rr) \<and> rrtype s = rrtype rr)})"

definition updates_spec :: "(string \<Rightarrow> bool) \<Rightarrow> (prr \<Rightarrow> prr) \<Rightarrow> prr list \<Rightarrow> prr set \<Rightarrow> prr set" where
  "updates_spec isdom norm rs S = fold (update_spec isdom norm) rs S"

text \<open>
  What the checks say of a record: the code of the early return, \<open>None\<close> where it is applied
  or ignored.
\<close>

definition verdict :: "(string \<Rightarrow> bool) \<Rightarrow> prr \<Rightarrow> nat option" where
  "verdict isdom rr =
     (if \<not> allowed_type (rrtype rr) then Some RcodeRefused
      else if isdom (rrname rr) \<and> rrclass rr \<noteq> ClassINET \<and> rrclass rr \<noteq> ClassNONE
      then Some RcodeNotImplemented else None)"

text \<open>The dynamic type of a record agrees with its header as far as SOA is concerned.\<close>

definition typed_rr :: "prr \<Rightarrow> bool" where
  "typed_rr r \<longleftrightarrow> (as_SOA r \<noteq> None \<longrightarrow> rrtype r = TypeSOA)"

lemma typed_allowed: "typed_rr r \<Longrightarrow> allowed_type (rrtype r) \<Longrightarrow> as_SOA r = None"
  by (auto simp: typed_rr_def allowed_type_def type_defs)

text \<open>
  Every update is "set some records, keep some others", and running such a change twice is
  the same as running it once.
\<close>

definition set_and_keep :: "('a set \<Rightarrow> 'a set) \<Rightarrow> bool" where
  "set_and_keep f \<longleftrightarrow> (\<exists>I K. \<forall>S. f S = I \<union> (S \<inter> K))"

lemma set_and_keep_id: "set_and_keep (\<lambda>S. S)"
  unfolding set_and_keep_def by (intro exI [of _ "{}"] exI [of _ UNIV]) auto

lemma set_and_keep_comp:
  assumes "set_and_keep f" and "set_and_keep g"
  shows "set_and_keep (\<lambda>S. g (f S))"
proof -
  obtain I K J M where "\<forall>S. f S = I \<union> (S \<inter> K)" "\<forall>S. g S = J \<union> (S \<inter> M)"
    using assms unfolding set_and_keep_def by blast
  then have "\<forall>S. g (f S) = (J \<union> (I \<inter> M)) \<union> (S \<inter> (K \<inter> M))" by auto
  then show ?thesis unfolding set_and_keep_def by blast
qed

lemma set_and_keep_idem: "set_and_keep f \<Longrightarrow> f (f S) = f S"
  by (auto simp: set_and_keep_def)

lemma update_spec_set_and_keep: "set_and_keep (update_spec isdom norm rr)"
proof -
  let ?rm = "{s. \<not> (rrname s = rrname (norm rr) \<and> rrtype s = rrtype rr)}"
  consider "\<not> isdom (rrname rr)" | "isdom (rrname rr)" "rrclass rr = ClassINET"
    | "isdom (rrname rr)" "rrclass rr \<noteq> ClassINET" by blast
  then show ?thesis
  proof cases
    case 1
    then have "update_spec isdom norm rr = (\<lambda>S. S)" by (simp add: fun_eq_iff update_spec_def)
    then show ?thesis using set_and_keep_id by simp
  next
    case 2
    then have "\<forall>S. update_spec isdom norm rr S = {norm rr} \<union> (S \<inter> UNIV)" by (simp add: update_spec_def)
    then show ?thesis unfolding set_and_keep_def by blast
  next
    case 3
    then have "\<forall>S. update_spec isdom norm rr S = {} \<union> (S \<inter> ?rm)" by (auto simp: update_spec_def)
    then show ?thesis unfolding set_and_keep_def by blast
  qed
qed

lemma updates_spec_simps [simp]:
  "updates_spec isdom norm [] S = S"
  "updates_spec isdom norm (r # rs) S = updates_spec isdom norm rs (update_spec isdom norm r S)"
  by (simp_all add: updates_spec_def)

lemma updates_spec_append:
  "updates_spec isdom norm (xs @ ys) S = updates_spec isdom norm ys (updates_spec isdom norm xs S)"
  by (simp add: updates_spec_def)

lemma updates_spec_set_and_keep: "set_and_keep (updates_spec isdom norm rs)"
proof (induction rs)
  case Nil
  have "updates_spec isdom norm [] = (\<lambda>S. S)" by (simp add: fun_eq_iff)
  then show ?case using set_and_keep_id by simp
next
  case (Cons r rs)
  have "updates_spec isdom norm (r # rs) = (\<lambda>S. updates_spec isdom norm rs (update_spec isdom norm r S))"
    by (simp add: fun_eq_iff)
  then show ?case using set_and_keep_comp [OF update_spec_set_and_keep Cons.IH] by simp
qed

lemma updates_spec_idem:
  "updates_spec isdom norm rs (updates_spec isdom norm rs S) = updates_spec isdom norm rs S"
  by (rule set_and_keep_idem [OF updates_spec_set_and_keep])

subsection \<open>The loop implements the abstract update\<close>

lemma refused_types:
  "(t \<noteq> TypeTXT \<and> t \<noteq> TypeCNAME \<and> t \<noteq> TypeA \<and> t \<noteq> TypeAAAA \<and> t \<noteq> TypeSRV) = (\<not> allowed_type t)"
  unfolding allowed_type_def by blast

lemma updateType_cases:
  "updateType h = ''insert'' \<longleftrightarrow> hClass h = ClassINET"
  "updateType h = ''remove'' \<longleftrightarrow> hClass h = ClassNONE"
  by (simp_all add: updateType_def class_defs)

lemma update_rr_unfold:
  "update_rr L zone rr (dz, tr) =
     (if \<not> allowed_type (rrtype rr) then (Some RcodeRefused, (dz, tr @ [EUnlock (LDyn zone)]))
      else if \<not> lIsDomainName L (rrname rr) then (None, (dz, tr))
      else if rrclass rr = ClassINET then
        (case lInsert L dz rr of
           (Some _, dz') \<Rightarrow> (Some RcodeServerFailure, (dz', tr @ [EUnlock (LDyn zone)]))
         | (None, dz') \<Rightarrow> (None, (dz', tr)))
      else if rrclass rr = ClassNONE then (None, (lDelete L dz rr, tr))
      else (Some RcodeNotImplemented, (dz, tr @ [EUnlock (LDyn zone)])))"
  by (simp add: update_rr_def refused_types updateType_cases Let_def)

lemma update_rr_rejects:
  assumes "verdict (lIsDomainName L) rr = Some rc"
  shows "update_rr L zone rr (dz, tr) = (Some rc, (dz, tr @ [EUnlock (LDyn zone)]))"
  using assms by (simp add: verdict_def update_rr_unfold split: if_splits)

lemma update_rr_accepts:
  assumes laws: "file_laws L origin norm intree" and "typed_rr rr"
    and acc: "verdict (lIsDomainName L) rr = None"
  shows "\<exists>dz'. update_rr L zone rr (dz, tr) = (None, (dz', tr)) \<and> origin dz' = origin dz \<and>
    set (records L dz') = update_spec (lIsDomainName L) norm rr (set (records L dz))"
proof -
  from acc have al: "allowed_type (rrtype rr)" by (auto simp: verdict_def split: if_splits)
  consider "\<not> lIsDomainName L (rrname rr)"
    | "lIsDomainName L (rrname rr)" "rrclass rr = ClassINET"
    | "lIsDomainName L (rrname rr)" "rrclass rr = ClassNONE"
    using acc al by (auto simp: verdict_def split: if_splits)
  then show ?thesis
  proof cases
    case 1
    with al show ?thesis by (simp add: update_rr_unfold update_spec_def)
  next
    case 2
    have "intree (origin dz) rr"
      using allowed_intree [OF laws al typed_allowed [OF assms(2) al]] .
    then obtain dz' where "lInsert L dz rr = (None, dz')"
      "set (records L dz') = insert (norm rr) (set (records L dz))"
      using insert_tree [where r = rr and z = dz, OF laws] by blast
    moreover from this(1) have "origin dz' = origin dz"
      using insert_origin [OF laws, of dz rr] by simp
    ultimately show ?thesis
      using al 2 by (simp add: update_rr_unfold update_spec_def)
  next
    case 3
    then have "rrclass rr \<noteq> ClassINET" by (simp add: class_defs)
    with 3 al show ?thesis
      using delete_zone [OF laws, of dz rr] by (simp add: update_rr_unfold update_spec_def)
  qed
qed

lemma update_loop_accepts:
  assumes laws: "file_laws L origin norm intree"
    and "\<And>r. r \<in> set rs \<Longrightarrow> typed_rr r" and "\<And>r. r \<in> set rs \<Longrightarrow> verdict (lIsDomainName L) r = None"
  shows "\<exists>dz'. for_each (update_rr L zone) rs (dz, tr) = (None, (dz', tr)) \<and> origin dz' = origin dz \<and>
    set (records L dz') = updates_spec (lIsDomainName L) norm rs (set (records L dz))"
  using assms(2,3)
proof (induction rs arbitrary: dz)
  case Nil
  then show ?case by simp
next
  case (Cons r rs)
  obtain dz1 where 1: "update_rr L zone r (dz, tr) = (None, (dz1, tr))" "origin dz1 = origin dz"
    "set (records L dz1) = update_spec (lIsDomainName L) norm r (set (records L dz))"
    using update_rr_accepts [OF laws, of r] Cons.prems by fastforce
  then show ?case using Cons.IH [of dz1] Cons.prems by auto
qed

lemma update_loop_rejects:
  assumes laws: "file_laws L origin norm intree"
    and "\<And>r. r \<in> set good \<Longrightarrow> typed_rr r" and "\<And>r. r \<in> set good \<Longrightarrow> verdict (lIsDomainName L) r = None"
    and bad: "verdict (lIsDomainName L) bad = Some rc"
  shows "\<exists>dz'. for_each (update_rr L zone) (good @ bad # rest) (dz, tr) =
      (Some rc, (dz', tr @ [EUnlock (LDyn zone)])) \<and> origin dz' = origin dz \<and>
    set (records L dz') = updates_spec (lIsDomainName L) norm good (set (records L dz))"
proof -
  obtain dz' where "for_each (update_rr L zone) good (dz, tr) = (None, (dz', tr))"
    "origin dz' = origin dz"
    "set (records L dz') = updates_spec (lIsDomainName L) norm good (set (records L dz))"
    using update_loop_accepts [OF laws, of good zone dz tr] assms(2,3) by blast
  then show ?thesis using update_rr_rejects [OF bad, of zone dz' tr] by (simp add: for_each_append)
qed

text \<open>
  The loop over the questions repeats the update; with at least one question the effect is
  that of one pass.
\<close>

lemma question_loop_accepts:
  assumes laws: "file_laws L origin norm intree"
    and "\<And>r. r \<in> set rs \<Longrightarrow> typed_rr r" and "\<And>r. r \<in> set rs \<Longrightarrow> verdict (lIsDomainName L) r = None"
  shows "\<exists>dz'. for_each (\<lambda>_. for_each (update_rr L zone) rs) qs (dz, tr) = (None, (dz', tr)) \<and>
    origin dz' = origin dz \<and>
    set (records L dz') = (if qs = [] then set (records L dz)
      else updates_spec (lIsDomainName L) norm rs (set (records L dz)))"
proof (induction qs arbitrary: dz)
  case Nil
  then show ?case by simp
next
  case (Cons q qs)
  obtain dz1 where 1: "for_each (update_rr L zone) rs (dz, tr) = (None, (dz1, tr))"
    "origin dz1 = origin dz"
    "set (records L dz1) = updates_spec (lIsDomainName L) norm rs (set (records L dz))"
    using update_loop_accepts [OF laws, of rs zone dz tr] assms(2,3) by blast
  obtain dz2 where "for_each (\<lambda>_. for_each (update_rr L zone) rs) qs (dz1, tr) = (None, (dz2, tr))"
    "origin dz2 = origin dz1"
    "set (records L dz2) = (if qs = [] then set (records L dz1)
      else updates_spec (lIsDomainName L) norm rs (set (records L dz1)))"
    using Cons.IH [of dz1] by blast
  with 1 show ?case by (simp add: updates_spec_idem)
qed

end
