(* ===== verification/UpdateEffects.thy ===== *)
theory UpdateEffects
  imports DynUpdate
begin

text \<open>
  What a dynamic update does to the plugin as a whole: which fields it leaves alone, its
  lock discipline on every path, the absence of panics under the table's invariant, the
  serial that reaches the static zone through the shared SOA struct, and the exact trace of
  a successful update.
\<close>

subsection \<open>Frame conditions\<close>

lemma store_dynamic_simps [simp]:
  "dZones (store_dynamic zone dz \<sigma>) = set_dynamic zone dz (dZones \<sigma>)"
  "dNamespaces (store_dynamic zone dz \<sigma>) = dNamespaces \<sigma>"
  "dTransfer (store_dynamic zone dz \<sigma>) = dTransfer \<sigma>"
  "wSerials (store_dynamic zone dz \<sigma>) = wSerials \<sigma>"
  "wCluster (store_dynamic zone dz \<sigma>) = wCluster \<sigma>"
  "wTrace (store_dynamic zone dz \<sigma>) = wTrace \<sigma>"
  by (simp_all add: store_dynamic_def)

lemma send_reply_frame [simp]:
  "dZones (snd (send_reply L zone r \<sigma>)) = dZones \<sigma>"
  "dNamespaces (snd (send_reply L zone r \<sigma>)) = dNamespaces \<sigma>"
  "dTransfer (snd (send_reply L zone r \<sigma>)) = dTransfer \<sigma>"
  "wSerials (snd (send_reply L zone r \<sigma>)) = wSerials \<sigma>"
  "wCluster (snd (send_reply L zone r \<sigma>)) = wCluster \<sigma>"
  by (simp_all add: send_reply_def Let_def split: option.splits)

lemma Merge_pair: "Merge L ori \<sigma> = (m, \<sigma>1) \<Longrightarrow> dZones \<sigma>1 = dZones \<sigma> \<and> dNamespaces \<sigma>1 = dNamespaces \<sigma> \<and>
    dTransfer \<sigma>1 = dTransfer \<sigma> \<and> wSerials \<sigma>1 = wSerials \<sigma> \<and> wCluster \<sigma>1 = wCluster \<sigma> \<and>
    wTrace \<sigma>1 = wTrace \<sigma> @ (if m = None then [] else merge_locks ori)"
  using Merge_frame [of L ori \<sigma>] Merge_trace [of L ori \<sigma>] by simp

lemma publish_frame [simp]:
  "dZones (snd (publish L s zone r \<sigma>)) = dZones \<sigma>"
  "dNamespaces (snd (publish L s zone r \<sigma>)) = dNamespaces \<sigma>"
  "dTransfer (snd (publish L s zone r \<sigma>)) = dTransfer \<sigma>"
  "wCluster (snd (publish L s zone r \<sigma>)) = wCluster \<sigma>"
  by (auto simp: publish_def split: prod.splits option.splits sum.splits dest!: Merge_pair)

lemma commit_body_frame [simp]:
  "dZones (snd (commit_body L s zone dz r \<sigma>)) = dZones \<sigma>"
  "dNamespaces (snd (commit_body L s zone dz r \<sigma>)) = dNamespaces \<sigma>"
  "dTransfer (snd (commit_body L s zone dz r \<sigma>)) = dTransfer \<sigma>"
  by (simp_all add: commit_body_def Let_def split: prod.splits option.splits)

lemma commit_eq:
  "commit L s zone dz r \<sigma> =
     (fst (commit_body L s zone dz r (emit [ERLock (LDyn zone)] \<sigma>)),
      emit [ERUnlock (LDyn zone)] (snd (commit_body L s zone dz r (emit [ERLock (LDyn zone)] \<sigma>))))"
  by (simp add: commit_def case_prod_beta)

lemma commit_frame [simp]:
  "dZones (snd (commit L s zone dz r \<sigma>)) = dZones \<sigma>"
  "dNamespaces (snd (commit L s zone dz r \<sigma>)) = dNamespaces \<sigma>"
  "dTransfer (snd (commit L s zone dz r \<sigma>)) = dTransfer \<sigma>"
  by (simp_all add: commit_eq)

lemma serve_update_frame:
  "dNamespaces (snd (serve_update L now zone dz r \<sigma>)) = dNamespaces \<sigma>"
  "dTransfer (snd (serve_update L now zone dz r \<sigma>)) = dTransfer \<sigma>"
  "\<exists>dz'. dZones (snd (serve_update L now zone dz r \<sigma>)) = set_dynamic zone dz' (dZones \<sigma>) \<and>
     dz' = fst (snd (apply_updates L zone r dz))"
  by (simp_all add: serve_update_def Let_def split: prod.splits option.splits)

subsection \<open>Locks\<close>

text \<open>
  The loops leave the trace alone while they go on, and append exactly one unlock when they
  return early.
\<close>

lemma update_rr_trace:
  "update_rr L zone rr (dz, tr) = (res, (dz', tr')) \<Longrightarrow>
   tr' = tr @ (if res = None then [] else [EUnlock (LDyn zone)])"
  by (auto simp: update_rr_unfold split: if_splits prod.splits option.splits)

lemma update_loop_trace:
  "for_each (update_rr L zone) rs (dz, tr) = (res, (dz', tr')) \<Longrightarrow>
   tr' = tr @ (if res = None then [] else [EUnlock (LDyn zone)])"
proof (induction rs arbitrary: dz tr)
  case Nil
  then show ?case by simp
next
  case (Cons rr rs)
  obtain res1 dz1 tr1 where 1: "update_rr L zone rr (dz, tr) = (res1, (dz1, tr1))"
    by (metis prod.exhaust)
  with update_rr_trace [OF 1] Cons show ?case by (auto split: option.splits)
qed

lemma question_loop_trace:
  "for_each (\<lambda>_. for_each (update_rr L zone) rs) qs (dz, tr) = (res, (dz', tr')) \<Longrightarrow>
   tr' = tr @ (if res = None then [] else [EUnlock (LDyn zone)])"
proof (induction qs arbitrary: dz tr)
  case Nil
  then show ?case by simp
next
  case (Cons q qs)
  obtain res1 dz1 tr1 where 1: "for_each (update_rr L zone) rs (dz, tr) = (res1, (dz1, tr1))"
    by (metis prod.exhaust)
  with update_loop_trace [OF 1] Cons show ?case by (auto split: option.splits)
qed

lemma apply_updates_trace:
  "apply_updates L zone r dz = (res, (dz', tr)) \<Longrightarrow>
   tr = (if res = None then [] else [EUnlock (LDyn zone)])"
  using question_loop_trace [of L zone "Ns r" "Question r" dz "[]"] by (simp add: apply_updates_def)

text \<open>The codes of an early return.\<close>

lemma update_rr_code:
  "update_rr L zone rr s = (Some rc, s') \<Longrightarrow>
   rc = RcodeRefused \<or> rc = RcodeServerFailure \<or> rc = RcodeNotImplemented"
  by (cases s) (auto simp: update_rr_unfold split: if_splits prod.splits option.splits)

lemma apply_updates_code:
  assumes "apply_updates L zone r dz = (Some rc, s')"
  shows "rc = RcodeRefused \<or> rc = RcodeServerFailure \<or> rc = RcodeNotImplemented"
proof -
  obtain q s1 where "for_each (update_rr L zone) (Ns r) s1 = (Some rc, s')"
    using for_each_result [OF assms [unfolded apply_updates_def]] by blast
  then obtain rr s2 where "update_rr L zone rr s2 = (Some rc, s')"
    using for_each_result by metis
  then show ?thesis by (rule update_rr_code)
qed

text \<open>
  The part under the read lock adds a stretch that can run under any read locks and gives
  back what it takes.
\<close>

definition read_safe :: "string \<Rightarrow> event list \<Rightarrow> bool" where
  "read_safe zone tr \<longleftrightarrow>
     (\<forall>s. \<not> fst (s (LBase zone)) \<longrightarrow> \<not> fst (s (LDyn zone)) \<longrightarrow> hold_all tr s = Some s)"

lemma read_safe_simps [simp]:
  "read_safe zone []"
  "read_safe zone (merge_locks zone)"
  "read_safe zone [ENotify n]"
  "read_safe zone [EPersisted z]"
  "read_safe zone [EWrite m]"
  by (auto simp: read_safe_def merge_locks_under)

lemma read_safe_append: "read_safe zone xs \<Longrightarrow> read_safe zone ys \<Longrightarrow> read_safe zone (xs @ ys)"
  by (simp add: read_safe_def hold_all_append)

definition read_clean :: "string \<Rightarrow> ('z, 'c) plugin \<Rightarrow> ('z, 'c) plugin \<Rightarrow> bool" where
  "read_clean zone \<sigma> \<sigma>' \<longleftrightarrow> (\<exists>tr. wTrace \<sigma>' = wTrace \<sigma> @ tr \<and> read_safe zone tr)"

lemma read_clean_refl [simp]: "wTrace \<sigma>' = wTrace \<sigma> \<Longrightarrow> read_clean zone \<sigma> \<sigma>'"
  by (simp add: read_clean_def)

lemma read_clean_trans: "read_clean zone \<sigma> \<sigma>' \<Longrightarrow> read_clean zone \<sigma>' \<sigma>'' \<Longrightarrow> read_clean zone \<sigma> \<sigma>''"
  by (force simp: read_clean_def intro: read_safe_append)

lemma read_clean_emit: "read_safe zone tr \<Longrightarrow> wTrace \<sigma>' = wTrace \<sigma> \<Longrightarrow> read_clean zone \<sigma> (emit tr \<sigma>')"
  by (simp add: read_clean_def)

lemma send_reply_read_clean: "read_clean zone \<sigma> (snd (send_reply L zone r \<sigma>))"
proof -
  let ?s = "if dTransfer \<sigma> then emit [ENotify zone] \<sigma> else \<sigma>"
  have "read_clean zone \<sigma> ?s" by (simp add: read_clean_emit)
  moreover have "read_clean zone ?s (snd (send_reply L zone r \<sigma>))"
    by (simp add: send_reply_def Let_def read_clean_emit split: option.splits)
  ultimately show ?thesis by (rule read_clean_trans)
qed

lemma publish_read_clean: "read_clean zone \<sigma> (snd (publish L s zone r \<sigma>))"
proof (cases "Merge L zone \<sigma>")
  case (Pair m \<sigma>1)
  from Merge_pair [OF Pair] have m: "read_clean zone \<sigma> \<sigma>1" by (simp add: read_clean_def)
  have "read_clean zone \<sigma>1 (snd (publish L s zone r \<sigma>))"
  proof -
    have "read_clean zone \<sigma>1 (snd (send_reply L zone r (\<sigma>1\<lparr>wSerials := h\<rparr>)))" for h
      using send_reply_read_clean [of zone "\<sigma>1\<lparr>wSerials := h\<rparr>" L r] by (simp add: read_clean_def)
    then show ?thesis
      by (simp add: publish_def Pair split: option.splits sum.splits prod.splits)
  qed
  with m show ?thesis by (rule read_clean_trans)
qed

lemma commit_body_read_clean: "read_clean zone \<sigma> (snd (commit_body L s zone dz r \<sigma>))"
proof -
  have "read_clean zone \<sigma> (snd (publish L s zone r (emit [EPersisted z] (\<sigma>\<lparr>wCluster := c\<rparr>))))" for z c
    by (rule read_clean_trans [OF read_clean_emit publish_read_clean]) simp_all
  then show ?thesis
    by (simp add: commit_body_def Let_def split: option.splits prod.splits)
qed

lemma commit_lock_clean: "lock_clean \<sigma> (snd (commit L s zone dz r \<sigma>))"
proof -
  obtain tr where tr: "wTrace (snd (commit_body L s zone dz r (emit [ERLock (LDyn zone)] \<sigma>))) =
      wTrace \<sigma> @ [ERLock (LDyn zone)] @ tr" "read_safe zone tr"
    using commit_body_read_clean [of zone "emit [ERLock (LDyn zone)] \<sigma>" L s dz r]
    by (auto simp: read_clean_def)
  have "wTrace (snd (commit L s zone dz r \<sigma>)) =
      wTrace \<sigma> @ ([ERLock (LDyn zone)] @ tr @ [ERUnlock (LDyn zone)])"
    using tr(1) by (simp add: commit_eq)
  moreover have "balanced ([ERLock (LDyn zone)] @ tr @ [ERUnlock (LDyn zone)])"
    using tr(2) by (simp add: balanced_def hold_all_append read_safe_def)
  ultimately show ?thesis unfolding lock_clean_def by blast
qed

lemma write_lock_balanced: "balanced [ELock l, EUnlock l]"
  by (simp add: balanced_def)

lemma serve_update_lock_clean: "lock_clean \<sigma> (snd (serve_update L now zone dz r \<sigma>))"
proof (cases "apply_updates L zone r dz")
  case (fields res dz' tr)
  note tr = apply_updates_trace [OF fields]
  let ?s = "emit [ELock (LDyn zone), EUnlock (LDyn zone)] (store_dynamic zone dz' \<sigma>)"
  have 1: "lock_clean \<sigma> ?s" using write_lock_balanced by (auto simp: lock_clean_def)
  show ?thesis
  proof (cases res)
    case None
    then have "snd (serve_update L now zone dz r \<sigma>) = snd (commit L (serial_of_ms now) zone dz' r ?s)"
      using fields tr by (simp add: serve_update_def Let_def)
    then show ?thesis using lock_clean_trans [OF 1 commit_lock_clean] by simp
  next
    case (Some rc)
    then have "snd (serve_update L now zone dz r \<sigma>) = ?s"
      using fields tr by (simp add: serve_update_def Let_def)
    with 1 show ?thesis by simp
  qed
qed

subsection \<open>Merge, serial, reply\<close>

text \<open>The store after the serial was written through some of the SOA pointers.\<close>

definition set_serials :: "soa_ptr list \<Rightarrow> u32 \<Rightarrow> serials \<Rightarrow> serials" where
  "set_serials ps s h = (\<lambda>p. if p \<in> set ps then Some s else h p)"

lemma set_serials_Nil [simp]: "set_serials [] s h = h"
  by (simp add: set_serials_def)

lemma bump_loop:
  assumes laws: "file_laws L origin norm intree"
  shows "\<exists>z'. for_each (bump_soa L s) apex (z, h) = (None, (z', set_serials (soas_of apex) s h))"
proof (induction apex arbitrary: z h)
  case Nil
  then show ?case by simp
next
  case (Cons rr apex)
  show ?case
  proof (cases "as_SOA rr")
    case None
    then show ?thesis using Cons by (simp add: bump_soa_def)
  next
    case (Some p)
    then obtain hd where rr: "rr = RR_SOA hd p" by (auto simp: as_SOA_eq_Some)
    obtain z' where "lInsert L z rr = (None, z')"
      using insert_soa [OF laws, of z hd p] rr by blast
    then have "bump_soa L s rr (z, h) = (None, (z', h(p \<mapsto> s)))"
      using Some by (simp add: bump_soa_def Let_def)
    moreover have e: "set_serials (soas_of apex) s (h(p \<mapsto> s)) = set_serials (soas_of (rr # apex)) s h"
      using Some by (auto simp: set_serials_def fun_eq_iff)
    moreover obtain z2 where "for_each (bump_soa L s) apex (z', h(p \<mapsto> s)) =
        (None, (z2, set_serials (soas_of apex) s (h(p \<mapsto> s))))"
      using Cons.IH [of z' "h(p \<mapsto> s)"] by blast
    ultimately show ?thesis unfolding e by (intro exI [of _ z2]) simp
  qed
qed

lemma publish_known:
  assumes laws: "file_laws L origin norm intree" and ok: "plugin_ok origin \<sigma>"
    and known: "zone \<in> set (Names (dZones \<sigma>))"
  shows "\<exists>z. static_at (dZones \<sigma>) zone = Some z \<and>
    publish L s zone r \<sigma> =
      (case lApex L z of
         Inl _ \<Rightarrow> (Ret (RcodeServerFailure, None), emit (merge_locks zone) \<sigma>)
       | Inr apex \<Rightarrow> send_reply L zone r
           ((emit (merge_locks zone) \<sigma>)\<lparr>wSerials := set_serials (apex_soas L z) s (wSerials \<sigma>)\<rparr>))"
proof -
  obtain z dz where z: "static_at (dZones \<sigma>) zone = Some z" "dynamic_at (dZones \<sigma>) zone = Some dz"
    "origin z = zone" "origin dz = zone"
    using Merge_known [OF ok known, of L] by blast
  have apex: "lApex L (merge_zones L z dz) = lApex L z"
    using merge_zones_contents(3) [OF laws, of dz z] z by simp
  have m: "Merge L zone \<sigma> = (Some (merge_zones L z dz), emit (merge_locks zone) \<sigma>)"
    using z by (simp add: Merge_def)
  show ?thesis
  proof (cases "lApex L z")
    case (Inl e)
    then show ?thesis using z m apex by (simp add: publish_def)
  next
    case (Inr rs)
    obtain z' where "for_each (bump_soa L s) rs (merge_zones L z dz, wSerials \<sigma>) =
        (None, (z', set_serials (soas_of rs) s (wSerials \<sigma>)))"
      using bump_loop [OF laws] by blast
    then show ?thesis using z m apex Inr by (simp add: publish_def apex_soas_def)
  qed
qed

lemma send_reply_Ret: "fst (send_reply L zone r \<sigma>) \<noteq> Panic"
  by (simp add: send_reply_def Let_def split: option.splits)

lemma publish_no_panic:
  assumes "file_laws L origin norm intree" and "plugin_ok origin \<sigma>"
    and "zone \<in> set (Names (dZones \<sigma>))"
  shows "fst (publish L s zone r \<sigma>) \<noteq> Panic"
proof -
  obtain z where "publish L s zone r \<sigma> =
      (case lApex L z of
         Inl _ \<Rightarrow> (Ret (RcodeServerFailure, None), emit (merge_locks zone) \<sigma>)
       | Inr apex \<Rightarrow> send_reply L zone r
           ((emit (merge_locks zone) \<sigma>)\<lparr>wSerials := set_serials (apex_soas L z) s (wSerials \<sigma>)\<rparr>))"
    using publish_known [OF assms] by blast
  then show ?thesis by (cases "lApex L z") (simp_all add: send_reply_Ret)
qed

lemma commit_no_panic:
  assumes "file_laws L origin norm intree" and "plugin_ok origin \<sigma>"
    and "zone \<in> set (Names (dZones \<sigma>))"
  shows "fst (commit L s zone dz r \<sigma>) \<noteq> Panic"
proof -
  have "fst (publish L s zone r (emit [EPersisted o1] ((emit es \<sigma>)\<lparr>wCluster := c\<rparr>))) \<noteq> Panic" for o1 c es
    using publish_no_panic [OF assms(1), of "emit [EPersisted o1] ((emit es \<sigma>)\<lparr>wCluster := c\<rparr>)"] assms(2,3)
    by (simp add: plugin_ok_def)
  then show ?thesis
    by (auto simp: commit_eq commit_body_def Let_def split: option.splits prod.splits)
qed

subsection \<open>The table of zones under an update\<close>

lemma update_rr_origin:
  assumes "file_laws L origin norm intree"
  shows "origin (fst (snd (update_rr L zone rr s))) = origin (fst s)"
proof (cases s)
  case (Pair dz tr)
  then show ?thesis
    using insert_origin [OF assms, of dz rr] delete_zone(2) [OF assms, of dz rr]
    by (auto simp: update_rr_unfold split: prod.splits option.splits)
qed

lemma apply_updates_origin:
  assumes "file_laws L origin norm intree"
  shows "origin (fst (snd (apply_updates L zone r dz))) = origin dz"
  unfolding apply_updates_def
  by (rule for_each_invariant [where P = "\<lambda>t. origin (fst t) = origin dz"])
    (simp_all add: for_each_invariant [where P = "\<lambda>t. origin (fst t) = origin dz"]
      update_rr_origin [OF assms])

lemma serve_update_ok:
  assumes laws: "file_laws L origin norm intree" and ok: "plugin_ok origin \<sigma>"
    and dz: "dynamic_at (dZones \<sigma>) zone = Some dz"
  shows "plugin_ok origin (snd (serve_update L now zone dz r \<sigma>))"
    and "fst (serve_update L now zone dz r \<sigma>) \<noteq> Panic"
    and "Names (dZones (snd (serve_update L now zone dz r \<sigma>))) = Names (dZones \<sigma>)"
    and "k \<noteq> zone \<Longrightarrow> dynamic_at (dZones (snd (serve_update L now zone dz r \<sigma>))) k = dynamic_at (dZones \<sigma>) k"
    and "static_at (dZones (snd (serve_update L now zone dz r \<sigma>))) k = static_at (dZones \<sigma>) k"
proof -
  have known: "zone \<in> set (Names (dZones \<sigma>))" and ori: "origin dz = zone"
    using known_pointers(2,4) [of origin "dZones \<sigma>" zone] ok dz by (auto simp: plugin_ok_def)
  obtain res dz' tr where a: "apply_updates L zone r dz = (res, (dz', tr))"
    by (metis prod.exhaust)
  have ori': "origin dz' = zone" using apply_updates_origin [OF laws, of zone r dz] a ori by simp
  note set_ok = zones_ok_set_dynamic [OF ok [unfolded plugin_ok_def] known ori']
  have zs: "dZones (snd (serve_update L now zone dz r \<sigma>)) = set_dynamic zone dz' (dZones \<sigma>)"
    using serve_update_frame(3) [of L now zone dz r \<sigma>] a by auto
  show "plugin_ok origin (snd (serve_update L now zone dz r \<sigma>))"
    "Names (dZones (snd (serve_update L now zone dz r \<sigma>))) = Names (dZones \<sigma>)"
    "k \<noteq> zone \<Longrightarrow> dynamic_at (dZones (snd (serve_update L now zone dz r \<sigma>))) k = dynamic_at (dZones \<sigma>) k"
    "static_at (dZones (snd (serve_update L now zone dz r \<sigma>))) k = static_at (dZones \<sigma>) k"
    using set_ok zs by (simp_all add: plugin_ok_def)
  show "fst (serve_update L now zone dz r \<sigma>) \<noteq> Panic"
  proof (cases res)
    case None
    have "plugin_ok origin (emit es (store_dynamic zone dz' \<sigma>))" for es
      using set_ok(1) by (simp add: plugin_ok_def)
    then show ?thesis
      using None a commit_no_panic [OF laws] known by (simp add: serve_update_def Let_def)
  next
    case (Some rc)
    then show ?thesis using a by (simp add: serve_update_def Let_def)
  qed
qed

subsection \<open>The successful update\<close>

text \<open>
  An update every record of which is accepted: the loop computes the abstract update, the
  object found gets the texts of exactly the new contents, then the static zone's SOA gets
  the serial, then the notify and the reply go out.
\<close>

definition notify_events :: "string \<Rightarrow> ('z, 'c) plugin \<Rightarrow> event list" where
  "notify_events zone \<sigma> = (if dTransfer \<sigma> then [ENotify zone] else [])"

definition accepts :: "('z, 'e, 'm) dns_lib_scheme \<Rightarrow> msg \<Rightarrow> bool" where
  "accepts L r \<longleftrightarrow> Question r \<noteq> [] \<and> (\<forall>rr \<in> set (Ns r). typed_rr rr \<and> verdict (lIsDomainName L) rr = None)"

definition update_reply :: "('z, 'e, 'm) dns_lib_scheme \<Rightarrow> msg \<Rightarrow> reply" where
  "update_reply L r = (lSetReply L r)\<lparr>Authoritative := True\<rparr>"

lemma apply_updates_accepts:
  assumes "file_laws L origin norm intree" and "accepts L r"
  shows "\<exists>dz'. apply_updates L zone r dz = (None, (dz', [])) \<and> origin dz' = origin dz \<and>
    set (records L dz') = updates_spec (lIsDomainName L) norm (Ns r) (set (records L dz))"
proof -
  have "\<And>rr. rr \<in> set (Ns r) \<Longrightarrow> typed_rr rr"
    and "\<And>rr. rr \<in> set (Ns r) \<Longrightarrow> verdict (lIsDomainName L) rr = None"
    using assms(2) by (auto simp: accepts_def)
  from question_loop_accepts [where zone = zone and qs = "Question r" and dz = dz and tr = "[]", OF assms(1) this] assms(2)
  show ?thesis by (simp add: apply_updates_def accepts_def)
qed

lemma publish_success:
  assumes "file_laws L origin norm intree" and "plugin_ok origin \<sigma>"
    and "zone \<in> set (Names (dZones \<sigma>))" and "static_at (dZones \<sigma>) zone = Some z"
    and "lApex L z = Inr apex" and "lWriteMsg L (update_reply L r) = None"
  shows "publish L s zone r \<sigma> =
    (Ret (RcodeSuccess, None),
     emit (merge_locks zone @ notify_events zone \<sigma> @ [EWrite (update_reply L r)])
       (\<sigma>\<lparr>wSerials := set_serials (soas_of apex) s (wSerials \<sigma>)\<rparr>))"
  using publish_known [OF assms(1-3), of s r] assms(4-6)
  by (auto simp: send_reply_def Let_def update_reply_def notify_events_def apex_soas_def emit_def)

lemma serve_update_success:
  assumes laws: "file_laws L origin norm intree" and ok: "plugin_ok origin \<sigma>"
    and acc: "accepts L r"
    and dz: "dynamic_at (dZones \<sigma>) zone = Some dz"
    and z: "static_at (dZones \<sigma>) zone = Some z" "lApex L z = Inr apex"
    and obj: "find_zone L (wCluster \<sigma>) (trim_dot zone) (dNamespaces \<sigma>) = Some obj"
    and wr: "lWriteMsg L (update_reply L r) = None"
  shows "\<exists>dz'. set (records L dz') = updates_spec (lIsDomainName L) norm (Ns r) (set (records L dz)) \<and>
    (\<forall>obj' c'. obj' = new_status L (wSerials \<sigma>) dz' (serial_of_ms now) obj \<longrightarrow>
      kStatusUpdate L (wCluster \<sigma>) obj' = (None, c') \<longrightarrow>
      serve_update L now zone dz r \<sigma> =
        (Ret (RcodeSuccess, None),
         \<sigma>\<lparr>dZones := set_dynamic zone dz' (dZones \<sigma>),
           wSerials := set_serials (soas_of apex) (serial_of_ms now) (wSerials \<sigma>),
           wCluster := c',
           wTrace := wTrace \<sigma> @ [ELock (LDyn zone), EUnlock (LDyn zone), ERLock (LDyn zone),
             EPersisted obj'] @ merge_locks zone @ notify_events zone \<sigma> @
             [EWrite (update_reply L r), ERUnlock (LDyn zone)]\<rparr>))"
proof -
  have known: "zone \<in> set (Names (dZones \<sigma>))" and ori: "origin dz = zone"
    using known_pointers(2,4) [of origin "dZones \<sigma>" zone] ok dz by (auto simp: plugin_ok_def)
  obtain dz' where dz': "apply_updates L zone r dz = (None, (dz', []))" "origin dz' = origin dz"
    "set (records L dz') = updates_spec (lIsDomainName L) norm (Ns r) (set (records L dz))"
    using apply_updates_accepts [OF laws acc] by blast
  have "serve_update L now zone dz r \<sigma> =
      (Ret (RcodeSuccess, None),
       \<sigma>\<lparr>dZones := set_dynamic zone dz' (dZones \<sigma>),
         wSerials := set_serials (soas_of apex) (serial_of_ms now) (wSerials \<sigma>),
         wCluster := c',
         wTrace := wTrace \<sigma> @ [ELock (LDyn zone), EUnlock (LDyn zone), ERLock (LDyn zone),
           EPersisted obj'] @ merge_locks zone @ notify_events zone \<sigma> @
           [EWrite (update_reply L r), ERUnlock (LDyn zone)]\<rparr>)"
    if obj': "obj' = new_status L (wSerials \<sigma>) dz' (serial_of_ms now) obj"
      and up: "kStatusUpdate L (wCluster \<sigma>) obj' = (None, c')" for obj' c'
  proof -
    let ?s = "emit [EPersisted obj'] ((emit [ERLock (LDyn zone)]
      (emit [ELock (LDyn zone), EUnlock (LDyn zone)] (store_dynamic zone dz' \<sigma>)))\<lparr>wCluster := c'\<rparr>)"
    have "plugin_ok origin ?s"
      using zones_ok_set_dynamic(1) [OF ok [unfolded plugin_ok_def] known, of dz'] dz'(2) ori
      by (simp add: plugin_ok_def)
    from publish_success [where zone = zone and z = z and apex = apex and r = r and s = "serial_of_ms now", OF laws this] known z wr
    have "publish L (serial_of_ms now) zone r ?s = (Ret (RcodeSuccess, None),
       emit (merge_locks zone @ notify_events zone \<sigma> @ [EWrite (update_reply L r)])
         (?s\<lparr>wSerials := set_serials (soas_of apex) (serial_of_ms now) (wSerials \<sigma>)\<rparr>))"
      by (simp add: notify_events_def)
    then show ?thesis
      using obj up dz'(1) unfolding obj'
      by (simp add: serve_update_def Let_def commit_eq commit_body_def emit_def store_dynamic_def)
  qed
  with dz'(3) show ?thesis by blast
qed

subsection \<open>Updates that fail\<close>

lemma apply_updates_rejects:
  assumes "file_laws L origin norm intree" and "Question r \<noteq> []" and "Ns r = good @ bad # rest"
    and "\<forall>rr \<in> set good. typed_rr rr \<and> verdict (lIsDomainName L) rr = None"
    and "verdict (lIsDomainName L) bad = Some rc"
  shows "\<exists>dz'. apply_updates L zone r dz = (Some rc, (dz', [EUnlock (LDyn zone)])) \<and> origin dz' = origin dz \<and>
    set (records L dz') = updates_spec (lIsDomainName L) norm good (set (records L dz))"
proof -
  obtain dz' where "for_each (update_rr L zone) (Ns r) (dz, []) = (Some rc, (dz', [EUnlock (LDyn zone)]))"
    "origin dz' = origin dz"
    "set (records L dz') = updates_spec (lIsDomainName L) norm good (set (records L dz))"
    using update_loop_rejects [where good = good and bad = bad and rest = rest and zone = zone
        and dz = dz and tr = "[]", OF assms(1) _ _ assms(5)] assms(3,4) by auto
  then show ?thesis using assms(2) by (cases "Question r") (simp_all add: apply_updates_def)
qed

text \<open>The outcome when the status of the object cannot be written.\<close>

lemma commit_conflict:
  assumes "find_zone L (wCluster \<sigma>) (trim_dot zone) (dNamespaces \<sigma>) = Some obj"
    and "kStatusUpdate L (wCluster \<sigma>) (new_status L (wSerials \<sigma>) dz s obj) = (Some e, c')"
  shows "commit L s zone dz r \<sigma> =
    (Ret (RcodeServerFailure, None), emit [ERLock (LDyn zone), ERUnlock (LDyn zone)] (\<sigma>\<lparr>wCluster := c'\<rparr>))"
  using assms by (simp add: commit_eq commit_body_def Let_def emit_def)

subsection \<open>Properties\<close>

text \<open>
  C3: the loop over the update section implements the abstract update.  When every record is of
  an accepted type and class, the dynamic zone ends up with exactly the set of records that
  the abstract update computes, on the first question and on every further one.
\<close>

theorem update_loop_refines:
  assumes "file_laws L origin norm intree" and "accepts L r"
  shows "\<exists>dz'. apply_updates L zone r dz = (None, (dz', [])) \<and> origin dz' = origin dz \<and>
    set (records L dz') = updates_spec (lIsDomainName L) norm (Ns r) (set (records L dz))"
  using assms by (rule apply_updates_accepts)

theorem update_loop_refines_witness:
  "\<exists>dz'. apply_updates sample ''a.org.'' (ex_msg OpcodeUpdate [ex_txt ClassINET]) ex_dyn = (None, (dz', [])) \<and>
     set (records sample dz') = {ex_txt ClassINET}"
proof -
  have "accepts sample (ex_msg OpcodeUpdate [ex_txt ClassINET])"
    by (simp add: accepts_def ex_defs typed_rr_def verdict_def allowed_type_def)
  from update_loop_refines [OF sample_file_laws this, of "''a.org.''" ex_dyn]
  show ?thesis by (auto simp: ex_msg_def update_spec_def ex_txt_def)
qed

text \<open>
  Sending an accepted update again changes nothing: two passes of the loop leave the
  records that one pass leaves.
\<close>

lemma update_idempotent:
  assumes "file_laws L origin norm intree" and "accepts L r"
  shows "\<exists>dz1 dz2. apply_updates L zone r dz = (None, (dz1, [])) \<and>
    apply_updates L zone r dz1 = (None, (dz2, [])) \<and> set (records L dz2) = set (records L dz1)"
proof -
  obtain dz1 where 1: "apply_updates L zone r dz = (None, (dz1, []))"
    "set (records L dz1) = updates_spec (lIsDomainName L) norm (Ns r) (set (records L dz))"
    using apply_updates_accepts [OF assms] by blast
  obtain dz2 where "apply_updates L zone r dz1 = (None, (dz2, []))"
    "set (records L dz2) = updates_spec (lIsDomainName L) norm (Ns r) (set (records L dz1))"
    using apply_updates_accepts [OF assms] by blast
  with 1 show ?thesis by (simp add: updates_spec_idem)
qed

lemma update_idempotent_witness:
  "\<exists>dz1 dz2. apply_updates sample ''a.org.'' (ex_msg OpcodeUpdate [ex_txt ClassNONE, ex_txt ClassINET]) ex_dyn =
       (None, (dz1, [])) \<and>
     apply_updates sample ''a.org.'' (ex_msg OpcodeUpdate [ex_txt ClassNONE, ex_txt ClassINET]) dz1 =
       (None, (dz2, [])) \<and> set (records sample dz2) = set (records sample dz1)"
proof -
  have "accepts sample (ex_msg OpcodeUpdate [ex_txt ClassNONE, ex_txt ClassINET])"
    by (simp add: accepts_def ex_defs typed_rr_def verdict_def allowed_type_def)
  from update_idempotent [OF sample_file_laws this] show ?thesis .
qed

text \<open>
  C25: an update with a record that is refused is not atomic.  The records before the first
  refused one stay applied to the dynamic zone that is served, while the answer is the
  refusal and neither the object in the cluster nor the SOA serials are touched.
\<close>

theorem refused_update_keeps_prefix:
  assumes "file_laws L origin norm intree" and "plugin_ok origin \<sigma>"
    and "dynamic_at (dZones \<sigma>) zone = Some dz" and "Question r \<noteq> []"
    and "Ns r = good @ bad # rest"
    and "\<forall>rr \<in> set good. typed_rr rr \<and> verdict (lIsDomainName L) rr = None"
    and "verdict (lIsDomainName L) bad = Some rc"
  shows "\<exists>\<sigma>' dz'. serve_update L now zone dz r \<sigma> = (Ret (rc, None), \<sigma>') \<and>
    dynamic_at (dZones \<sigma>') zone = Some dz' \<and>
    set (records L dz') = updates_spec (lIsDomainName L) norm good (set (records L dz)) \<and>
    wCluster \<sigma>' = wCluster \<sigma> \<and> wSerials \<sigma>' = wSerials \<sigma> \<and>
    wTrace \<sigma>' = wTrace \<sigma> @ [ELock (LDyn zone), EUnlock (LDyn zone)]"
proof -
  have known: "zone \<in> set (Names (dZones \<sigma>))" and ori: "origin dz = zone"
    using known_pointers(2,4) [of origin "dZones \<sigma>" zone] assms(2,3) by (auto simp: plugin_ok_def)
  obtain dz' where a: "apply_updates L zone r dz = (Some rc, (dz', [EUnlock (LDyn zone)]))"
    "origin dz' = origin dz"
    "set (records L dz') = updates_spec (lIsDomainName L) norm good (set (records L dz))"
    using apply_updates_rejects [OF assms(1,4-7)] by blast
  have "dynamic_at (set_dynamic zone dz' (dZones \<sigma>)) zone = Some dz'"
    using zones_ok_set_dynamic(2) [OF assms(2) [unfolded plugin_ok_def] known, of dz'] a(2) ori by simp
  then show ?thesis
    using a by (intro exI [of _ "snd (serve_update L now zone dz r \<sigma>)"] exI [of _ dz'])
      (simp add: serve_update_def Let_def)
qed

theorem refused_update_keeps_prefix_witness:
  "\<exists>\<sigma>' dz'. serve_update sample 5 ''a.org.'' ex_dyn (ex_msg OpcodeUpdate [ex_txt ClassINET, ex_txt ClassANY])
       ex_plugin = (Ret (RcodeNotImplemented, None), \<sigma>') \<and>
     dynamic_at (dZones \<sigma>') ''a.org.'' = Some dz' \<and> set (records sample dz') = {ex_txt ClassINET} \<and>
     wCluster \<sigma>' = [ex_obj]"
proof -
  let ?r = "ex_msg OpcodeUpdate [ex_txt ClassINET, ex_txt ClassANY]"
  have "verdict (lIsDomainName sample) (ex_txt ClassANY) = Some RcodeNotImplemented"
    by (simp add: verdict_def ex_txt_def allowed_type_def class_defs)
  moreover have "\<forall>rr \<in> set [ex_txt ClassINET]. typed_rr rr \<and> verdict (lIsDomainName sample) rr = None"
    by (simp add: ex_txt_def typed_rr_def verdict_def allowed_type_def)
  moreover have "Question ?r \<noteq> []" "Ns ?r = [ex_txt ClassINET] @ ex_txt ClassANY # []"
    by (simp_all add: ex_msg_def)
  ultimately show ?thesis
    using refused_update_keeps_prefix [OF sample_file_laws ex_plugin_ok, of "''a.org.''" ex_dyn ?r
        "[ex_txt ClassINET]" "ex_txt ClassANY" "[]" RcodeNotImplemented 5]
    by (auto simp: update_spec_def ex_txt_def)
qed

text \<open>
  When the cluster refuses the new status (a conflict, say), the answer is a server failure
  and no serial changes, but the records are already in the dynamic zone that is served: the
  zone in memory and the object in the cluster disagree from then on.
\<close>

lemma status_failure_keeps_memory:
  assumes "file_laws L origin norm intree" and "plugin_ok origin \<sigma>" and "accepts L r"
    and "dynamic_at (dZones \<sigma>) zone = Some dz"
    and "find_zone L (wCluster \<sigma>) (trim_dot zone) (dNamespaces \<sigma>) = Some obj"
    and "\<And>obj'. kStatusUpdate L (wCluster \<sigma>) obj' = (Some e, wCluster \<sigma>)"
  shows "\<exists>\<sigma>' dz'. serve_update L now zone dz r \<sigma> = (Ret (RcodeServerFailure, None), \<sigma>') \<and>
    dynamic_at (dZones \<sigma>') zone = Some dz' \<and>
    set (records L dz') = updates_spec (lIsDomainName L) norm (Ns r) (set (records L dz)) \<and>
    wCluster \<sigma>' = wCluster \<sigma> \<and> wSerials \<sigma>' = wSerials \<sigma>"
proof -
  have known: "zone \<in> set (Names (dZones \<sigma>))" and ori: "origin dz = zone"
    using known_pointers(2,4) [of origin "dZones \<sigma>" zone] assms(2,4) by (auto simp: plugin_ok_def)
  obtain dz' where a: "apply_updates L zone r dz = (None, (dz', []))" "origin dz' = origin dz"
    "set (records L dz') = updates_spec (lIsDomainName L) norm (Ns r) (set (records L dz))"
    using apply_updates_accepts [OF assms(1,3)] by blast
  let ?s = "emit [ELock (LDyn zone), EUnlock (LDyn zone)] (store_dynamic zone dz' \<sigma>)"
  have "commit L (serial_of_ms now) zone dz' r ?s = (Ret (RcodeServerFailure, None),
      emit [ERLock (LDyn zone), ERUnlock (LDyn zone)] (?s\<lparr>wCluster := wCluster \<sigma>\<rparr>))"
    by (rule commit_conflict [of L ?s zone obj dz' "serial_of_ms now" e]) (simp_all add: assms(5,6))
  moreover have "dynamic_at (set_dynamic zone dz' (dZones \<sigma>)) zone = Some dz'"
    using zones_ok_set_dynamic(2) [OF assms(2) [unfolded plugin_ok_def] known, of dz'] a(2) ori by simp
  ultimately show ?thesis
    using a by (intro exI [of _ "snd (serve_update L now zone dz r \<sigma>)"] exI [of _ dz'])
      (simp add: serve_update_def Let_def)
qed

lemma status_failure_keeps_memory_witness:
  "\<exists>\<sigma>' dz'. serve_update sample_readonly 5 ''a.org.'' ex_dyn (ex_msg OpcodeUpdate [ex_txt ClassINET])
       ex_plugin = (Ret (RcodeServerFailure, None), \<sigma>') \<and>
     dynamic_at (dZones \<sigma>') ''a.org.'' = Some dz' \<and> set (records sample dz') = {ex_txt ClassINET} \<and>
     wCluster \<sigma>' = [ex_obj]"
proof -
  let ?r = "ex_msg OpcodeUpdate [ex_txt ClassINET]"
  have dom: "lIsDomainName sample_readonly = (\<lambda>s. s \<noteq> [])" by (simp add: sample_readonly_def)
  have acc: "accepts sample_readonly ?r"
    by (simp add: accepts_def ex_defs typed_rr_def verdict_def allowed_type_def dom)
  have dyn: "dynamic_at (dZones ex_plugin) ''a.org.'' = Some ex_dyn" by simp
  have fnd: "find_zone sample_readonly (wCluster ex_plugin) (trim_dot ''a.org.'') (dNamespaces ex_plugin) = Some ex_obj"
    by (simp add: sample_readonly_def trim_dot_def ex_get)
  have fail: "kStatusUpdate sample_readonly (wCluster ex_plugin) obj' = (Some KConflict, wCluster ex_plugin)" for obj'
    by (simp add: sample_readonly_def)
  from status_failure_keeps_memory [OF readonly_file_laws ex_plugin_ok acc dyn fnd fail, of 5]
  show ?thesis by (auto simp: dom update_spec_def ex_msg_def ex_txt_def)
qed

end
