(* ===== verification/Serving.thy ===== *)
theory Serving
  imports UpdateEffects
begin

text \<open>
  The request handler \<open>ServeDNS\<close> as a whole (\<open>dynamicupdate.go\<close>), with the query path, and
  the small entry points beside it (\<open>reload.go\<close>, \<open>ready.go\<close>, \<open>shutdown.go\<close>, the plugin's
  name and its error type).  The lemmas show that a request never panics under the
  invariant of the table of zones, keeps it, leaves no lock taken, and follows the contract
  between a CoreDNS plugin and its server about who writes the reply.
\<close>

subsection \<open>The query path\<close>

text \<open>
  The reply for the outcome of a lookup; \<open>None\<close> is the early return of a server failure.
\<close>

definition query_reply ::
  "('z, 'e, 'm) dns_lib_scheme \<Rightarrow> msg \<Rightarrow> prr list \<Rightarrow> prr list \<Rightarrow> prr list \<Rightarrow> lookup_result \<Rightarrow> reply option" where
  "query_reply L r answer ns extra result =
     (let m = (lSetReply L r)\<lparr>Authoritative := True, rAnswer := answer, rNs := ns, rExtra := extra\<rparr>
      in case result of
           LSuccess \<Rightarrow> Some m
         | LNoData \<Rightarrow> Some m
         | LNameError \<Rightarrow> Some (m\<lparr>Rcode := RcodeNameError\<rparr>)
         | LDelegation \<Rightarrow> Some (m\<lparr>Authoritative := False\<rparr>)
         | LServerFailure \<Rightarrow>
             if length (rAnswer m) = 0 then None else Some (m\<lparr>Rcode := RcodeServerFailure\<rparr>))"

definition serve_query ::
  "('z, 'e, 'c, 'm) plugin_lib_scheme \<Rightarrow> string \<Rightarrow> string \<Rightarrow> msg \<Rightarrow> ('z, 'c) plugin \<Rightarrow>
   dns_result go \<times> ('z, 'c) plugin" where
  "serve_query L zone qname r \<sigma> =
     (case Merge L zone \<sigma> of
        (None, \<sigma>1) \<Rightarrow> (Panic, \<sigma>1)
      | (Some z, \<sigma>1) \<Rightarrow>
          (let \<sigma>2 = emit [ERLock LMerged, ERUnlock LMerged] \<sigma>1 in
           if lExpired L z then (Ret (RcodeServerFailure, None), \<sigma>2)
           else case lLookup L z (wSerials \<sigma>2) r qname of
             (answer, ns, extra, result) \<Rightarrow>
               (case query_reply L r answer ns extra result of
                  None \<Rightarrow> (Ret (RcodeServerFailure, None), \<sigma>2)
                | Some m \<Rightarrow>
                    (case lWriteMsg L m of
                       Some _ \<Rightarrow> (Ret (RcodeServerFailure, None), \<sigma>2)
                     | None \<Rightarrow> (Ret (RcodeSuccess, None), emit [EWrite m] \<sigma>2)))))"

subsection \<open>The handler\<close>

text \<open>\<open>now\<close> is the time of the request in milliseconds (\<open>time.Now().UnixMilli()\<close>).\<close>

definition ServeDNS ::
  "('z, 'e, 'c, 'm) plugin_lib_scheme \<Rightarrow> int \<Rightarrow> msg \<Rightarrow> ('z, 'c) plugin \<Rightarrow>
   dns_result go \<times> ('z, 'c) plugin" where
  "ServeDNS L now r \<sigma> =
     (let qname = lReqName L r;
          zone = lMatches L (Names (dZones \<sigma>)) qname in
      if zone = '''' then (Ret (lNext L r), \<sigma>)
      else case ptr_at (DynamicZones (dZones \<sigma>)) zone of
        None \<Rightarrow> (Ret (RcodeServerFailure, None), \<sigma>)
      | Some dz \<Rightarrow>
          if lReqQType L r = TypeAXFR \<or> lReqQType L r = TypeIXFR then (Ret (RcodeRefused, None), \<sigma>)
          else if Opcode r = OpcodeNotify then (Ret (RcodeSuccess, None), \<sigma>)
          else if Opcode r = OpcodeUpdate then serve_update L now zone dz r \<sigma>
          else serve_query L zone qname r \<sigma>)"

text \<open>The other entry points of the plugin.\<close>

definition Name :: string where
  "Name = ''dynamicupdate''"

datatype reload_error = ZoneNotFound string

text \<open>
  \<open>Reload\<close>: an error for an unknown zone, otherwise nothing, whatever the reload interval
  (the ticker of the source is commented out).
\<close>

definition Reload ::
  "('z, 'e, 'm) file_lib_scheme \<Rightarrow> string \<Rightarrow> ('z, 'c) plugin \<Rightarrow> reload_error option" where
  "Reload L zoneName \<sigma> =
     (case ptr_at (Z (dZones \<sigma>)) zoneName of
        None \<Rightarrow> Some (ZoneNotFound zoneName)
      | Some zone \<Rightarrow> if lReloadInterval L zone = 0 then None else None)"

text \<open>
  \<open>Ready\<close>: both branches of the select return, so the loop runs once; \<open>elected\<close> says whether
  the manager's \<open>Elected\<close> channel is closed.
\<close>

definition Ready :: "bool \<Rightarrow> bool" where
  "Ready elected = (if elected then True else False)"

definition OnShutdown :: "('z, 'c) plugin \<Rightarrow> string option" where
  "OnShutdown \<sigma> = None"

subsection \<open>Frame conditions and locks of a query\<close>

lemma serve_query_frame [simp]:
  "dZones (snd (serve_query L zone qname r \<sigma>)) = dZones \<sigma>"
  "dNamespaces (snd (serve_query L zone qname r \<sigma>)) = dNamespaces \<sigma>"
  "dTransfer (snd (serve_query L zone qname r \<sigma>)) = dTransfer \<sigma>"
  "wSerials (snd (serve_query L zone qname r \<sigma>)) = wSerials \<sigma>"
  "wCluster (snd (serve_query L zone qname r \<sigma>)) = wCluster \<sigma>"
  by (auto simp: serve_query_def Let_def split: prod.splits option.splits dest!: Merge_pair)

lemma balanced_read: "balanced [ERLock l, ERUnlock l]"
  by (simp add: balanced_def fun_eq_iff)

lemma lock_clean_emit: "balanced tr \<Longrightarrow> lock_clean \<sigma> (emit tr \<sigma>)"
  by (auto simp: lock_clean_def)

lemma balanced_write [simp]: "balanced [EWrite m]"
  by (simp add: balanced_def)

text \<open>
  What a query does under the invariant, in one equation: the merge of the two zones, the
  check of the expiry, the lookup, the reply.
\<close>

lemma serve_query_known:
  assumes "static_at (dZones \<sigma>) zone = Some z" and "dynamic_at (dZones \<sigma>) zone = Some dz"
  shows "serve_query L zone qname r \<sigma> =
    (let n = merge_zones L z dz;
         \<sigma>2 = emit (merge_locks zone @ [ERLock LMerged, ERUnlock LMerged]) \<sigma> in
     if lExpired L n then (Ret (RcodeServerFailure, None), \<sigma>2)
     else case lLookup L n (wSerials \<sigma>) r qname of
       (answer, ns, extra, result) \<Rightarrow>
         (case query_reply L r answer ns extra result of
            None \<Rightarrow> (Ret (RcodeServerFailure, None), \<sigma>2)
          | Some m \<Rightarrow>
              (case lWriteMsg L m of
                 Some _ \<Rightarrow> (Ret (RcodeServerFailure, None), \<sigma>2)
               | None \<Rightarrow> (Ret (RcodeSuccess, None), emit [EWrite m] \<sigma>2))))"
  using assms
  by (auto simp: serve_query_def Merge_def Let_def emit_emit split: prod.splits option.splits)

lemma serve_query_unknown:
  assumes "static_at (dZones \<sigma>) zone = None \<or> dynamic_at (dZones \<sigma>) zone = None"
  shows "serve_query L zone qname r \<sigma> = (Panic, \<sigma>)"
  using assms by (auto simp: serve_query_def Merge_def split: option.splits)

text \<open>The outcomes of a query for a zone that is in the table.\<close>

lemma serve_query_outcome:
  assumes "static_at (dZones \<sigma>) zone = Some z" and "dynamic_at (dZones \<sigma>) zone = Some dz"
  obtains (failed) "serve_query L zone qname r \<sigma> =
      (Ret (RcodeServerFailure, None), emit (merge_locks zone @ [ERLock LMerged, ERUnlock LMerged]) \<sigma>)"
  | (answered) m where "serve_query L zone qname r \<sigma> =
      (Ret (RcodeSuccess, None),
       emit (merge_locks zone @ [ERLock LMerged, ERUnlock LMerged, EWrite m]) \<sigma>)"
    and "lWriteMsg L m = None"
proof (cases "lExpired L (merge_zones L z dz)")
  case True
  then show ?thesis using failed serve_query_known [OF assms, of L qname r] by (simp add: Let_def emit_emit)
next
  case False
  obtain a n x res where look: "lLookup L (merge_zones L z dz) (wSerials \<sigma>) r qname = (a, n, x, res)"
    by (metis prod.exhaust)
  show ?thesis
  proof (cases "query_reply L r a n x res")
    case None
    then show ?thesis using failed False look serve_query_known [OF assms, of L qname r] by (simp add: Let_def emit_emit)
  next
    case (Some m)
    show ?thesis
    proof (cases "lWriteMsg L m")
      case None
      then show ?thesis
        using answered [of m] False look Some serve_query_known [OF assms, of L qname r] by (simp add: Let_def emit_emit)
    next
      case (Some e)
      then show ?thesis
        using failed False look \<open>query_reply L r a n x res = Some m\<close> serve_query_known [OF assms, of L qname r]
        by (simp add: Let_def emit_emit)
    qed
  qed
qed

subsection \<open>Who writes the reply\<close>

text \<open>
  A CoreDNS plugin that returns a success code has written the reply itself, one that
  returns a failure code leaves it to the server.  \<open>replies L res tr\<close> says that a call with
  result \<open>res\<close> and trace \<open>tr\<close> does so, with exactly one reply.
\<close>

definition replies :: "('z, 'e, 'c, 'm) plugin_lib_scheme \<Rightarrow> dns_result go \<Rightarrow> event list \<Rightarrow> bool" where
  "replies L res tr \<longleftrightarrow>
     (case res of
        Panic \<Rightarrow> written tr = []
      | Ret (rc, err) \<Rightarrow> err = None \<and>
          (if rc = RcodeSuccess then \<exists>m. written tr = [m] \<and> lWriteMsg L m = None else written tr = []))"

definition replies_once ::
  "('z, 'e, 'c, 'm) plugin_lib_scheme \<Rightarrow> ('z, 'c) plugin \<Rightarrow> dns_result go \<times> ('z, 'c) plugin \<Rightarrow> bool" where
  "replies_once L \<sigma> out \<longleftrightarrow> (\<exists>tr. wTrace (snd out) = wTrace \<sigma> @ tr \<and> replies L (fst out) tr)"

lemma replies_once_after:
  assumes "wTrace \<sigma>1 = wTrace \<sigma> @ tr" and "written tr = []" and "replies_once L \<sigma>1 out"
  shows "replies_once L \<sigma> out"
proof -
  obtain tr2 where "wTrace (snd out) = wTrace \<sigma>1 @ tr2" "replies L (fst out) tr2"
    using assms(3) by (auto simp: replies_once_def)
  then have "wTrace (snd out) = wTrace \<sigma> @ (tr @ tr2) \<and> replies L (fst out) (tr @ tr2)"
    using assms(1,2) by (auto simp: replies_def split: go.splits)
  then show ?thesis unfolding replies_once_def by blast
qed

lemma replies_once_emit:
  "written tr = [] \<Longrightarrow> wTrace \<sigma>1 = wTrace (emit tr \<sigma>) \<Longrightarrow> replies_once L \<sigma>1 out \<Longrightarrow> replies_once L \<sigma> out"
  by (rule replies_once_after) simp_all

lemma replies_once_fail:
  "rc \<noteq> RcodeSuccess \<Longrightarrow> wTrace \<sigma>1 = wTrace \<sigma> @ tr \<Longrightarrow> written tr = [] \<Longrightarrow>
   replies_once L \<sigma> (Ret (rc, None), \<sigma>1)"
  by (simp add: replies_once_def replies_def)

lemma codes_fail [simp]:
  "RcodeServerFailure \<noteq> RcodeSuccess" "RcodeRefused \<noteq> RcodeSuccess" "RcodeNotImplemented \<noteq> RcodeSuccess"
  "RcodeSuccess \<noteq> RcodeServerFailure" "RcodeSuccess \<noteq> RcodeRefused" "RcodeSuccess \<noteq> RcodeNotImplemented"
  by (simp_all add: rcode_defs)

lemma send_reply_once: "replies_once L \<sigma> (send_reply L zone r \<sigma>)"
  by (auto simp: send_reply_def replies_once_def replies_def Let_def split: option.splits)

lemma bump_loop_code:
  assumes "for_each (bump_soa L s) apex t = (Some rc, t')"
  shows "rc = RcodeServerFailure"
proof -
  obtain x s1 where "bump_soa L s x s1 = (Some rc, t')" using for_each_result [OF assms] by blast
  then show ?thesis by (auto simp: bump_soa_def Let_def split: prod.splits option.splits)
qed

lemma publish_once: "replies_once L \<sigma> (publish L s zone r \<sigma>)"
proof (cases "Merge L zone \<sigma>")
  case (Pair mz \<sigma>1)
  have tr: "wTrace \<sigma>1 = wTrace \<sigma> @ (if mz = None then [] else merge_locks zone)"
    using Merge_pair [OF Pair] by simp
  show ?thesis
  proof (cases mz)
    case None
    then show ?thesis using Pair tr by (simp add: publish_def replies_once_def replies_def)
  next
    case (Some z)
    have step: "replies_once L \<sigma> (send_reply L zone r (\<sigma>1\<lparr>wSerials := h\<rparr>))" for h
      by (rule replies_once_emit [of "merge_locks zone", OF _ _ send_reply_once]) (simp_all add: tr Some)
    show ?thesis
      using Pair Some tr step
      by (auto simp: publish_def intro!: replies_once_fail dest!: bump_loop_code
        split: sum.splits prod.splits option.splits)
  qed
qed

lemma commit_body_once: "replies_once L \<sigma> (commit_body L s zone dz r \<sigma>)"
proof -
  have "replies_once L \<sigma> (publish L s zone r (emit [EPersisted z] (\<sigma>\<lparr>wCluster := c\<rparr>)))" for z c
    by (rule replies_once_emit [of "[EPersisted z]", OF _ _ publish_once]) simp_all
  then show ?thesis
    by (auto simp: commit_body_def Let_def intro: replies_once_fail split: option.splits prod.splits)
qed

lemma commit_once: "replies_once L \<sigma> (commit L s zone dz r \<sigma>)"
proof -
  have "replies_once L \<sigma> (commit_body L s zone dz r (emit [ERLock (LDyn zone)] \<sigma>))"
    by (rule replies_once_emit [of "[ERLock (LDyn zone)]", OF _ _ commit_body_once]) simp_all
  then obtain tr where "wTrace (snd (commit_body L s zone dz r (emit [ERLock (LDyn zone)] \<sigma>))) = wTrace \<sigma> @ tr"
    "replies L (fst (commit_body L s zone dz r (emit [ERLock (LDyn zone)] \<sigma>))) tr"
    by (auto simp: replies_once_def)
  then have "wTrace (snd (commit L s zone dz r \<sigma>)) = wTrace \<sigma> @ (tr @ [ERUnlock (LDyn zone)]) \<and>
      replies L (fst (commit L s zone dz r \<sigma>)) (tr @ [ERUnlock (LDyn zone)])"
    by (auto simp: commit_eq replies_def split: go.splits)
  then show ?thesis unfolding replies_once_def by blast
qed

lemma serve_update_once: "replies_once L \<sigma> (serve_update L now zone dz r \<sigma>)"
proof (cases "apply_updates L zone r dz")
  case (fields res dz' tr)
  note tr = apply_updates_trace [OF fields]
  show ?thesis
  proof (cases res)
    case None
    have "replies_once L \<sigma> (commit L (serial_of_ms now) zone dz' r
        (emit (ELock (LDyn zone) # tr @ [EUnlock (LDyn zone)]) (store_dynamic zone dz' \<sigma>)))"
      by (rule replies_once_emit [of "[ELock (LDyn zone), EUnlock (LDyn zone)]", OF _ _ commit_once])
        (simp_all add: tr None)
    then show ?thesis using fields None by (simp add: serve_update_def Let_def)
  next
    case (Some rc)
    then have "rc \<noteq> RcodeSuccess" using apply_updates_code [of L zone r dz rc "(dz', tr)"] fields by auto
    then show ?thesis
      using fields Some tr by (simp add: serve_update_def Let_def replies_once_fail)
  qed
qed

lemma serve_query_once: "replies_once L \<sigma> (serve_query L zone qname r \<sigma>)"
proof (cases "\<exists>z dz. static_at (dZones \<sigma>) zone = Some z \<and> dynamic_at (dZones \<sigma>) zone = Some dz")
  case True
  then obtain z dz where z: "static_at (dZones \<sigma>) zone = Some z" "dynamic_at (dZones \<sigma>) zone = Some dz"
    by blast
  show ?thesis
    by (rule serve_query_outcome [OF z, of L qname r])
      (simp_all add: replies_once_def replies_def)
next
  case False
  then have "static_at (dZones \<sigma>) zone = None \<or> dynamic_at (dZones \<sigma>) zone = None"
    by (cases "static_at (dZones \<sigma>) zone"; cases "dynamic_at (dZones \<sigma>) zone") auto
  from serve_query_unknown [OF this, of L qname r] show ?thesis
    by (simp add: replies_once_def replies_def)
qed

subsection \<open>The handler as a whole\<close>

text \<open>
  The branches of the handler.  Under the invariant of the table, and with the documented
  behaviour of the matching of names, the zone that matches is always in the table.
\<close>

lemma ServeDNS_cases:
  assumes "match_laws L" and "plugin_ok origin \<sigma>"
  obtains (no_zone) "lMatches L (Names (dZones \<sigma>)) (lReqName L r) = []"
      "ServeDNS L now r \<sigma> = (Ret (lNext L r), \<sigma>)"
  | (transfer) zone where "zone \<in> set (Names (dZones \<sigma>))"
      "ServeDNS L now r \<sigma> = (Ret (RcodeRefused, None), \<sigma>)"
  | (notify) zone where "zone \<in> set (Names (dZones \<sigma>))" "Opcode r = OpcodeNotify"
      "ServeDNS L now r \<sigma> = (Ret (RcodeSuccess, None), \<sigma>)"
  | (update) zone dz where "zone = lMatches L (Names (dZones \<sigma>)) (lReqName L r)"
      "zone \<in> set (Names (dZones \<sigma>))" "dynamic_at (dZones \<sigma>) zone = Some dz"
      "Opcode r = OpcodeUpdate"
      "ServeDNS L now r \<sigma> = serve_update L now zone dz r \<sigma>"
  | (query) zone z dz where "zone = lMatches L (Names (dZones \<sigma>)) (lReqName L r)"
      "zone \<in> set (Names (dZones \<sigma>))" "static_at (dZones \<sigma>) zone = Some z"
      "dynamic_at (dZones \<sigma>) zone = Some dz" "origin z = zone" "origin dz = zone"
      "ServeDNS L now r \<sigma> = serve_query L zone (lReqName L r) r \<sigma>"
proof (cases "lMatches L (Names (dZones \<sigma>)) (lReqName L r) = []")
  case True
  then show ?thesis using no_zone by (simp add: ServeDNS_def)
next
  case False
  define zone where "zone = lMatches L (Names (dZones \<sigma>)) (lReqName L r)"
  have known: "zone \<in> set (Names (dZones \<sigma>))"
    using matches_name [OF assms(1) zone_def [symmetric]] False zone_def by simp
  obtain z dz where z: "static_at (dZones \<sigma>) zone = Some z" "dynamic_at (dZones \<sigma>) zone = Some dz"
    "origin z = zone" "origin dz = zone"
    using Merge_known [OF assms(2) known] by blast
  have S: "ServeDNS L now r \<sigma> =
      (if lReqQType L r = TypeAXFR \<or> lReqQType L r = TypeIXFR then (Ret (RcodeRefused, None), \<sigma>)
       else if Opcode r = OpcodeNotify then (Ret (RcodeSuccess, None), \<sigma>)
       else if Opcode r = OpcodeUpdate then serve_update L now zone dz r \<sigma>
       else serve_query L zone (lReqName L r) r \<sigma>)"
    using False z(2) by (simp add: ServeDNS_def Let_def zone_def)
  show ?thesis
    using S transfer [OF known] notify [OF known] update [OF zone_def known z(2)]
      query [OF zone_def known z] by (simp split: if_splits)
qed

lemma plugin_ok_cong: "dZones \<sigma>' = dZones \<sigma> \<Longrightarrow> plugin_ok origin \<sigma>' = plugin_ok origin \<sigma>"
  by (simp add: plugin_ok_def)

lemma serve_query_lock_clean:
  assumes "static_at (dZones \<sigma>) zone = Some z" and "dynamic_at (dZones \<sigma>) zone = Some dz"
  shows "lock_clean \<sigma> (snd (serve_query L zone qname r \<sigma>))"
proof -
  have merge: "balanced (merge_locks zone)"
    unfolding balanced_def by (rule merge_locks_under) simp_all
  have read: "balanced (merge_locks zone @ [ERLock LMerged, ERUnlock LMerged])"
    by (rule balanced_append [OF merge balanced_read])
  have "balanced ((merge_locks zone @ [ERLock LMerged, ERUnlock LMerged]) @ [EWrite m])" for m
    by (rule balanced_append [OF read]) simp
  then have "balanced (merge_locks zone @ [ERLock LMerged, ERUnlock LMerged, EWrite m])" for m
    by simp
  with read show ?thesis
    by (cases rule: serve_query_outcome [OF assms, of L qname r]) (simp_all add: lock_clean_emit)
qed

text \<open>What every request keeps, and what it never does.\<close>

lemma ServeDNS_safe:
  assumes laws: "file_laws L origin norm intree" and "match_laws L" and ok: "plugin_ok origin \<sigma>"
  shows "fst (ServeDNS L now r \<sigma>) \<noteq> Panic"
    and "plugin_ok origin (snd (ServeDNS L now r \<sigma>))"
    and "lock_clean \<sigma> (snd (ServeDNS L now r \<sigma>))"
    and "Names (dZones (snd (ServeDNS L now r \<sigma>))) = Names (dZones \<sigma>)"
    and "static_at (dZones (snd (ServeDNS L now r \<sigma>))) k = static_at (dZones \<sigma>) k"
proof -
  show "fst (ServeDNS L now r \<sigma>) \<noteq> Panic"
  proof (cases rule: ServeDNS_cases [OF assms(2) ok, of r now])
    case (4 zone dz)
    then show ?thesis using serve_update_ok(2) [OF laws ok] by simp
  next
    case (5 zone z dz)
    show ?thesis
      by (rule serve_query_outcome [OF 5(3,4), of L "lReqName L r" r]) (simp_all add: 5)
  qed simp_all
  show "plugin_ok origin (snd (ServeDNS L now r \<sigma>))"
  proof (cases rule: ServeDNS_cases [OF assms(2) ok, of r now])
    case (4 zone dz)
    then show ?thesis using serve_update_ok(1) [OF laws ok] by simp
  qed (simp_all add: ok plugin_ok_cong [OF serve_query_frame(1)])
  show "lock_clean \<sigma> (snd (ServeDNS L now r \<sigma>))"
  proof (cases rule: ServeDNS_cases [OF assms(2) ok, of r now])
    case (5 zone z dz)
    then show ?thesis using serve_query_lock_clean by simp
  qed (simp_all add: serve_update_lock_clean)
  show "Names (dZones (snd (ServeDNS L now r \<sigma>))) = Names (dZones \<sigma>)"
  proof (cases rule: ServeDNS_cases [OF assms(2) ok, of r now])
    case (4 zone dz)
    then show ?thesis using serve_update_ok(3) [OF laws ok] by simp
  qed simp_all
  show "static_at (dZones (snd (ServeDNS L now r \<sigma>))) k = static_at (dZones \<sigma>) k"
  proof (cases rule: ServeDNS_cases [OF assms(2) ok, of r now])
    case (4 zone dz)
    then show ?thesis using serve_update_ok(5) [OF laws ok] by simp
  qed simp_all
qed

subsection \<open>What a success answer to an update means\<close>

lemma publish_succeeded:
  assumes "file_laws L origin norm intree" and "plugin_ok origin \<sigma>"
    and "zone \<in> set (Names (dZones \<sigma>))" and "static_at (dZones \<sigma>) zone = Some z"
    and "fst (publish L s zone r \<sigma>) = Ret (RcodeSuccess, None)"
  shows "wSerials (snd (publish L s zone r \<sigma>)) = set_serials (apex_soas L z) s (wSerials \<sigma>)"
proof (cases "lApex L z")
  case (Inl e)
  then show ?thesis using publish_known [OF assms(1-3), of s r] assms(4,5) by auto
next
  case (Inr rs)
  then show ?thesis using publish_known [OF assms(1-3), of s r] assms(4) by auto
qed

lemma serve_update_succeeded:
  assumes laws: "file_laws L origin norm intree" and ok: "plugin_ok origin \<sigma>"
    and dz: "dynamic_at (dZones \<sigma>) zone = Some dz" and z: "static_at (dZones \<sigma>) zone = Some z"
    and S: "serve_update L now zone dz r \<sigma> = (Ret (RcodeSuccess, None), \<sigma>')"
  shows "\<exists>dz' obj. apply_updates L zone r dz = (None, (dz', [])) \<and>
    dZones \<sigma>' = set_dynamic zone dz' (dZones \<sigma>) \<and>
    find_zone L (wCluster \<sigma>) (trim_dot zone) (dNamespaces \<sigma>) = Some obj \<and>
    kStatusUpdate L (wCluster \<sigma>) (new_status L (wSerials \<sigma>) dz' (serial_of_ms now) obj) =
      (None, wCluster \<sigma>') \<and>
    wSerials \<sigma>' = set_serials (apex_soas L z) (serial_of_ms now) (wSerials \<sigma>)"
proof -
  have known: "zone \<in> set (Names (dZones \<sigma>))" and ori: "origin dz = zone"
    using known_pointers(2,4) [of origin "dZones \<sigma>" zone] ok dz by (auto simp: plugin_ok_def)
  obtain res dz' tr where a: "apply_updates L zone r dz = (res, (dz', tr))"
    by (metis prod.exhaust)
  have res: "res = None"
  proof (cases res)
    case (Some rc)
    then have "rc = RcodeSuccess" using S a by (simp add: serve_update_def Let_def)
    then show ?thesis using apply_updates_code [of L zone r dz rc "(dz', tr)"] a Some by auto
  qed simp
  then have tr: "tr = []" using apply_updates_trace [OF a] by simp
  let ?s = "emit [ELock (LDyn zone), EUnlock (LDyn zone)] (store_dynamic zone dz' \<sigma>)"
  let ?s1 = "emit [ERLock (LDyn zone)] ?s"
  have C: "fst (commit_body L (serial_of_ms now) zone dz' r ?s1) = Ret (RcodeSuccess, None)"
    "\<sigma>' = emit [ERUnlock (LDyn zone)] (snd (commit_body L (serial_of_ms now) zone dz' r ?s1))"
    using S a res tr by (simp_all add: serve_update_def Let_def commit_eq)
  obtain obj where obj: "find_zone L (wCluster \<sigma>) (trim_dot zone) (dNamespaces \<sigma>) = Some obj"
    using C(1) by (cases "find_zone L (wCluster \<sigma>) (trim_dot zone) (dNamespaces \<sigma>)")
      (simp_all add: commit_body_def)
  define obj' where "obj' = new_status L (wSerials \<sigma>) dz' (serial_of_ms now) obj"
  obtain c where c: "kStatusUpdate L (wCluster \<sigma>) obj' = (None, c)"
    using C(1) obj obj'_def
    by (cases "kStatusUpdate L (wCluster \<sigma>) obj'"; cases "fst (kStatusUpdate L (wCluster \<sigma>) obj')")
      (simp_all add: commit_body_def)
  let ?s2 = "emit [EPersisted obj'] (?s1\<lparr>wCluster := c\<rparr>)"
  have body: "commit_body L (serial_of_ms now) zone dz' r ?s1 = publish L (serial_of_ms now) zone r ?s2"
    using obj c obj'_def by (simp add: commit_body_def)
  have "origin dz' = zone" using apply_updates_origin [OF laws, of zone r dz] a ori by simp
  from zones_ok_set_dynamic(1) [OF ok [unfolded plugin_ok_def] known this]
  have "plugin_ok origin ?s2" by (simp add: plugin_ok_def)
  from publish_succeeded [where zone = zone and z = z and s = "serial_of_ms now" and r = r, OF laws this]
  have "wSerials (snd (publish L (serial_of_ms now) zone r ?s2)) =
      set_serials (apex_soas L z) (serial_of_ms now) (wSerials \<sigma>)"
    using known z C(1) body by simp
  then have "wSerials \<sigma>' = set_serials (apex_soas L z) (serial_of_ms now) (wSerials \<sigma>)"
    using C(2) body by simp
  moreover have "wCluster \<sigma>' = c" "dZones \<sigma>' = set_dynamic zone dz' (dZones \<sigma>)"
    using C(2) body by simp_all
  ultimately show ?thesis using a res tr obj c obj'_def by auto
qed

text \<open>A request that the handler treats as an update of a zone.\<close>

definition update_for :: "('z, 'e, 'm) dns_lib_scheme \<Rightarrow> ('z, 'c) plugin \<Rightarrow> msg \<Rightarrow> string \<Rightarrow> bool" where
  "update_for L \<sigma> r zone \<longleftrightarrow>
     zone = lMatches L (Names (dZones \<sigma>)) (lReqName L r) \<and> zone \<noteq> [] \<and>
     lReqQType L r \<noteq> TypeAXFR \<and> lReqQType L r \<noteq> TypeIXFR \<and> Opcode r = OpcodeUpdate"

lemma ServeDNS_update:
  assumes "update_for L \<sigma> r zone" and "dynamic_at (dZones \<sigma>) zone = Some dz"
  shows "ServeDNS L now r \<sigma> = serve_update L now zone dz r \<sigma>"
  using assms by (auto simp: update_for_def ServeDNS_def Let_def opcode_defs)

definition query_for :: "('z, 'e, 'm) dns_lib_scheme \<Rightarrow> ('z, 'c) plugin \<Rightarrow> msg \<Rightarrow> string \<Rightarrow> bool" where
  "query_for L \<sigma> r zone \<longleftrightarrow>
     zone = lMatches L (Names (dZones \<sigma>)) (lReqName L r) \<and> zone \<noteq> [] \<and>
     lReqQType L r \<noteq> TypeAXFR \<and> lReqQType L r \<noteq> TypeIXFR \<and>
     Opcode r \<noteq> OpcodeUpdate \<and> Opcode r \<noteq> OpcodeNotify"

lemma ServeDNS_query:
  assumes "query_for L \<sigma> r zone" and "dynamic_at (dZones \<sigma>) zone = Some dz"
  shows "ServeDNS L now r \<sigma> = serve_query L zone (lReqName L r) r \<sigma>"
  using assms by (auto simp: query_for_def ServeDNS_def Let_def)

lemma ServeDNS_once:
  assumes "match_laws L" and "plugin_ok origin \<sigma>"
    and "lMatches L (Names (dZones \<sigma>)) (lReqName L r) \<noteq> []" and "Opcode r \<noteq> OpcodeNotify"
  shows "replies_once L \<sigma> (ServeDNS L now r \<sigma>)"
proof (cases rule: ServeDNS_cases [OF assms(1,2), of r now])
  case (2 zone)
  then show ?thesis by (simp add: replies_once_fail)
next
  case (4 zone dz)
  then show ?thesis by (simp add: serve_update_once)
next
  case (5 zone z dz)
  then show ?thesis by (simp add: serve_query_once)
qed (use assms in simp_all)

subsection \<open>The serials an update writes\<close>

lemma set_serials_dom: "set ps \<subseteq> dom h \<Longrightarrow> dom (set_serials ps s h) = dom h"
  by (auto simp: set_serials_def split: if_splits)

lemma set_serials_other: "p \<notin> set ps \<Longrightarrow> set_serials ps s h p = h p"
  by (simp add: set_serials_def)

lemma send_reply_serials: "wSerials (snd (send_reply L zone r \<sigma>)) = wSerials \<sigma>"
  by simp

lemma publish_serials:
  assumes "file_laws L origin norm intree" and "plugin_ok origin \<sigma>"
    and "zone \<in> set (Names (dZones \<sigma>))" and "static_at (dZones \<sigma>) zone = Some z"
  shows "\<exists>ps. set ps \<subseteq> set (apex_soas L z) \<and>
    wSerials (snd (publish L s zone r \<sigma>)) = set_serials ps s (wSerials \<sigma>)"
proof (cases "lApex L z")
  case (Inl e)
  then show ?thesis
    using publish_known [OF assms(1-3), of s r] assms(4) by (auto intro!: exI [of _ "[]"])
next
  case (Inr rs)
  then show ?thesis
    using publish_known [OF assms(1-3), of s r] assms(4) by (auto intro!: exI [of _ "apex_soas L z"])
qed

lemma commit_serials:
  assumes laws: "file_laws L origin norm intree" and ok: "plugin_ok origin \<sigma>"
    and known: "zone \<in> set (Names (dZones \<sigma>))" and z: "static_at (dZones \<sigma>) zone = Some z"
  shows "\<exists>ps. set ps \<subseteq> set (apex_soas L z) \<and>
    wSerials (snd (commit L s zone dz r \<sigma>)) = set_serials ps s (wSerials \<sigma>)"
proof -
  have pub: "\<exists>ps. set ps \<subseteq> set (apex_soas L z) \<and>
      wSerials (snd (publish L s zone r (emit es ((emit ds \<sigma>)\<lparr>wCluster := c\<rparr>)))) =
        set_serials ps s (wSerials \<sigma>)" for es ds c
  proof -
    have "plugin_ok origin (emit es ((emit ds \<sigma>)\<lparr>wCluster := c\<rparr>))"
      using ok by (simp add: plugin_ok_def)
    from publish_serials [where zone = zone and z = z and s = s and r = r, OF laws this] known z show ?thesis by simp
  qed
  have "\<exists>ps. set ps \<subseteq> set (apex_soas L z) \<and> wSerials \<sigma> = set_serials ps s (wSerials \<sigma>)"
    by (auto intro!: exI [of _ "[]"])
  with pub show ?thesis
    by (simp add: commit_eq commit_body_def Let_def split: option.splits prod.splits)
qed

lemma serve_update_serials:
  assumes laws: "file_laws L origin norm intree" and ok: "plugin_ok origin \<sigma>"
    and dz: "dynamic_at (dZones \<sigma>) zone = Some dz"
  shows "\<exists>z ps. static_at (dZones \<sigma>) zone = Some z \<and> set ps \<subseteq> set (apex_soas L z) \<and>
    wSerials (snd (serve_update L now zone dz r \<sigma>)) = set_serials ps (serial_of_ms now) (wSerials \<sigma>)"
proof -
  have known: "zone \<in> set (Names (dZones \<sigma>))" and ori: "origin dz = zone"
    using known_pointers(2,4) [of origin "dZones \<sigma>" zone] ok dz by (auto simp: plugin_ok_def)
  obtain z where z: "static_at (dZones \<sigma>) zone = Some z"
    using Merge_known [OF ok known] by blast
  obtain res dz' tr where a: "apply_updates L zone r dz = (res, (dz', tr))"
    by (metis prod.exhaust)
  have "origin dz' = zone" using apply_updates_origin [OF laws, of zone r dz] a ori by simp
  from zones_ok_set_dynamic(1) [OF ok [unfolded plugin_ok_def] known this]
  have ok': "plugin_ok origin (emit es (store_dynamic zone dz' \<sigma>))" for es
    by (simp add: plugin_ok_def)
  show ?thesis
  proof (cases res)
    case None
    then show ?thesis
      using a z commit_serials [where zone = zone and z = z, OF laws ok'] known by (simp add: serve_update_def Let_def)
  next
    case (Some rc)
    then show ?thesis using a z by (auto simp: serve_update_def Let_def intro!: exI [of _ "[]"])
  qed
qed

text \<open>A request writes no serial but that of the zone it updates, and there its own.\<close>

lemma ServeDNS_serials:
  assumes laws: "file_laws L origin norm intree" and "match_laws L" and ok: "plugin_ok origin \<sigma>"
    and change: "wSerials (snd (ServeDNS L now r \<sigma>)) p \<noteq> wSerials \<sigma> p"
  shows "Opcode r = OpcodeUpdate \<and> wSerials (snd (ServeDNS L now r \<sigma>)) p = Some (serial_of_ms now) \<and>
    (\<exists>z. static_at (dZones \<sigma>) (lMatches L (Names (dZones \<sigma>)) (lReqName L r)) = Some z \<and> p \<in> set (apex_soas L z))"
proof (cases rule: ServeDNS_cases [OF assms(2) ok, of r now])
  case (4 zone dz)
  obtain z ps where z: "static_at (dZones \<sigma>) zone = Some z" "set ps \<subseteq> set (apex_soas L z)"
    "wSerials (snd (serve_update L now zone dz r \<sigma>)) = set_serials ps (serial_of_ms now) (wSerials \<sigma>)"
    using serve_update_serials [OF laws ok 4(3)] by blast
  then have "p \<in> set ps" using change 4(5) set_serials_other by fastforce
  with z 4 show ?thesis by (auto simp: set_serials_def)
next
  case (5 zone z dz)
  then show ?thesis using change by simp
qed (use change in simp_all)

subsection \<open>Properties\<close>

text \<open>
  C9: no request panics while the table of zones is in order; the request keeps the table in
  order, changes neither the list of names nor which static zone a name has, and gives back every
  lock it takes.  The only part of a static zone that a request may change is the serial in an SOA
  at its apex, in place: only an update does it, only in the zone the request is for, and the serial
  is then that of the update.
\<close>

theorem requests_are_safe:
  assumes "file_laws L origin norm intree" and "match_laws L" and "plugin_ok origin \<sigma>"
  shows "fst (ServeDNS L now r \<sigma>) \<noteq> Panic \<and> plugin_ok origin (snd (ServeDNS L now r \<sigma>)) \<and>
    Names (dZones (snd (ServeDNS L now r \<sigma>))) = Names (dZones \<sigma>) \<and>
    static_at (dZones (snd (ServeDNS L now r \<sigma>))) k = static_at (dZones \<sigma>) k \<and>
    lock_clean \<sigma> (snd (ServeDNS L now r \<sigma>)) \<and>
    (wSerials (snd (ServeDNS L now r \<sigma>)) p \<noteq> wSerials \<sigma> p \<longrightarrow>
       Opcode r = OpcodeUpdate \<and> wSerials (snd (ServeDNS L now r \<sigma>)) p = Some (serial_of_ms now) \<and>
       (\<exists>z. static_at (dZones \<sigma>) (lMatches L (Names (dZones \<sigma>)) (lReqName L r)) = Some z \<and>
          p \<in> set (apex_soas L z)))"
  using ServeDNS_safe(1-4) [OF assms, of now r] ServeDNS_safe(5) [OF assms, of now r k]
    ServeDNS_serials [OF assms, of now r p] by blast

text \<open>What a success answer to an update says of the dynamic zone and of the cluster.\<close>

lemma update_stored:
  assumes "file_laws L origin norm intree" and "plugin_ok origin \<sigma>" and "update_for L \<sigma> r zone"
    and "accepts L r"
    and "dynamic_at (dZones \<sigma>) zone = Some dz" and "static_at (dZones \<sigma>) zone = Some z"
    and "ServeDNS L now r \<sigma> = (Ret (RcodeSuccess, None), \<sigma>')"
  obtains dz' obj obj' where "dynamic_at (dZones \<sigma>') zone = Some dz'"
    and "set (records L dz') = updates_spec (lIsDomainName L) norm (Ns r) (set (records L dz))"
    and "find_zone L (wCluster \<sigma>) (trim_dot zone) (dNamespaces \<sigma>) = Some obj"
    and "kStatusUpdate L (wCluster \<sigma>) obj' = (None, wCluster \<sigma>')"
    and "zMeta obj' = zMeta obj" and "zSpec obj' = zSpec obj"
    and "DynamicRRs (zStatus obj') = map (\<lambda>rr. \<lparr>RR = lRRString L (wSerials \<sigma>) rr\<rparr>) (records L dz')"
    and "Serial (zStatus obj') = serial_of_ms now"
    and "\<forall>p \<in> set (apex_soas L z). wSerials \<sigma>' p = Some (serial_of_ms now)"
proof -
  have S: "serve_update L now zone dz r \<sigma> = (Ret (RcodeSuccess, None), \<sigma>')"
    using ServeDNS_update [OF assms(3,5)] assms(7) by simp
  obtain dz' obj where 1: "apply_updates L zone r dz = (None, (dz', []))"
    "dZones \<sigma>' = set_dynamic zone dz' (dZones \<sigma>)"
    "find_zone L (wCluster \<sigma>) (trim_dot zone) (dNamespaces \<sigma>) = Some obj"
    "kStatusUpdate L (wCluster \<sigma>) (new_status L (wSerials \<sigma>) dz' (serial_of_ms now) obj) =
      (None, wCluster \<sigma>')"
    "wSerials \<sigma>' = set_serials (apex_soas L z) (serial_of_ms now) (wSerials \<sigma>)"
    using serve_update_succeeded [OF assms(1,2,5,6) S] by blast
  have rec: "set (records L dz') = updates_spec (lIsDomainName L) norm (Ns r) (set (records L dz))"
    and ori': "origin dz' = origin dz"
    using apply_updates_accepts [OF assms(1,4), of zone dz] 1(1) by auto
  have known: "zone \<in> set (Names (dZones \<sigma>))" and ori: "origin dz = zone"
    using known_pointers(2,4) [of origin "dZones \<sigma>" zone] assms(2,5) by (auto simp: plugin_ok_def)
  have dyn: "dynamic_at (dZones \<sigma>') zone = Some dz'"
    using zones_ok_set_dynamic(2) [OF assms(2) [unfolded plugin_ok_def] known, of dz'] ori ori' 1(2) by simp
  let ?o = "new_status L (wSerials \<sigma>) dz' (serial_of_ms now) obj"
  have "zMeta ?o = zMeta obj" "zSpec ?o = zSpec obj" "Serial (zStatus ?o) = serial_of_ms now"
      "DynamicRRs (zStatus ?o) = map (\<lambda>rr. \<lparr>RR = lRRString L (wSerials \<sigma>) rr\<rparr>) (records L dz')"
    by (simp_all add: new_status_def dynamic_texts_def records_def map_concat comp_def)
  moreover have "\<forall>p \<in> set (apex_soas L z). wSerials \<sigma>' p = Some (serial_of_ms now)"
    using 1(5) by (simp add: set_serials_def)
  ultimately show thesis using that dyn rec 1(3,4) by blast
qed

text \<open>
  C1: a success answer to an update means that the update is stored and served.  The cluster
  has accepted, for the object of the zone, a status with the texts of exactly the records
  now in the dynamic zone and with the serial of the request; the static zone's SOA structs
  carry that same serial; and these records are the abstract update of the old ones.
\<close>

theorem success_means_stored:
  assumes "file_laws L origin norm intree" and "plugin_ok origin \<sigma>" and "update_for L \<sigma> r zone"
    and "accepts L r"
    and "dynamic_at (dZones \<sigma>) zone = Some dz" and "static_at (dZones \<sigma>) zone = Some z"
    and "ServeDNS L now r \<sigma> = (Ret (RcodeSuccess, None), \<sigma>')"
  shows "\<exists>dz' obj obj'. dynamic_at (dZones \<sigma>') zone = Some dz' \<and>
    set (records L dz') = updates_spec (lIsDomainName L) norm (Ns r) (set (records L dz)) \<and>
    find_zone L (wCluster \<sigma>) (trim_dot zone) (dNamespaces \<sigma>) = Some obj \<and>
    kStatusUpdate L (wCluster \<sigma>) obj' = (None, wCluster \<sigma>') \<and>
    zMeta obj' = zMeta obj \<and> zSpec obj' = zSpec obj \<and>
    DynamicRRs (zStatus obj') = map (\<lambda>rr. \<lparr>RR = lRRString L (wSerials \<sigma>) rr\<rparr>) (records L dz') \<and>
    Serial (zStatus obj') = serial_of_ms now \<and>
    (\<forall>p \<in> set (apex_soas L z). wSerials \<sigma>' p = Some (Serial (zStatus obj')))"
  by (rule update_stored [OF assms]) auto

text \<open>
  C8: an update whose preconditions hold succeeds, with its effects in this order: the
  records change under the write lock, the status goes to the cluster, then the merge, then
  the notify, then the reply, then the read lock is released.
\<close>

theorem update_succeeds:
  assumes "file_laws L origin norm intree" and "plugin_ok origin \<sigma>" and "update_for L \<sigma> r zone"
    and "accepts L r"
    and "dynamic_at (dZones \<sigma>) zone = Some dz" and "static_at (dZones \<sigma>) zone = Some z"
    and "lApex L z = Inr apex"
    and "find_zone L (wCluster \<sigma>) (trim_dot zone) (dNamespaces \<sigma>) = Some obj"
    and "lWriteMsg L (update_reply L r) = None"
    and "\<And>st. \<exists>c. kStatusUpdate L (wCluster \<sigma>) (obj\<lparr>zStatus := st\<rparr>) = (None, c)"
  shows "\<exists>\<sigma>' st. ServeDNS L now r \<sigma> = (Ret (RcodeSuccess, None), \<sigma>') \<and>
    wTrace \<sigma>' = wTrace \<sigma> @ [ELock (LDyn zone), EUnlock (LDyn zone), ERLock (LDyn zone),
      EPersisted (obj\<lparr>zStatus := st\<rparr>)] @ merge_locks zone @ notify_events zone \<sigma> @
      [EWrite (update_reply L r), ERUnlock (LDyn zone)]"
proof -
  obtain dz' where dz': "\<forall>obj' c'. obj' = new_status L (wSerials \<sigma>) dz' (serial_of_ms now) obj \<longrightarrow>
      kStatusUpdate L (wCluster \<sigma>) obj' = (None, c') \<longrightarrow>
      serve_update L now zone dz r \<sigma> =
        (Ret (RcodeSuccess, None),
         \<sigma>\<lparr>dZones := set_dynamic zone dz' (dZones \<sigma>),
           wSerials := set_serials (soas_of apex) (serial_of_ms now) (wSerials \<sigma>),
           wCluster := c',
           wTrace := wTrace \<sigma> @ [ELock (LDyn zone), EUnlock (LDyn zone), ERLock (LDyn zone),
             EPersisted obj'] @ merge_locks zone @ notify_events zone \<sigma> @
             [EWrite (update_reply L r), ERUnlock (LDyn zone)]\<rparr>)"
    using serve_update_success [OF assms(1,2,4-9)] by blast
  define st where "st = (zStatus obj)\<lparr>DynamicRRs := dynamic_texts L (wSerials \<sigma>) dz', Serial := serial_of_ms now\<rparr>"
  have new: "obj\<lparr>zStatus := st\<rparr> = new_status L (wSerials \<sigma>) dz' (serial_of_ms now) obj"
    by (simp add: st_def new_status_def)
  obtain c where "kStatusUpdate L (wCluster \<sigma>) (obj\<lparr>zStatus := st\<rparr>) = (None, c)"
    using assms(10) by blast
  from dz' [rule_format, OF new this] ServeDNS_update [OF assms(3,5)] show ?thesis
    by (intro exI [of _ "snd (ServeDNS L now r \<sigma>)"] exI [of _ st]) simp
qed

lemma ex_update_for: "update_for sample ex_plugin (ex_msg OpcodeUpdate rrs) ''a.org.''"
  by (simp add: update_for_def s_matches_def ex_msg_def type_defs)

theorem requests_are_safe_witness:
  "fst (ServeDNS sample 5 (ex_msg OpcodeUpdate [ex_txt ClassINET]) ex_plugin) \<noteq> Panic \<and>
   plugin_ok szOrigin (snd (ServeDNS sample 5 (ex_msg OpcodeUpdate [ex_txt ClassINET]) ex_plugin)) \<and>
   wSerials (snd (ServeDNS sample 5 (ex_msg OpcodeUpdate [ex_txt ClassINET]) ex_plugin)) 1 = wSerials ex_plugin 1"
proof -
  have "1 \<notin> set (apex_soas sample ex_zone)" by (simp add: apex_soas_def s_apex_def ex_zone_def)
  then show ?thesis
    using requests_are_safe [OF sample_file_laws sample_match_laws ex_plugin_ok,
        of 5 "ex_msg OpcodeUpdate [ex_txt ClassINET]" "''a.org.''" 1] ex_update_for [of "[ex_txt ClassINET]"]
    by (auto simp: update_for_def)
qed


lemma ex_accepts: "accepts sample (ex_msg OpcodeUpdate [ex_txt ClassINET])"
  by (simp add: accepts_def ex_defs typed_rr_def verdict_def allowed_type_def)

lemma ex_find: "find_zone sample (wCluster ex_plugin) (trim_dot ''a.org.'') (dNamespaces ex_plugin) = Some ex_obj"
  by (simp add: trim_dot_def ex_get)

lemma ex_stores: "\<exists>c. kStatusUpdate sample (wCluster ex_plugin) (ex_obj\<lparr>zStatus := st\<rparr>) = (None, c)"
  using ex_status_update [of "ex_obj\<lparr>zStatus := st\<rparr>"] by (simp add: same_object_def ex_obj_def ex_meta_def)

theorem update_succeeds_witness:
  "\<exists>\<sigma>'. ServeDNS sample 5 (ex_msg OpcodeUpdate [ex_txt ClassINET]) ex_plugin = (Ret (RcodeSuccess, None), \<sigma>') \<and>
     written (wTrace \<sigma>') = [update_reply sample (ex_msg OpcodeUpdate [ex_txt ClassINET])] \<and>
     notified (wTrace \<sigma>') = [''a.org.'']"
proof -
  have at: "dynamic_at (dZones ex_plugin) ''a.org.'' = Some ex_dyn"
    "static_at (dZones ex_plugin) ''a.org.'' = Some ex_zone" by simp_all
  have apex: "lApex sample ex_zone =
      Inr [RR_SOA \<lparr>hName = ''a.org.'', hRrtype = TypeSOA, hClass = ClassINET, hTtl = 3600\<rparr> 0]" by simp
  have wr: "lWriteMsg sample m = None" for m by simp
  from update_succeeds [OF sample_file_laws ex_plugin_ok ex_update_for ex_accepts at apex ex_find wr ex_stores, of 5]
  show ?thesis by (auto simp: notify_events_def)
qed

lemma ex_success:
  "\<exists>\<sigma>' dz'. ServeDNS sample 5 (ex_msg OpcodeUpdate [ex_txt ClassINET]) ex_plugin =
       (Ret (RcodeSuccess, None), \<sigma>') \<and>
     dynamic_at (dZones \<sigma>') ''a.org.'' = Some dz' \<and> set (records sample dz') = {ex_txt ClassINET}"
proof -
  let ?r = "ex_msg OpcodeUpdate [ex_txt ClassINET]"
  have at: "dynamic_at (dZones ex_plugin) ''a.org.'' = Some ex_dyn"
    "static_at (dZones ex_plugin) ''a.org.'' = Some ex_zone" by simp_all
  have apex: "lApex sample ex_zone =
      Inr [RR_SOA \<lparr>hName = ''a.org.'', hRrtype = TypeSOA, hClass = ClassINET, hTtl = 3600\<rparr> 0]" by simp
  have wr: "lWriteMsg sample m = None" for m by simp
  obtain dz' where dz': "set (records sample dz') =
      updates_spec (lIsDomainName sample) (\<lambda>r. r) (Ns ?r) (set (records sample ex_dyn))"
    "\<forall>obj' c'. obj' = new_status sample (wSerials ex_plugin) dz' (serial_of_ms 5) ex_obj \<longrightarrow>
      kStatusUpdate sample (wCluster ex_plugin) obj' = (None, c') \<longrightarrow>
      fst (serve_update sample 5 ''a.org.'' ex_dyn ?r ex_plugin) = Ret (RcodeSuccess, None) \<and>
      dZones (snd (serve_update sample 5 ''a.org.'' ex_dyn ?r ex_plugin)) = set_dynamic ''a.org.'' dz' ex_zones"
    using serve_update_success [OF sample_file_laws ex_plugin_ok ex_accepts at apex ex_find wr, of 5]
    by fastforce
  have "fst (serve_update sample 5 ''a.org.'' ex_dyn ?r ex_plugin) = Ret (RcodeSuccess, None) \<and>
      dZones (snd (serve_update sample 5 ''a.org.'' ex_dyn ?r ex_plugin)) = set_dynamic ''a.org.'' dz' ex_zones"
    using dz'(2) ex_stores unfolding new_status_def by blast
  then have "ServeDNS sample 5 ?r ex_plugin =
      (Ret (RcodeSuccess, None), snd (serve_update sample 5 ''a.org.'' ex_dyn ?r ex_plugin))"
    "dynamic_at (dZones (snd (serve_update sample 5 ''a.org.'' ex_dyn ?r ex_plugin))) ''a.org.'' = Some dz'"
    using ServeDNS_update [OF ex_update_for at(1), of 5]
    by (auto simp: set_dynamic_def ex_zones_def prod_eq_iff)
  with dz'(1) show ?thesis by (auto simp: ex_msg_def update_spec_def ex_txt_def)
qed

theorem success_means_stored_witness:
  "\<exists>\<sigma>' dz'. ServeDNS sample 5 (ex_msg OpcodeUpdate [ex_txt ClassINET]) ex_plugin =
       (Ret (RcodeSuccess, None), \<sigma>') \<and>
     dynamic_at (dZones \<sigma>') ''a.org.'' = Some dz' \<and> set (records sample dz') = {ex_txt ClassINET} \<and>
     wSerials \<sigma>' 0 = Some 5"
proof -
  have at: "dynamic_at (dZones ex_plugin) ''a.org.'' = Some ex_dyn"
    "static_at (dZones ex_plugin) ''a.org.'' = Some ex_zone" by simp_all
  obtain \<sigma>' where S: "ServeDNS sample 5 (ex_msg OpcodeUpdate [ex_txt ClassINET]) ex_plugin =
      (Ret (RcodeSuccess, None), \<sigma>')" using ex_success by blast
  have apexes: "apex_soas sample ex_zone = [0]" by (simp add: apex_soas_def)
  from success_means_stored [OF sample_file_laws ex_plugin_ok ex_update_for ex_accepts at S] S
  show ?thesis by (auto simp: apexes ex_msg_def update_spec_def ex_txt_def serial_of_ms_def)
qed

text \<open>What a query is answered with.\<close>

lemma served_by_merge:
  assumes "file_laws L origin norm intree" and "plugin_ok origin \<sigma>"
    and "dynamic_at (dZones \<sigma>) zone = Some dz" and "static_at (dZones \<sigma>) zone = Some z"
    and "\<not> lExpired L z"
  shows "\<exists>n. set (records L n) = set (records L z) \<union> set (records L dz) \<and> lApex L n = lApex L z \<and>
    origin n = zone \<and>
    (\<forall>now r answer ns extra result m. query_for L \<sigma> r zone \<longrightarrow>
      lLookup L n (wSerials \<sigma>) r (lReqName L r) = (answer, ns, extra, result) \<longrightarrow>
      query_reply L r answer ns extra result = Some m \<longrightarrow> lWriteMsg L m = None \<longrightarrow>
      ServeDNS L now r \<sigma> = (Ret (RcodeSuccess, None),
        emit (merge_locks zone @ [ERLock LMerged, ERUnlock LMerged, EWrite m]) \<sigma>))"
proof -
  have ori: "origin dz = origin z" and zn: "origin z = zone"
    using known_pointers(3,4) [of origin "dZones \<sigma>" zone] assms(2,3,4) by (auto simp: plugin_ok_def)
  note merged = merge_zones_contents [OF assms(1) ori]
  have "ServeDNS L now r \<sigma> = (Ret (RcodeSuccess, None),
      emit (merge_locks zone @ [ERLock LMerged, ERUnlock LMerged, EWrite m]) \<sigma>)"
    if "query_for L \<sigma> r zone"
      and "lLookup L (merge_zones L z dz) (wSerials \<sigma>) r (lReqName L r) = (answer, ns, extra, result)"
      and "query_reply L r answer ns extra result = Some m" and "lWriteMsg L m = None"
    for now r answer ns extra result m
    using ServeDNS_query [OF that(1) assms(3), of now] serve_query_known [OF assms(4,3), of L "lReqName L r" r]
      that(2-) assms(5)
    by (simp add: Let_def emit_emit merged)
  with merged zn show ?thesis
    by (intro exI [of _ "merge_zones L z dz"]) simp
qed

text \<open>
  C6: a query is answered from the merge of the two zones of the name: the lookup runs on a
  zone that has exactly the records of the static and of the dynamic zone and the apex of the
  static zone; what the lookup says is what is written, with the reply flags set for its
  outcome, and nothing of the plugin changes.
\<close>

theorem query_answers_from_merge:
  assumes "file_laws L origin norm intree" and "plugin_ok origin \<sigma>" and "query_for L \<sigma> r zone"
    and "dynamic_at (dZones \<sigma>) zone = Some dz" and "static_at (dZones \<sigma>) zone = Some z"
    and "\<not> lExpired L z"
  shows "\<exists>n. set (records L n) = set (records L z) \<union> set (records L dz) \<and> lApex L n = lApex L z \<and>
    origin n = zone \<and>
    (\<forall>answer ns extra result m.
      lLookup L n (wSerials \<sigma>) r (lReqName L r) = (answer, ns, extra, result) \<longrightarrow>
      query_reply L r answer ns extra result = Some m \<longrightarrow> lWriteMsg L m = None \<longrightarrow>
      ServeDNS L now r \<sigma> = (Ret (RcodeSuccess, None),
        emit (merge_locks zone @ [ERLock LMerged, ERUnlock LMerged, EWrite m]) \<sigma>))"
  using served_by_merge [OF assms(1,2,4,5,6)] assms(3) by blast

definition ex_query :: msg where
  "ex_query = \<lparr>mId = 2, Opcode = 0,
     Question = [\<lparr>qName = ''a.org.'', qType = TypeSOA, qClass = ClassINET\<rparr>], Ns = []\<rparr>"

theorem query_answers_from_merge_witness:
  "\<exists>m. fst (ServeDNS sample 5 ex_query ex_plugin) = Ret (RcodeSuccess, None) \<and>
     written (wTrace (snd (ServeDNS sample 5 ex_query ex_plugin))) = [m] \<and>
     rAnswer m = [RR_SOA \<lparr>hName = ''a.org.'', hRrtype = TypeSOA, hClass = ClassINET, hTtl = 3600\<rparr> 0]"
proof -
  have q: "query_for sample ex_plugin ex_query ''a.org.''"
    by (simp add: query_for_def s_matches_def ex_query_def type_defs opcode_defs)
  have at: "dynamic_at (dZones ex_plugin) ''a.org.'' = Some ex_dyn"
    "static_at (dZones ex_plugin) ''a.org.'' = Some ex_zone" by simp_all
  have live: "\<not> lExpired sample ex_zone" by (simp add: ex_zone_def)
  obtain n where n: "szOrigin n = ''a.org.''" "lApex sample n = lApex sample ex_zone"
    "\<forall>answer ns extra result m.
      lLookup sample n (wSerials ex_plugin) ex_query (lReqName sample ex_query) = (answer, ns, extra, result) \<longrightarrow>
      query_reply sample ex_query answer ns extra result = Some m \<longrightarrow> lWriteMsg sample m = None \<longrightarrow>
      ServeDNS sample 5 ex_query ex_plugin = (Ret (RcodeSuccess, None),
        emit (merge_locks ''a.org.'' @ [ERLock LMerged, ERUnlock LMerged, EWrite m]) ex_plugin)"
    using query_answers_from_merge [OF sample_file_laws ex_plugin_ok q at live, of 5] by blast
  let ?soa = "[RR_SOA \<lparr>hName = ''a.org.'', hRrtype = TypeSOA, hClass = ClassINET, hTtl = 3600\<rparr> 0]"
  have "lLookup sample n (wSerials ex_plugin) ex_query (lReqName sample ex_query) = (?soa, [], [], LSuccess)"
    using n(1,2) by (simp add: s_lookup_def ex_query_def)
  from n(3) [rule_format, OF this] show ?thesis by (simp add: query_reply_def)
qed

text \<open>
  C10: the contract between a plugin and the server about the reply.  For a request in one of
  its zones that is no notify, the handler returns no error, has written exactly one reply
  when it returns the success code, and none when it returns any other.
\<close>

theorem one_reply_per_success:
  assumes "match_laws L" and "plugin_ok origin \<sigma>"
    and "lMatches L (Names (dZones \<sigma>)) (lReqName L r) \<noteq> []" and "Opcode r \<noteq> OpcodeNotify"
  shows "\<exists>tr. wTrace (snd (ServeDNS L now r \<sigma>)) = wTrace \<sigma> @ tr \<and>
    (\<forall>rc err. fst (ServeDNS L now r \<sigma>) = Ret (rc, err) \<longrightarrow> err = None \<and>
      (rc = RcodeSuccess \<longleftrightarrow> (\<exists>m. written tr = [m])) \<and> (rc \<noteq> RcodeSuccess \<longleftrightarrow> written tr = []))"
proof -
  obtain tr where "wTrace (snd (ServeDNS L now r \<sigma>)) = wTrace \<sigma> @ tr"
    "replies L (fst (ServeDNS L now r \<sigma>)) tr"
    using ServeDNS_once [OF assms, of now] by (auto simp: replies_once_def)
  then show ?thesis by (intro exI [of _ tr]) (auto simp: replies_def split: if_splits)
qed

theorem one_reply_per_success_witness:
  "\<exists>tr. wTrace (snd (ServeDNS sample 5 ex_query ex_plugin)) = wTrace ex_plugin @ tr \<and>
     (\<forall>rc err. fst (ServeDNS sample 5 ex_query ex_plugin) = Ret (rc, err) \<longrightarrow> err = None \<and>
       (rc = RcodeSuccess \<longleftrightarrow> (\<exists>m. written tr = [m])) \<and> (rc \<noteq> RcodeSuccess \<longleftrightarrow> written tr = []))"
  by (rule one_reply_per_success [OF sample_match_laws ex_plugin_ok])
    (simp_all add: s_matches_def ex_query_def opcode_defs)

text \<open>
  A zone transfer.  A name that is not in the table is answered as not authoritative; for
  a name in the table the transfer is that of a zone with the records of both zones of the
  name and the apex of the static one, at the current serials; the table does not change.
\<close>

lemma transfer_of_merge:
  assumes "file_laws L origin norm intree" and "plugin_ok origin \<sigma>"
  shows "(zone \<notin> set (Names (dZones \<sigma>)) \<longrightarrow> fst (Transfer L zone serial \<sigma>) = NotAuthoritative) \<and>
    (zone \<in> set (Names (dZones \<sigma>)) \<longrightarrow>
      (\<exists>z dz n. static_at (dZones \<sigma>) zone = Some z \<and> dynamic_at (dZones \<sigma>) zone = Some dz \<and>
        set (records L n) = set (records L z) \<union> set (records L dz) \<and> lApex L n = lApex L z \<and>
        fst (Transfer L zone serial \<sigma>) = Transferred (lTransfer L n (wSerials \<sigma>) serial))) \<and>
    dZones (snd (Transfer L zone serial \<sigma>)) = dZones \<sigma>"
proof (cases "zone \<in> set (Names (dZones \<sigma>))")
  case True
  obtain z dz where z: "static_at (dZones \<sigma>) zone = Some z" "dynamic_at (dZones \<sigma>) zone = Some dz"
    "origin z = zone" "origin dz = zone" "fst (Merge L zone \<sigma>) = Some (merge_zones L z dz)"
    using Merge_known [OF assms(2) True] by blast
  have "Transfer L zone serial \<sigma> =
      (Transferred (lTransfer L (merge_zones L z dz) (wSerials \<sigma>) serial), snd (Merge L zone \<sigma>))"
    using z(5) by (simp add: Transfer_def case_prod_beta)
  with z True merge_zones_contents [OF assms(1), of dz z] show ?thesis by auto
next
  case False
  have "Transfer L zone serial \<sigma> = (NotAuthoritative, snd (Merge L zone \<sigma>))"
    using Merge_unknown [OF assms(2) False, of L] by (simp add: Transfer_def case_prod_beta)
  with False show ?thesis by simp
qed

lemma transfer_of_merge_witness:
  "fst (Transfer sample ''b.org.'' 3 ex_plugin) = NotAuthoritative \<and>
   (\<exists>n. fst (Transfer sample ''a.org.'' 3 ex_plugin) = Transferred (lTransfer sample n (wSerials ex_plugin) 3))"
  using transfer_of_merge [OF sample_file_laws ex_plugin_ok, of "''b.org.''" 3]
    transfer_of_merge [OF sample_file_laws ex_plugin_ok, of "''a.org.''" 3] by auto

end
