(* ===== verification/ZoneController.thy ===== *)
theory ZoneController
  imports Serving
begin

text \<open>
  The controller of the Zone resources that runs inside the plugin (\<open>zone_controller.go\<close>):
  a changed object is parsed and entered in the table of zones, a deleted one is removed.
  The lemmas give its effect on every branch, in terms of the contract of the table, and
  the separation of the SOA structs of different zones.
\<close>

subsection \<open>Definitions\<close>

datatype rec_error = KubeError kerr | ParseError string

text \<open>A nil timestamp and Go's zero time both count as zero.\<close>

definition isDeleting :: "Zone \<Rightarrow> bool" where
  "isDeleting zone = (case omDeletion (zMeta zone) of None \<Rightarrow> False | Some t \<Rightarrow> t \<noteq> 0)"

text \<open>
  The part of \<open>Reconcile\<close> under the lock of the table: parse the zone file, then create the
  zone or replace its static part, then notify.
\<close>

definition upsert_zone ::
  "('z, 'e, 'm) dns_lib_scheme \<Rightarrow> Zone \<Rightarrow> ('z, 'c) plugin \<Rightarrow> rec_error option go \<times> ('z, 'c) plugin" where
  "upsert_zone L zone \<sigma> =
     (let name = lFqdn L (omName (zMeta zone)) in
      if gm_get (Z (dZones \<sigma>)) name = None then
        (case lParse L (spZone (zSpec zone)) name ''stdin'' 0 (wSerials \<sigma>) of
           (Inl e, h) \<Rightarrow> (Ret (Some (ParseError e)), \<sigma>\<lparr>wSerials := h\<rparr>)
         | (Inr p, h) \<Rightarrow>
             (case create_zone name p (lNewZone L name '''') (dZones \<sigma>) of
                Panic \<Rightarrow> (Panic, \<sigma>\<lparr>wSerials := h\<rparr>)
              | Ret zs \<Rightarrow> (Ret None, emit [ENotify name] (\<sigma>\<lparr>dZones := zs, wSerials := h\<rparr>))))
      else
        (case lParse L (spZone (zSpec zone)) name ''stdin'' 0 (wSerials \<sigma>) of
           (Inl e, h) \<Rightarrow> (Ret (Some (ParseError e)), \<sigma>\<lparr>wSerials := h\<rparr>)
         | (Inr p, h) \<Rightarrow>
             (case replace_zone name p (dZones \<sigma>) of
                Panic \<Rightarrow> (Panic, \<sigma>\<lparr>wSerials := h\<rparr>)
              | Ret zs \<Rightarrow> (Ret None, emit [ENotify name] (\<sigma>\<lparr>dZones := zs, wSerials := h\<rparr>)))))"

definition locked_upsert ::
  "('z, 'e, 'm) dns_lib_scheme \<Rightarrow> Zone \<Rightarrow> ('z, 'c) plugin \<Rightarrow> rec_error option go \<times> ('z, 'c) plugin" where
  "locked_upsert L zone \<sigma> =
     (case upsert_zone L zone (emit [ELock LZones] (\<sigma>\<lparr>dZones := ensure_maps (dZones \<sigma>)\<rparr>)) of
        (res, \<sigma>') \<Rightarrow> (res, emit [EUnlock LZones] \<sigma>'))"

definition Reconcile ::
  "('z, 'e, 'c, 'm) plugin_lib_scheme \<Rightarrow> string \<Rightarrow> string \<Rightarrow> ('z, 'c) plugin \<Rightarrow>
   rec_error option go \<times> ('z, 'c) plugin" where
  "Reconcile L ns nm \<sigma> =
     (case kCacheGet L (wCluster \<sigma>) ns nm of
        Inl e \<Rightarrow> (if e = KNotFound then (Ret None, \<sigma>) else (Ret (Some (KubeError e)), \<sigma>))
      | Inr zone \<Rightarrow>
          (let name = lFqdn L (omName (zMeta zone)) in
           if isDeleting zone \<and> gm_get (Z (dZones \<sigma>)) name \<noteq> None
           then (case DeleteZone name (dZones \<sigma>) of
                   (zs, es) \<Rightarrow> (Ret None, emit es (\<sigma>\<lparr>dZones := zs\<rparr>)))
           else locked_upsert L zone \<sigma>))"

subsection \<open>The branches\<close>

lemma locked_upsert_fail:
  assumes "lParse L (spZone (zSpec zone)) (lFqdn L (omName (zMeta zone))) ''stdin'' 0 (wSerials \<sigma>) = (Inl e, h)"
  shows "locked_upsert L zone \<sigma> =
    (Ret (Some (ParseError e)),
     emit [ELock LZones, EUnlock LZones] (\<sigma>\<lparr>dZones := ensure_maps (dZones \<sigma>), wSerials := h\<rparr>))"
  using assms by (simp add: locked_upsert_def upsert_zone_def Let_def emit_def)

text \<open>
  Entering an object: through the contract of the table, the static zone is the parsed one,
  the dynamic zone of a known name survives.
\<close>

lemma locked_upsert_ok:
  assumes laws: "file_laws L origin norm intree" "alloc_laws L origin" and ok: "plugin_ok origin \<sigma>"
    and name: "name = lFqdn L (omName (zMeta zone))"
    and parse: "lParse L (spZone (zSpec zone)) name ''stdin'' 0 (wSerials \<sigma>) = (Inr p, h)"
  shows "\<exists>zs. locked_upsert L zone \<sigma> =
      (Ret None, emit [ELock LZones, ENotify name, EUnlock LZones] (\<sigma>\<lparr>dZones := zs, wSerials := h\<rparr>)) \<and>
    zones_ok origin zs \<and> set (Names zs) = insert name (set (Names (dZones \<sigma>))) \<and>
    static_at zs = (static_at (dZones \<sigma>))(name \<mapsto> p) \<and>
    dynamic_at zs = (dynamic_at (dZones \<sigma>))(name \<mapsto>
      (case dynamic_at (dZones \<sigma>) name of None \<Rightarrow> lNewZone L name '''' | Some d \<Rightarrow> d))"
proof -
  let ?add = "create_zone name p (lNewZone L name '''') (ensure_maps (dZones \<sigma>))"
  let ?rep = "replace_zone name p (ensure_maps (dZones \<sigma>))"
  have fits: "origin p = name" "origin (lNewZone L name '''') = name"
    using parse_alloc(1) [OF laws(2) parse] new_zone_empty(2) [OF laws(1)] by simp_all
  obtain zs where zs: "(if static_at (dZones \<sigma>) name = None then ?add else ?rep) = Ret zs"
    "zones_ok origin zs" "set (Names zs) = insert name (set (Names (dZones \<sigma>)))"
    "static_at zs = (static_at (dZones \<sigma>))(name \<mapsto> p)"
    "dynamic_at zs = (dynamic_at (dZones \<sigma>))(name \<mapsto>
      (case dynamic_at (dZones \<sigma>) name of None \<Rightarrow> lNewZone L name '''' | Some d \<Rightarrow> d))"
    using zt.add_or_replace [OF ok [unfolded plugin_ok_def] fits] by blast
  have nil: "static_at (dZones \<sigma>) name = None \<longleftrightarrow> gm_get (Z (dZones \<sigma>)) name = None"
  proof -
    have "name \<in> set (Names (dZones \<sigma>)) \<longleftrightarrow> gm_get (Z (dZones \<sigma>)) name \<noteq> None"
      using ok by (auto simp: plugin_ok_def zones_ok_def gm_dom_def)
    then show ?thesis using known_pointers(1) [of origin "dZones \<sigma>" name] ok
      by (auto simp: plugin_ok_def)
  qed
  have "locked_upsert L zone \<sigma> =
      (Ret None, emit [ELock LZones, ENotify name, EUnlock LZones] (\<sigma>\<lparr>dZones := zs, wSerials := h\<rparr>))"
    using parse zs(1) nil
    by (auto simp: locked_upsert_def upsert_zone_def Let_def name [symmetric] emit_def split: if_splits)
  with zs(2-) show ?thesis by blast
qed

lemma Reconcile_upsert:
  "kCacheGet L (wCluster \<sigma>) ns nm = Inr zone \<Longrightarrow>
   \<not> (isDeleting zone \<and> gm_get (Z (dZones \<sigma>)) (lFqdn L (omName (zMeta zone))) \<noteq> None) \<Longrightarrow>
   Reconcile L ns nm \<sigma> = locked_upsert L zone \<sigma>"
  by (auto simp: Reconcile_def Let_def)

lemma Reconcile_delete:
  assumes "kCacheGet L (wCluster \<sigma>) ns nm = Inr zone"
    and "isDeleting zone" and "gm_get (Z (dZones \<sigma>)) (lFqdn L (omName (zMeta zone))) \<noteq> None"
  shows "Reconcile L ns nm \<sigma> =
    (Ret None, emit [ELock LZones, EUnlock LZones]
      (\<sigma>\<lparr>dZones := fst (DeleteZone (lFqdn L (omName (zMeta zone))) (dZones \<sigma>))\<rparr>))"
  using assms by (simp add: Reconcile_def Let_def DeleteZone_def)

lemma Reconcile_get_error:
  "kCacheGet L (wCluster \<sigma>) ns nm = Inl e \<Longrightarrow>
   Reconcile L ns nm \<sigma> = (Ret (if e = KNotFound then None else Some (KubeError e)), \<sigma>)"
  by (simp add: Reconcile_def)

text \<open>Every reconcile takes one of four ways.\<close>

lemma Reconcile_cases:
  assumes laws: "file_laws L origin norm intree" "alloc_laws L origin" and ok: "plugin_ok origin \<sigma>"
  obtains (unread) e where "Reconcile L ns nm \<sigma> = (Ret e, \<sigma>)"
  | (removed) name where "name \<in> set (Names (dZones \<sigma>))" and "Reconcile L ns nm \<sigma> =
      (Ret None, emit [ELock LZones, EUnlock LZones] (\<sigma>\<lparr>dZones := fst (DeleteZone name (dZones \<sigma>))\<rparr>))"
  | (unparsed) e h where "wSerials \<sigma> \<subseteq>\<^sub>m h" and "Reconcile L ns nm \<sigma> =
      (Ret (Some (ParseError e)),
       emit [ELock LZones, EUnlock LZones] (\<sigma>\<lparr>dZones := ensure_maps (dZones \<sigma>), wSerials := h\<rparr>))"
  | (entered) name p h zs where "wSerials \<sigma> \<subseteq>\<^sub>m h" and "set (apex_soas L p) \<subseteq> dom h - dom (wSerials \<sigma>)"
      and "Reconcile L ns nm \<sigma> =
        (Ret None, emit [ELock LZones, ENotify name, EUnlock LZones] (\<sigma>\<lparr>dZones := zs, wSerials := h\<rparr>))"
      and "zones_ok origin zs" and "set (Names zs) = insert name (set (Names (dZones \<sigma>)))"
      and "static_at zs = (static_at (dZones \<sigma>))(name \<mapsto> p)"
      and "dynamic_at zs = (dynamic_at (dZones \<sigma>))(name \<mapsto>
        (case dynamic_at (dZones \<sigma>) name of None \<Rightarrow> lNewZone L name '''' | Some d \<Rightarrow> d))"
proof (cases "kCacheGet L (wCluster \<sigma>) ns nm")
  case (Inl e)
  then show ?thesis using unread Reconcile_get_error by blast
next
  case (Inr zone)
  define name where "name = lFqdn L (omName (zMeta zone))"
  show ?thesis
  proof (cases "isDeleting zone \<and> gm_get (Z (dZones \<sigma>)) name \<noteq> None")
    case True
    then have "name \<in> set (Names (dZones \<sigma>))"
      using ok by (auto simp: plugin_ok_def zones_ok_def gm_dom_def)
    then show ?thesis
      using removed Reconcile_delete [OF Inr] True unfolding name_def by blast
  next
    case False
    then have R: "Reconcile L ns nm \<sigma> = locked_upsert L zone \<sigma>"
      using Reconcile_upsert [OF Inr] unfolding name_def by blast
    obtain pr h where parse: "lParse L (spZone (zSpec zone)) name ''stdin'' 0 (wSerials \<sigma>) = (pr, h)"
      by (metis prod.exhaust)
    have keeps: "wSerials \<sigma> \<subseteq>\<^sub>m h"
      using parse_keeps [OF laws(2), of "wSerials \<sigma>" "spZone (zSpec zone)" name "''stdin''" 0] parse by simp
    show ?thesis
    proof (cases pr)
      case (Inl e)
      then show ?thesis
        using unparsed [OF keeps] locked_upsert_fail parse R unfolding name_def by metis
    next
      case (Inr p)
      note parse' = parse [unfolded Inr]
      show ?thesis
        using locked_upsert_ok [OF laws ok name_def parse'] entered [OF keeps] R
          parse_alloc(2) [OF laws(2) parse'] by metis
    qed
  qed
qed

lemma reconcile_entered:
  assumes "file_laws L origin norm intree" and "alloc_laws L origin" and "plugin_ok origin \<sigma>"
    and "kCacheGet L (wCluster \<sigma>) ns nm = Inr obj" and "name = lFqdn L (omName (zMeta obj))"
    and "\<not> (isDeleting obj \<and> name \<in> set (Names (dZones \<sigma>)))"
    and "lParse L (spZone (zSpec obj)) name ''stdin'' 0 (wSerials \<sigma>) = (Inr p, h)"
  shows "\<exists>zs. Reconcile L ns nm \<sigma> =
      (Ret None, emit [ELock LZones, ENotify name, EUnlock LZones] (\<sigma>\<lparr>dZones := zs, wSerials := h\<rparr>)) \<and>
    zones_ok origin zs \<and> set (Names zs) = insert name (set (Names (dZones \<sigma>))) \<and>
    static_at zs = (static_at (dZones \<sigma>))(name \<mapsto> p) \<and>
    dynamic_at zs = (dynamic_at (dZones \<sigma>))(name \<mapsto>
      (case dynamic_at (dZones \<sigma>) name of None \<Rightarrow> lNewZone L name '''' | Some d \<Rightarrow> d))"
proof -
  have "name \<in> set (Names (dZones \<sigma>)) \<longleftrightarrow> gm_get (Z (dZones \<sigma>)) name \<noteq> None"
    using assms(3) by (auto simp: plugin_ok_def zones_ok_def gm_dom_def)
  then have "Reconcile L ns nm \<sigma> = locked_upsert L obj \<sigma>"
    using Reconcile_upsert [OF assms(4)] assms(5,6) by blast
  then show ?thesis using locked_upsert_ok [OF assms(1,2,3,5,7)] by simp
qed

subsection \<open>Properties\<close>

text \<open>
  C12: reconciling an object enters its zone.  When the object is not being removed and its zone
  file parses, the static zone of its name is the parsed one, the dynamic zone of a known name
  survives with its records while a new name gets an empty one, no other name is touched, the
  secondaries are notified once, and the lock of the table is taken and given back.
\<close>

theorem reconcile_enters_zone:
  assumes "file_laws L origin norm intree" and "alloc_laws L origin" and "plugin_ok origin \<sigma>"
    and "kCacheGet L (wCluster \<sigma>) ns nm = Inr obj" and "name = lFqdn L (omName (zMeta obj))"
    and "\<not> (isDeleting obj \<and> name \<in> set (Names (dZones \<sigma>)))"
    and "lParse L (spZone (zSpec obj)) name ''stdin'' 0 (wSerials \<sigma>) = (Inr p, h)"
  shows "\<exists>zs. Reconcile L ns nm \<sigma> =
      (Ret None, emit [ELock LZones, ENotify name, EUnlock LZones] (\<sigma>\<lparr>dZones := zs, wSerials := h\<rparr>)) \<and>
    zones_ok origin zs \<and> set (Names zs) = insert name (set (Names (dZones \<sigma>))) \<and>
    static_at zs = (static_at (dZones \<sigma>))(name \<mapsto> p) \<and>
    dynamic_at zs = (dynamic_at (dZones \<sigma>))(name \<mapsto>
      (case dynamic_at (dZones \<sigma>) name of None \<Rightarrow> lNewZone L name '''' | Some d \<Rightarrow> d))"
  by (rule reconcile_entered [OF assms])

lemma ex_cache: "kCacheGet sample (wCluster ex_plugin) ''d'' ''a.org'' = Inr ex_obj"
  by (simp add: ex_get)

lemma ex_fqdn: "lFqdn sample (omName (zMeta ex_obj)) = ''a.org.''"
  by (simp add: s_fqdn_def ex_obj_def ex_meta_def)

theorem reconcile_enters_zone_witness:
  "\<exists>zs h. Reconcile sample ''d'' ''a.org'' ex_plugin =
      (Ret None, emit [ELock LZones, ENotify ''a.org.'', EUnlock LZones] (ex_plugin\<lparr>dZones := zs, wSerials := h\<rparr>)) \<and>
    dynamic_at zs ''a.org.'' = Some ex_dyn"
proof -
  have live: "\<not> (isDeleting ex_obj \<and> ''a.org.'' \<in> set (Names (dZones ex_plugin)))"
    by (simp add: isDeleting_def ex_obj_def ex_meta_def)
  obtain p h where parse: "lParse sample (spZone (zSpec ex_obj)) ''a.org.'' ''stdin'' 0 (wSerials ex_plugin) = (Inr p, h)"
    using ex_parse by (auto simp: ex_obj_def)
  obtain zs where zs: "Reconcile sample ''d'' ''a.org'' ex_plugin =
      (Ret None, emit [ELock LZones, ENotify ''a.org.'', EUnlock LZones] (ex_plugin\<lparr>dZones := zs, wSerials := h\<rparr>))"
    "dynamic_at zs = (dynamic_at (dZones ex_plugin))(''a.org.'' \<mapsto>
      (case dynamic_at (dZones ex_plugin) ''a.org.'' of None \<Rightarrow> lNewZone sample ''a.org.'' '''' | Some d \<Rightarrow> d))"
    using reconcile_enters_zone [OF sample_file_laws sample_alloc_laws ex_plugin_ok ex_cache
        ex_fqdn [symmetric] live parse] by blast
  from zs(2) have "dynamic_at zs ''a.org.'' = Some ex_dyn" by simp
  with zs(1) show ?thesis by blast
qed

text \<open>
  C13: reconciling an object with a deletion timestamp removes its zone: the name leaves the
  list and both maps, and every other name keeps its two zones.
\<close>

theorem reconcile_removes_zone:
  assumes "plugin_ok origin \<sigma>" and "kCacheGet L (wCluster \<sigma>) ns nm = Inr obj" and "isDeleting obj"
    and "name = lFqdn L (omName (zMeta obj))" and "name \<in> set (Names (dZones \<sigma>))"
  shows "\<exists>\<sigma>'. Reconcile L ns nm \<sigma> = (Ret None, \<sigma>') \<and> plugin_ok origin \<sigma>' \<and>
    set (Names (dZones \<sigma>')) = set (Names (dZones \<sigma>)) - {name} \<and>
    static_at (dZones \<sigma>') = (static_at (dZones \<sigma>))(name := None) \<and>
    dynamic_at (dZones \<sigma>') = (dynamic_at (dZones \<sigma>))(name := None)"
proof -
  have "gm_get (Z (dZones \<sigma>)) name \<noteq> None"
    using assms(1,5) by (auto simp: plugin_ok_def zones_ok_def gm_dom_def)
  note R = Reconcile_delete [OF assms(2,3) this [unfolded assms(4)]]
  note gone = zt.remove_law [OF assms(1) [unfolded plugin_ok_def], of name]
    zt.removed_is_gone(2) [OF assms(1) [unfolded plugin_ok_def], of name]
  show ?thesis
    using R gone unfolding assms(4) [symmetric] by (simp add: plugin_ok_def ptr_at_delete_fun)
qed

lemma ex_cache_deleted: "kCacheGet sample (wCluster (ex_plugin\<lparr>wCluster := [ex_deleted]\<rparr>)) ''d'' ''a.org'' = Inr ex_deleted"
  by (simp add: s_get_def ex_deleted_def ex_obj_def ex_meta_def)

lemma ex_deleted_simps:
  "isDeleting ex_deleted" "lFqdn sample (omName (zMeta ex_deleted)) = ''a.org.''"
  "plugin_ok szOrigin (ex_plugin\<lparr>wCluster := [ex_deleted]\<rparr>)"
  using ex_plugin_ok
  by (simp_all add: isDeleting_def ex_deleted_def ex_obj_def ex_meta_def s_fqdn_def plugin_ok_def)

theorem reconcile_removes_zone_witness:
  "\<exists>\<sigma>'. Reconcile sample ''d'' ''a.org'' (ex_plugin\<lparr>wCluster := [ex_deleted]\<rparr>) = (Ret None, \<sigma>') \<and>
     set (Names (dZones \<sigma>')) = {} \<and> static_at (dZones \<sigma>') ''a.org.'' = None"
  using reconcile_removes_zone [OF ex_deleted_simps(3) ex_cache_deleted ex_deleted_simps(1)
      ex_deleted_simps(2) [symmetric]] by auto

text \<open>
  A removed zone comes back.  While an object with a deletion timestamp still exists, the
  first reconcile removes its zone, but the next one finds the name unknown, passes the check
  for deletion and enters the zone again, with an empty dynamic zone.
\<close>

lemma deleting_zone_comes_back:
  assumes "file_laws L origin norm intree" and "alloc_laws L origin" and "plugin_ok origin \<sigma>"
    and "kCacheGet L (wCluster \<sigma>) ns nm = Inr obj" and "isDeleting obj"
    and "name = lFqdn L (omName (zMeta obj))" and "name \<in> set (Names (dZones \<sigma>))"
    and "lParse L (spZone (zSpec obj)) name ''stdin'' 0 (wSerials \<sigma>) = (Inr p, h)"
  shows "\<exists>\<sigma>'. Reconcile L ns nm (snd (Reconcile L ns nm \<sigma>)) = (Ret None, \<sigma>') \<and>
    name \<in> set (Names (dZones \<sigma>')) \<and> static_at (dZones \<sigma>') name = Some p \<and>
    dynamic_at (dZones \<sigma>') name = Some (lNewZone L name '''')"
proof -
  have get: "gm_get (Z (dZones \<sigma>)) name \<noteq> None"
    using assms(3,7) by (auto simp: plugin_ok_def zones_ok_def gm_dom_def)
  let ?t = "snd (Reconcile L ns nm \<sigma>)"
  have t: "?t = emit [ELock LZones, EUnlock LZones] (\<sigma>\<lparr>dZones := fst (DeleteZone name (dZones \<sigma>))\<rparr>)"
    using Reconcile_delete [OF assms(4,5)] get assms(6) by simp
  have ok: "plugin_ok origin ?t" using assms(3) by (simp add: t plugin_ok_def zones_ok_delete)
  have R: "Reconcile L ns nm ?t = locked_upsert L obj ?t"
    by (rule Reconcile_upsert) (simp_all add: t assms(4) assms(6) [symmetric])
  have "lParse L (spZone (zSpec obj)) name ''stdin'' 0 (wSerials ?t) = (Inr p, h)"
    using assms(8) by (simp add: t)
  from locked_upsert_ok [OF assms(1,2) ok assms(6) this] R show ?thesis
    by (auto simp: t)
qed

lemma deleting_zone_comes_back_witness:
  "\<exists>\<sigma>'. Reconcile sample ''d'' ''a.org''
       (snd (Reconcile sample ''d'' ''a.org'' (ex_plugin\<lparr>wCluster := [ex_deleted]\<rparr>))) = (Ret None, \<sigma>') \<and>
     ''a.org.'' \<in> set (Names (dZones \<sigma>'))"
proof -
  obtain p h where parse: "lParse sample (spZone (zSpec ex_deleted)) ''a.org.'' ''stdin'' 0
      (wSerials (ex_plugin\<lparr>wCluster := [ex_deleted]\<rparr>)) = (Inr p, h)"
    using ex_parse by (auto simp: ex_deleted_def ex_obj_def)
  have known: "''a.org.'' \<in> set (Names (dZones (ex_plugin\<lparr>wCluster := [ex_deleted]\<rparr>)))" by simp
  from deleting_zone_comes_back [OF sample_file_laws sample_alloc_laws ex_deleted_simps(3) ex_cache_deleted
      ex_deleted_simps(1) ex_deleted_simps(2) [symmetric] known parse]
  show ?thesis by blast
qed

text \<open>
  A zone file that does not parse changes nothing that is served: the error is returned (so
  the controller tries again), the names and both zones of every name stay, and the lock of
  the table is given back.
\<close>

theorem reconcile_parse_error:
  assumes "kCacheGet L (wCluster \<sigma>) ns nm = Inr obj" and "\<not> isDeleting obj"
    and "lParse L (spZone (zSpec obj)) (lFqdn L (omName (zMeta obj))) ''stdin'' 0 (wSerials \<sigma>) = (Inl e, h)"
  shows "\<exists>\<sigma>'. Reconcile L ns nm \<sigma> = (Ret (Some (ParseError e)), \<sigma>') \<and>
    Names (dZones \<sigma>') = Names (dZones \<sigma>) \<and>
    static_at (dZones \<sigma>') k = static_at (dZones \<sigma>) k \<and>
    dynamic_at (dZones \<sigma>') k = dynamic_at (dZones \<sigma>) k \<and> lock_clean \<sigma> \<sigma>'"
  using Reconcile_upsert [OF assms(1)] assms(2) locked_upsert_fail [OF assms(3)] write_lock_balanced [of LZones]
  by (simp add: ptr_at_def lock_clean_def)

theorem reconcile_parse_error_witness:
  "\<exists>\<sigma>' e. Reconcile sample ''d'' ''a.org''
       (ex_plugin\<lparr>wCluster := [ex_obj\<lparr>zSpec := \<lparr>spZone = ''''\<rparr>\<rparr>]\<rparr>) = (Ret (Some (ParseError e)), \<sigma>') \<and>
     static_at (dZones \<sigma>') ''a.org.'' = Some ex_zone"
proof -
  let ?o = "ex_obj\<lparr>zSpec := \<lparr>spZone = ''''\<rparr>\<rparr>"
  let ?s = "ex_plugin\<lparr>wCluster := [?o]\<rparr>"
  have "kCacheGet sample (wCluster ?s) ''d'' ''a.org'' = Inr ?o"
    by (simp add: s_get_def ex_obj_def ex_meta_def)
  moreover have "\<not> isDeleting ?o" by (simp add: isDeleting_def ex_obj_def ex_meta_def)
  moreover have "lParse sample (spZone (zSpec ?o)) (lFqdn sample (omName (zMeta ?o))) ''stdin'' 0 (wSerials ?s) =
      (Inl ''no SOA'', wSerials ?s)" by (simp add: s_parse_def)
  ultimately have "\<exists>\<sigma>'. Reconcile sample ''d'' ''a.org'' ?s = (Ret (Some (ParseError ''no SOA'')), \<sigma>') \<and>
      Names (dZones \<sigma>') = Names (dZones ?s) \<and>
      static_at (dZones \<sigma>') ''a.org.'' = static_at (dZones ?s) ''a.org.'' \<and>
      dynamic_at (dZones \<sigma>') ''a.org.'' = dynamic_at (dZones ?s) ''a.org.'' \<and> lock_clean ?s \<sigma>'"
    by (rule reconcile_parse_error)
  then show ?thesis by auto
qed

end
