(* ===== verification/SoaSharing.thy ===== *)
theory SoaSharing
  imports ZoneController
begin

text \<open>
  The SOA structs behind the pointers.  A copy of a zone shares the SOA struct of the
  original, which is how the serial an update writes reaches the static zone.  The
  invariant \<open>soas_ok\<close> says that the static zones of different names never share one, so that
  an update of one zone leaves the serials of the others alone; it is kept by every
  operation of the plugin.
\<close>

definition soas_ok :: "('z, 'e, 'm) file_lib_scheme \<Rightarrow> 'z Zones \<Rightarrow> serials \<Rightarrow> bool" where
  "soas_ok L zs h \<longleftrightarrow>
     (\<forall>k z. static_at zs k = Some z \<longrightarrow> set (apex_soas L z) \<subseteq> dom h) \<and>
     (\<forall>k j y z. k \<noteq> j \<longrightarrow> static_at zs k = Some y \<longrightarrow> static_at zs j = Some z \<longrightarrow>
        set (apex_soas L y) \<inter> set (apex_soas L z) = {})"

lemma soas_ok_cong:
  assumes "soas_ok L zs h" and "\<And>k. static_at zs' k = static_at zs k" and "dom h \<subseteq> dom h'"
  shows "soas_ok L zs' h'"
  using assms unfolding soas_ok_def by fastforce

lemma soas_ok_remove:
  assumes "soas_ok L zs h" and "\<And>k. static_at zs' k = (if k = name then None else static_at zs k)"
  shows "soas_ok L zs' h"
  using assms(1) unfolding soas_ok_def assms(2) by (simp split: if_splits)

lemma soas_ok_enter:
  assumes ok: "soas_ok L zs h" and new: "set (apex_soas L p) \<subseteq> dom h' - dom h" and "dom h \<subseteq> dom h'"
    and at: "static_at zs' = (static_at zs)(name \<mapsto> p)"
  shows "soas_ok L zs' h'"
proof -
  have old: "static_at zs k = Some z \<Longrightarrow> set (apex_soas L z) \<subseteq> dom h" for k z
    using ok unfolding soas_ok_def by blast
  have disj: "static_at zs k = Some z \<Longrightarrow> set (apex_soas L p) \<inter> set (apex_soas L z) = {}" for k z
    using old new by blast
  show ?thesis
    unfolding soas_ok_def at
  proof (intro conjI allI impI)
    fix k z
    assume "((static_at zs)(name \<mapsto> p)) k = Some z"
    then show "set (apex_soas L z) \<subseteq> dom h'"
      using old [of k z] new assms(3) by (cases "k = name") auto
  next
    fix k j y z
    assume "k \<noteq> j" "((static_at zs)(name \<mapsto> p)) k = Some y" "((static_at zs)(name \<mapsto> p)) j = Some z"
    then consider "k = name" "y = p" "static_at zs j = Some z"
      | "j = name" "z = p" "static_at zs k = Some y"
      | "static_at zs k = Some y" "static_at zs j = Some z"
      by (cases "k = name"; cases "j = name") simp_all
    then show "set (apex_soas L y) \<inter> set (apex_soas L z) = {}"
    proof cases
      case 1
      then show ?thesis using disj [of j z] by simp
    next
      case 2
      then show ?thesis using disj [of k y] by (simp add: Int_commute)
    next
      case 3
      then show ?thesis using ok \<open>k \<noteq> j\<close> unfolding soas_ok_def by blast
    qed
  qed
qed

subsection \<open>The invariant under requests and reconciles\<close>

lemma serve_update_soas:
  assumes laws: "file_laws L origin norm intree" and ok: "plugin_ok origin \<sigma>"
    and dz: "dynamic_at (dZones \<sigma>) zone = Some dz" and soas: "soas_ok L (dZones \<sigma>) (wSerials \<sigma>)"
  shows "soas_ok L (dZones (snd (serve_update L now zone dz r \<sigma>)))
      (wSerials (snd (serve_update L now zone dz r \<sigma>)))"
    and "\<lbrakk>static_at (dZones \<sigma>) k = Some y; k \<noteq> zone; p \<in> set (apex_soas L y)\<rbrakk> \<Longrightarrow>
      wSerials (snd (serve_update L now zone dz r \<sigma>)) p = wSerials \<sigma> p"
proof -
  obtain z ps where z: "static_at (dZones \<sigma>) zone = Some z" "set ps \<subseteq> set (apex_soas L z)"
    "wSerials (snd (serve_update L now zone dz r \<sigma>)) = set_serials ps (serial_of_ms now) (wSerials \<sigma>)"
    using serve_update_serials [OF laws ok dz] by blast
  have "set (apex_soas L z) \<subseteq> dom (wSerials \<sigma>)" using soas z(1) unfolding soas_ok_def by blast
  with z(2) have "dom (set_serials ps (serial_of_ms now) (wSerials \<sigma>)) = dom (wSerials \<sigma>)"
    by (intro set_serials_dom) blast
  then show "soas_ok L (dZones (snd (serve_update L now zone dz r \<sigma>)))
      (wSerials (snd (serve_update L now zone dz r \<sigma>)))"
    using soas_ok_cong [OF soas, of "dZones (snd (serve_update L now zone dz r \<sigma>))"]
      serve_update_ok(5) [OF laws ok dz] z(3) by simp
  assume y: "static_at (dZones \<sigma>) k = Some y" "k \<noteq> zone" "p \<in> set (apex_soas L y)"
  then have "set (apex_soas L y) \<inter> set (apex_soas L z) = {}"
    using soas z(1) unfolding soas_ok_def by blast
  with y(3) z(2) have "p \<notin> set ps" by blast
  then show "wSerials (snd (serve_update L now zone dz r \<sigma>)) p = wSerials \<sigma> p"
    using z(3) by (simp add: set_serials_other)
qed

lemma ServeDNS_soas:
  assumes laws: "file_laws L origin norm intree" and "match_laws L" and ok: "plugin_ok origin \<sigma>"
    and soas: "soas_ok L (dZones \<sigma>) (wSerials \<sigma>)"
  shows "soas_ok L (dZones (snd (ServeDNS L now r \<sigma>))) (wSerials (snd (ServeDNS L now r \<sigma>)))"
proof (cases rule: ServeDNS_cases [OF assms(2) ok, of r now])
  case (4 zone dz)
  then show ?thesis using serve_update_soas(1) [OF laws ok _ soas] by simp
qed (simp_all add: soas)

lemma Reconcile_safe:
  assumes laws: "file_laws L origin norm intree" "alloc_laws L origin" and ok: "plugin_ok origin \<sigma>"
  shows "fst (Reconcile L ns nm \<sigma>) \<noteq> Panic"
    and "plugin_ok origin (snd (Reconcile L ns nm \<sigma>))"
    and "lock_clean \<sigma> (snd (Reconcile L ns nm \<sigma>))"
    and "soas_ok L (dZones \<sigma>) (wSerials \<sigma>) \<Longrightarrow>
      soas_ok L (dZones (snd (Reconcile L ns nm \<sigma>))) (wSerials (snd (Reconcile L ns nm \<sigma>)))"
proof -
  have bal: "balanced [ELock LZones, EUnlock LZones]" "balanced [ELock LZones, ENotify n, EUnlock LZones]" for n
    by (simp_all add: balanced_def)
  show "fst (Reconcile L ns nm \<sigma>) \<noteq> Panic"
    by (cases rule: Reconcile_cases [OF laws ok, of ns nm]) simp_all
  show "plugin_ok origin (snd (Reconcile L ns nm \<sigma>))"
    using ok by (cases rule: Reconcile_cases [OF laws ok, of ns nm])
      (simp_all add: plugin_ok_def zones_ok_ensure zones_ok_delete)
  show "lock_clean \<sigma> (snd (Reconcile L ns nm \<sigma>))"
    by (cases rule: Reconcile_cases [OF laws ok, of ns nm]) (simp_all add: lock_clean_def bal)
  assume soas: "soas_ok L (dZones \<sigma>) (wSerials \<sigma>)"
  show "soas_ok L (dZones (snd (Reconcile L ns nm \<sigma>))) (wSerials (snd (Reconcile L ns nm \<sigma>)))"
  proof (cases rule: Reconcile_cases [OF laws ok, of ns nm])
    case (1 e)
    then show ?thesis using soas by simp
  next
    case (2 name)
    then show ?thesis using soas_ok_remove [OF soas] by simp
  next
    case (3 e h)
    then show ?thesis using soas_ok_cong [OF soas] by (simp add: map_le_implies_dom_le ptr_at_def)
  next
    case (4 name p h zs)
    then show ?thesis using soas_ok_enter [OF soas 4(2) map_le_implies_dom_le [OF 4(1)] 4(6)] by simp
  qed
qed

subsection \<open>Properties\<close>

text \<open>
  C11: an update of one zone leaves the SOA serials of all other zones alone.  The serial is
  written through pointers that the merged zone shares with the static one, so this rests on
  the separation of the SOA structs, which the update keeps.
\<close>

theorem update_keeps_other_serials:
  assumes "file_laws L origin norm intree" and "plugin_ok origin \<sigma>" and "soas_ok L (dZones \<sigma>) (wSerials \<sigma>)"
    and "dynamic_at (dZones \<sigma>) zone = Some dz" and "static_at (dZones \<sigma>) other = Some y"
    and "other \<noteq> zone" and "p \<in> set (apex_soas L y)"
  shows "wSerials (snd (serve_update L now zone dz r \<sigma>)) p = wSerials \<sigma> p \<and>
    soas_ok L (dZones (snd (serve_update L now zone dz r \<sigma>))) (wSerials (snd (serve_update L now zone dz r \<sigma>)))"
  using serve_update_soas(1) [OF assms(1,2,4,3)] serve_update_soas(2) [OF assms(1,2,4,3,5-7)] by blast

definition ex_two :: "(szone, Zone list) plugin" where
  "ex_two = ex_plugin\<lparr>dZones := \<lparr>
       Z = Some [''a.org.'' \<mapsto> Some ex_zone, ''b.org.'' \<mapsto> Some (ex_zone\<lparr>szOrigin := ''b.org.'',
         szSOA := Some (\<lparr>hName = ''b.org.'', hRrtype = TypeSOA, hClass = ClassINET, hTtl = 3600\<rparr>, 1)\<rparr>)],
       Names = [''a.org.'', ''b.org.''],
       DynamicZones = Some [''a.org.'' \<mapsto> Some ex_dyn, ''b.org.'' \<mapsto> Some (s_new ''b.org.'' '''')]\<rparr>,
     wSerials := [0 \<mapsto> 4, 1 \<mapsto> 9]\<rparr>"

theorem update_keeps_other_serials_witness:
  "wSerials (snd (serve_update sample 5 ''a.org.'' ex_dyn (ex_msg OpcodeUpdate [ex_txt ClassINET]) ex_two)) 1 = Some 9"
proof -
  have ok: "plugin_ok szOrigin ex_two"
    by (auto simp: ex_two_def plugin_ok_def zones_ok_def s_new_def split: if_splits)
  have soas: "soas_ok sample (dZones ex_two) (wSerials ex_two)"
    by (auto simp: ex_two_def soas_ok_def ptr_at_def apex_soas_def s_apex_def ex_zone_def split: if_splits)
  have dyn: "dynamic_at (dZones ex_two) ''a.org.'' = Some ex_dyn" by (simp add: ex_two_def)
  obtain y where y: "static_at (dZones ex_two) ''b.org.'' = Some y" "1 \<in> set (apex_soas sample y)"
    by (simp add: ex_two_def apex_soas_def s_apex_def ex_zone_def)
  have "wSerials ex_two 1 = Some 9" by (simp add: ex_two_def)
  then show ?thesis
    using update_keeps_other_serials [OF sample_file_laws ok soas dyn y(1) _ y(2), of 5] by simp
qed

end
