(* ===== verification/Initialize.thy ===== *)
theory Initialize
  imports SoaSharing
begin

text \<open>
  Start-up of the plugin (\<open>setup.go\<close>): reading the directive's namespaces, listing the Zone
  objects, parsing their zone files, and loading the dynamic records their statuses hold.
  The lemmas show that the state it builds satisfies the invariants of the table and of the
  SOA structs, when it can panic, and that the records an update has written to the status
  of an object are served again after a restart.
\<close>

subsection \<open>Definitions\<close>

datatype init_error = ArgErr | ListError kerr

text \<open>
  The Corefile lines of the directive, each the list of the arguments after the directive's
  name; \<open>NextArg\<close> runs to the end of the line.  A star as first argument drops the namespaces
  read so far and is then kept like a name.
\<close>

fun directive_namespaces :: "string list list \<Rightarrow> string list \<Rightarrow> (init_error + unit) \<times> string list" where
  "directive_namespaces [] nss = (Inr (), nss)"
| "directive_namespaces ([] # ls) nss = (Inl ArgErr, nss)"
| "directive_namespaces ((a # as) # ls) nss =
     directive_namespaces ls ((if a = ''*'' then [] else nss) @ a # as)"

text \<open>
  The two loops over the objects of a namespace.  \<open>Some ()\<close> is a panic; a zone file that does
  not parse is skipped, as is a name that is already there.
\<close>

definition init_zone ::
  "('z, 'e, 'm) dns_lib_scheme \<Rightarrow> Zone \<Rightarrow> 'z Zones \<times> serials \<Rightarrow> unit option \<times> ('z Zones \<times> serials)" where
  "init_zone L zone s =
     (case s of (zs, h) \<Rightarrow>
       let name = lFqdn L (omName (zMeta zone)) in
       if gm_get (Z zs) name = None then
         (case lParse L (spZone (zSpec zone)) name ''stdin'' 0 h of
            (Inl _, h') \<Rightarrow> (None, (zs, h'))
          | (Inr p, h') \<Rightarrow>
              (case create_zone name p (lNewZone L name '''') zs of
                 Panic \<Rightarrow> (Some (), (zs, h'))
               | Ret zs' \<Rightarrow> (None, (zs', h'))))
       else (None, (zs, h)))"

definition init_rr ::
  "('z, 'e, 'm) dns_lib_scheme \<Rightarrow> string \<Rightarrow> DynamicRR \<Rightarrow> 'z Zones \<times> serials \<Rightarrow>
   unit option \<times> ('z Zones \<times> serials)" where
  "init_rr L name d s =
     (case s of (zs, h) \<Rightarrow>
       case lNewRR L (RR d) h of
         (Inl _, h') \<Rightarrow> (None, (zs, h'))
       | (Inr nrr, h') \<Rightarrow>
           (case (nrr, ptr_at (DynamicZones zs) name) of
              (Some rr, Some dz) \<Rightarrow> (None, (set_dynamic name (snd (lInsert L dz rr)) zs, h'))
            | _ \<Rightarrow> (Some (), (zs, h'))))"

definition init_status ::
  "('z, 'e, 'm) dns_lib_scheme \<Rightarrow> Zone \<Rightarrow> 'z Zones \<times> serials \<Rightarrow> unit option \<times> ('z Zones \<times> serials)" where
  "init_status L zone s =
     (let name = lFqdn L (omName (zMeta zone)) in
      if gm_get (Z (fst s)) name \<noteq> None then for_each (init_rr L name) (DynamicRRs (zStatus zone)) s
      else (None, s))"

definition init_namespace ::
  "('z, 'e, 'c, 'm) plugin_lib_scheme \<Rightarrow> 'c \<Rightarrow> string \<Rightarrow> 'z Zones \<times> serials \<Rightarrow>
   init_error go option \<times> ('z Zones \<times> serials)" where
  "init_namespace L c n s =
     (case kList L c n of
        Inl e \<Rightarrow> (Some (Ret (ListError e)), s)
      | Inr items \<Rightarrow>
          (case for_each (init_zone L) items s of
             (Some _, s1) \<Rightarrow> (Some Panic, s1)
           | (None, s1) \<Rightarrow>
               (case for_each (init_status L) items s1 of
                  (Some _, s2) \<Rightarrow> (Some Panic, s2)
                | (None, s2) \<Rightarrow> (None, s2))))"

definition no_zones :: "'z Zones" where
  "no_zones = \<lparr>Z = gm_make, Names = [], DynamicZones = gm_make\<rparr>"

text \<open>
  \<open>initialize\<close>: the zones or an error, with \<open>d.Namespaces\<close> and the serials afterwards.
\<close>

definition initialize ::
  "('z, 'e, 'c, 'm) plugin_lib_scheme \<Rightarrow> string list list \<Rightarrow> 'c \<Rightarrow> serials \<Rightarrow>
   (init_error + 'z Zones) go \<times> string list \<times> serials" where
  "initialize L lines c h =
     (case directive_namespaces lines [] of
        (Inl e, nss) \<Rightarrow> (Ret (Inl e), nss, h)
      | (Inr _, nss) \<Rightarrow>
          (case for_each (init_namespace L c) nss (no_zones, h) of
             (Some (Ret e), (_, h')) \<Rightarrow> (Ret (Inl e), nss, h')
           | (Some Panic, (_, h')) \<Rightarrow> (Panic, nss, h')
           | (None, (zs, h')) \<Rightarrow> (Ret (Inr zs), nss, h')))"

text \<open>
  The plugin that \<open>setup\<close> registers when it succeeds: the handlers it installs on start-up
  find the transfer plugin or fail, so \<open>d.transfer\<close> is set once requests arrive.
\<close>

definition start_plugin :: "string list \<Rightarrow> 'z Zones \<Rightarrow> serials \<Rightarrow> 'c \<Rightarrow> ('z, 'c) plugin" where
  "start_plugin nss zs h c =
     \<lparr>dZones = zs, dNamespaces = nss, dTransfer = True, wSerials = h, wCluster = c, wTrace = []\<rparr>"

subsection \<open>The directive\<close>

lemma directive_namespaces_ok:
  assumes "[] \<notin> set ls" and "\<forall>l \<in> set ls. hd l \<noteq> ''*''"
  shows "directive_namespaces ls nss = (Inr (), nss @ concat ls)"
  using assms by (induction ls nss rule: directive_namespaces.induct) auto

lemma directive_namespaces_star:
  assumes "[] \<notin> set ls" and "\<forall>l \<in> set ls. hd l \<noteq> ''*''" and "[] \<notin> set pre"
  shows "directive_namespaces (pre @ (''*'' # as) # ls) nss = (Inr (), ''*'' # as @ concat ls)"
  using assms(3)
  by (induction pre nss rule: directive_namespaces.induct)
    (simp_all add: directive_namespaces_ok [OF assms(1,2)])

lemma directive_namespaces_err: "[] \<in> set ls \<Longrightarrow> fst (directive_namespaces ls nss) = Inl ArgErr"
  by (induction ls nss rule: directive_namespaces.induct) auto

subsection \<open>The invariant of the loops\<close>

text \<open>
  While the loops run, the table is in order, its maps are made, no SOA struct is shared,
  and the serials only grow.
\<close>

definition init_inv :: "('z, 'e, 'm) file_lib_scheme \<Rightarrow> ('z \<Rightarrow> string) \<Rightarrow> 'z Zones \<times> serials \<Rightarrow> bool" where
  "init_inv L origin s \<longleftrightarrow>
     zones_ok origin (fst s) \<and> Z (fst s) \<noteq> None \<and> DynamicZones (fst s) \<noteq> None \<and>
     soas_ok L (fst s) (snd s)"

lemma init_inv_start: "init_inv L origin (no_zones, h)"
  by (simp add: init_inv_def no_zones_def zones_ok_empty soas_ok_def ptr_at_def) (simp add: gm_make_def)

lemma ensure_maps_made: "Z zs \<noteq> None \<Longrightarrow> DynamicZones zs \<noteq> None \<Longrightarrow> ensure_maps zs = zs"
  by (auto simp: ensure_maps_def Let_def)

lemma zones_ok_names: "zones_ok origin zs \<Longrightarrow> k \<in> set (Names zs) \<longleftrightarrow> gm_get (Z zs) k \<noteq> None"
  by (auto simp: zones_ok_def gm_dom_def)

text \<open>One object: nothing happens to a known name or to a bad zone file, else it is entered.\<close>

lemma init_zone_step:
  assumes laws: "file_laws L origin norm intree" "alloc_laws L origin" and inv: "init_inv L origin (zs, h)"
    and name: "name = lFqdn L (omName (zMeta zone))"
  obtains (kept) h' where "h \<subseteq>\<^sub>m h'" and "init_zone L zone (zs, h) = (None, (zs, h'))"
      and "init_inv L origin (zs, h')"
      and "name \<in> set (Names zs) \<or> (\<exists>e. fst (lParse L (spZone (zSpec zone)) name ''stdin'' 0 h) = Inl e)"
  | (entered) p h' zs' where "h \<subseteq>\<^sub>m h'" and "name \<notin> set (Names zs)"
      and "lParse L (spZone (zSpec zone)) name ''stdin'' 0 h = (Inr p, h')"
      and "init_zone L zone (zs, h) = (None, (zs', h'))" and "init_inv L origin (zs', h')"
      and "Names zs' = Names zs @ [name]"
      and "static_at zs' = (static_at zs)(name \<mapsto> p)"
      and "dynamic_at zs' = (dynamic_at zs)(name \<mapsto> lNewZone L name '''')"
proof (cases "gm_get (Z zs) name = None")
  case False
  then show ?thesis
    using kept [of h] inv zones_ok_names [of origin zs name] name
    by (auto simp: init_zone_def init_inv_def Let_def)
next
  case True
  obtain pr h' where parse: "lParse L (spZone (zSpec zone)) name ''stdin'' 0 h = (pr, h')"
    by (metis prod.exhaust)
  have keeps: "h \<subseteq>\<^sub>m h'"
    using parse_keeps [OF laws(2), of h "spZone (zSpec zone)" name "''stdin''" 0] parse by simp
  note dom = map_le_implies_dom_le [OF keeps]
  show ?thesis
  proof (cases pr)
    case (Inl e)
    have "init_inv L origin (zs, h')"
      using inv soas_ok_cong [of L zs h zs h'] dom by (simp add: init_inv_def)
    then show ?thesis
      using kept [OF keeps] True parse Inl name by (simp add: init_zone_def Let_def)
  next
    case (Inr p)
    note parse' = parse [unfolded Inr]
    have ok: "zones_ok origin zs" and made: "ensure_maps zs = zs"
      using inv by (simp_all add: init_inv_def ensure_maps_made)
    have new: "name \<notin> set (Names zs)" using True zones_ok_names [OF ok] by simp
    have fits: "origin p = name" "origin (lNewZone L name '''') = name"
      using parse_alloc(1) [OF laws(2) parse'] new_zone_empty(2) [OF laws(1)] by simp_all
    obtain zs' where zs': "create_zone name p (lNewZone L name '''') zs = Ret zs'" "zones_ok origin zs'"
      "Names zs' = Names zs @ [name]" "static_at zs' = (static_at zs)(name \<mapsto> p)"
      "dynamic_at zs' = (dynamic_at zs)(name \<mapsto> lNewZone L name '''')"
      using zt.add_law [OF ok new fits] unfolding made by blast
    have "Z zs' \<noteq> None" "DynamicZones zs' \<noteq> None"
      using zs'(1) by (auto simp: create_zone_def go_bind_eq_Ret gm_set_Ret)
    moreover have "soas_ok L zs' h'"
      using soas_ok_enter [OF _ parse_alloc(2) [OF laws(2) parse'] dom zs'(4)] inv
      by (simp add: init_inv_def)
    ultimately have "init_inv L origin (zs', h')" using zs'(2) by (simp add: init_inv_def)
    then show ?thesis
      using entered [OF keeps new parse'] zs' True name parse' by (simp add: init_zone_def Let_def)
  qed
qed

subsection \<open>Loading the statuses\<close>

text \<open>The loop over the texts of one object is the loop on its dynamic zone.\<close>

lemma set_dynamic_same: "dynamic_at zs name = Some d \<Longrightarrow> set_dynamic name d zs = zs"
  by (cases "DynamicZones zs") (auto simp: set_dynamic_def ptr_at_eq_Some fun_upd_idem)

lemma set_dynamic_twice: "set_dynamic name e (set_dynamic name d zs) = set_dynamic name e zs"
  by (cases "DynamicZones zs") (simp_all add: set_dynamic_def gm_put_def)

lemma set_dynamic_at: "dynamic_at zs name = Some d \<Longrightarrow> dynamic_at (set_dynamic name e zs) name = Some e"
  by (cases "DynamicZones zs") (simp_all add: set_dynamic_def ptr_at_eq_Some)

lemma init_rr_load:
  assumes "dynamic_at zs name = Some d"
  shows "init_rr L name rr (zs, h) =
    (case load_rr L rr (d, h) of (res, (d', h')) \<Rightarrow> (res, (set_dynamic name d' zs, h')))"
  using assms set_dynamic_same [OF assms]
  by (simp add: init_rr_def load_rr_def split: prod.splits sum.splits option.splits)

lemma init_rrs_load:
  assumes "dynamic_at zs name = Some d"
  shows "for_each (init_rr L name) ds (zs, h) =
    (case for_each (load_rr L) ds (d, h) of (res, (d', h')) \<Rightarrow> (res, (set_dynamic name d' zs, h')))"
  using assms
proof (induction ds arbitrary: zs d h)
  case Nil
  then show ?case by (simp add: set_dynamic_same)
next
  case (Cons rr ds)
  obtain res d1 h1 where l: "load_rr L rr (d, h) = (res, (d1, h1))" by (metis prod.exhaust)
  then have i: "init_rr L name rr (zs, h) = (res, (set_dynamic name d1 zs, h1))"
    using init_rr_load [OF Cons.prems, of L rr h] by simp
  show ?case
    using Cons.IH [OF set_dynamic_at [OF Cons.prems, of d1], of h1] l i
    by (simp add: set_dynamic_twice split: option.splits)
qed

text \<open>A text that is not empty: it parses to a record or to an error.\<close>

definition readable :: "('z, 'e, 'm) dns_lib_scheme \<Rightarrow> DynamicRR \<Rightarrow> bool" where
  "readable L d \<longleftrightarrow> (\<forall>h h'. lNewRR L (RR d) h \<noteq> (Inr None, h'))"

lemma load_rr_readable: "readable L d \<Longrightarrow> fst (load_rr L d s) = None"
  by (auto simp: readable_def load_rr_def split: prod.splits sum.splits option.splits)

lemma load_readable: "(\<And>d. d \<in> set ds \<Longrightarrow> readable L d) \<Longrightarrow> fst (for_each (load_rr L) ds s) = None"
proof (induction ds arbitrary: s)
  case Nil
  then show ?case by simp
next
  case (Cons d ds)
  have "fst (load_rr L d s) = None" using Cons.prems by (simp add: load_rr_readable)
  then show ?case using Cons by (cases "load_rr L d s") simp
qed

text \<open>One object: an unknown name is skipped, else its dynamic zone is loaded.\<close>

lemma init_status_step:
  assumes laws: "file_laws L origin norm intree" "alloc_laws L origin" and inv: "init_inv L origin (zs, h)"
    and name: "name = lFqdn L (omName (zMeta zone))"
  obtains (unknown) "name \<notin> set (Names zs)" and "init_status L zone (zs, h) = (None, (zs, h))"
  | (known) d res d' h' where "dynamic_at zs name = Some d"
      and "for_each (load_rr L) (DynamicRRs (zStatus zone)) (d, h) = (res, (d', h'))"
      and "init_status L zone (zs, h) = (res, (set_dynamic name d' zs, h'))"
      and "init_inv L origin (set_dynamic name d' zs, h')"
      and "\<And>k. dynamic_at (set_dynamic name d' zs) k = (if k = name then Some d' else dynamic_at zs k)"
proof (cases "name \<in> set (Names zs)")
  case False
  then show ?thesis
    using unknown inv zones_ok_names [of origin zs name] name
    by (simp add: init_status_def init_inv_def Let_def)
next
  case True
  have ok: "zones_ok origin zs" using inv by (simp add: init_inv_def)
  obtain d where d: "dynamic_at zs name = Some d" "origin d = name"
    using zt.known_pair [OF ok True] by blast
  obtain res d' h' where l: "for_each (load_rr L) (DynamicRRs (zStatus zone)) (d, h) = (res, (d', h'))"
    by (metis prod.exhaust)
  have "origin d' = name"
    using load_origin [OF laws(1), of "DynamicRRs (zStatus zone)" "(d, h)"] l d(2) by simp
  note set_ok = zones_ok_set_dynamic [OF ok True this]
  have "h \<subseteq>\<^sub>m h'" using load_keeps [OF laws(2), of "(d, h)" "DynamicRRs (zStatus zone)"] l by simp
  then have soas: "soas_ok L (set_dynamic name d' zs) h'"
    using soas_ok_cong [of L zs h "set_dynamic name d' zs" h'] inv
    by (simp add: init_inv_def map_le_implies_dom_le)
  have "DynamicZones (set_dynamic name d' zs) \<noteq> None"
    using inv by (simp add: init_inv_def set_dynamic_def)
  then have inv': "init_inv L origin (set_dynamic name d' zs, h')"
    using set_ok(1) soas inv by (simp add: init_inv_def)
  have "gm_get (Z zs) name \<noteq> None" using zones_ok_names [OF ok] True by simp
  then have "init_status L zone (zs, h) = (res, (set_dynamic name d' zs, h'))"
    using init_rrs_load [OF d(1), of L "DynamicRRs (zStatus zone)" h] l name
    by (simp add: init_status_def Let_def)
  from known [OF d(1) l this inv' set_ok(2)] show ?thesis .
qed

text \<open>The loop over the objects, with readable texts: it ends, and touches no other name.\<close>

abbreviation zone_key :: "('z, 'e, 'm) dns_lib_scheme \<Rightarrow> Zone \<Rightarrow> string" where
  "zone_key L zone \<equiv> lFqdn L (omName (zMeta zone))"

lemma init_statuses:
  assumes laws: "file_laws L origin norm intree" "alloc_laws L origin" and "init_inv L origin (zs, h)"
    and "\<forall>z \<in> set items. \<forall>d \<in> set (DynamicRRs (zStatus z)). readable L d"
  shows "\<exists>zs' h'. for_each (init_status L) items (zs, h) = (None, (zs', h')) \<and> init_inv L origin (zs', h') \<and>
    Names zs' = Names zs \<and> Z zs' = Z zs \<and>
    (\<forall>k. k \<notin> zone_key L ` set items \<longrightarrow> dynamic_at zs' k = dynamic_at zs k)"
  using assms(3,4)
proof (induction items arbitrary: zs h)
  case Nil
  then show ?case by simp
next
  case (Cons z items)
  show ?case
  proof (rule init_status_step [OF laws Cons.prems(1) refl, of z])
    assume "init_status L z (zs, h) = (None, (zs, h))"
    moreover obtain zs2 h2 where "for_each (init_status L) items (zs, h) = (None, (zs2, h2))"
      "init_inv L origin (zs2, h2)" "Names zs2 = Names zs" "Z zs2 = Z zs"
      "\<forall>k. k \<notin> zone_key L ` set items \<longrightarrow> dynamic_at zs2 k = dynamic_at zs k"
      using Cons.IH [OF Cons.prems(1)] Cons.prems(2) by auto
    ultimately show ?thesis by (intro exI [of _ zs2] exI [of _ h2]) simp
  next
    fix d res d' h'
    assume l: "for_each (load_rr L) (DynamicRRs (zStatus z)) (d, h) = (res, (d', h'))"
      and i: "init_status L z (zs, h) = (res, (set_dynamic (zone_key L z) d' zs, h'))"
      and inv: "init_inv L origin (set_dynamic (zone_key L z) d' zs, h')"
      and at: "\<And>k. dynamic_at (set_dynamic (zone_key L z) d' zs) k =
        (if k = zone_key L z then Some d' else dynamic_at zs k)"
    have "res = None"
      using load_readable [of "DynamicRRs (zStatus z)" L "(d, h)"] l Cons.prems(2) by simp
    moreover obtain zs2 h2 where "for_each (init_status L) items (set_dynamic (zone_key L z) d' zs, h') =
        (None, (zs2, h2))" "init_inv L origin (zs2, h2)"
      "Names zs2 = Names zs" "Z zs2 = Z zs"
      "\<forall>k. k \<notin> zone_key L ` set items \<longrightarrow> dynamic_at zs2 k = dynamic_at (set_dynamic (zone_key L z) d' zs) k"
      using Cons.IH [OF inv] Cons.prems(2) by auto
    ultimately show ?thesis using i at by (intro exI [of _ zs2] exI [of _ h2]) simp
  qed
qed

text \<open>
  The loop that enters the objects: it ends, and every name it adds has a new, empty dynamic
  zone; the names are the old ones and keys of objects.
\<close>

lemma init_zones:
  assumes laws: "file_laws L origin norm intree" "alloc_laws L origin" and "init_inv L origin (zs, h)"
  shows "\<exists>zs' h'. for_each (init_zone L) items (zs, h) = (None, (zs', h')) \<and> init_inv L origin (zs', h') \<and>
    set (Names zs) \<subseteq> set (Names zs') \<and> set (Names zs') \<subseteq> set (Names zs) \<union> zone_key L ` set items \<and>
    (\<forall>k. dynamic_at zs' k = (if k \<in> set (Names zs') - set (Names zs)
      then Some (lNewZone L k '''') else dynamic_at zs k)) \<and>
    (\<forall>k \<in> set (Names zs). static_at zs' k = static_at zs k)"
  using assms(3)
proof (induction items arbitrary: zs h)
  case Nil
  then show ?case by (auto intro!: exI [of _ zs])
next
  case (Cons z items)
  show ?case
  proof (rule init_zone_step [OF laws Cons.prems refl, of z])
    fix h'
    assume "init_zone L z (zs, h) = (None, (zs, h'))" "init_inv L origin (zs, h')"
    then show ?thesis using Cons.IH [of zs h'] by auto
  next
    fix p h1 zs1
    assume i: "init_zone L z (zs, h) = (None, (zs1, h1))" and inv: "init_inv L origin (zs1, h1)"
      and new: "zone_key L z \<notin> set (Names zs)" and names: "Names zs1 = Names zs @ [zone_key L z]"
      and st: "static_at zs1 = (static_at zs)(zone_key L z \<mapsto> p)"
      and dy: "dynamic_at zs1 = (dynamic_at zs)(zone_key L z \<mapsto> lNewZone L (zone_key L z) '''')"
    obtain zs2 h2 where 2: "for_each (init_zone L) items (zs1, h1) = (None, (zs2, h2))"
      "init_inv L origin (zs2, h2)" "set (Names zs1) \<subseteq> set (Names zs2)"
      "set (Names zs2) \<subseteq> set (Names zs1) \<union> zone_key L ` set items"
      "\<forall>k. dynamic_at zs2 k = (if k \<in> set (Names zs2) - set (Names zs1)
        then Some (lNewZone L k '''') else dynamic_at zs1 k)"
      "\<forall>k \<in> set (Names zs1). static_at zs2 k = static_at zs1 k"
      using Cons.IH [OF inv] by blast
    have "\<forall>k. dynamic_at zs2 k = (if k \<in> set (Names zs2) - set (Names zs)
        then Some (lNewZone L k '''') else dynamic_at zs k)"
      using 2(3,5) names new dy by auto
    moreover have "\<forall>k \<in> set (Names zs). static_at zs2 k = static_at zs k"
      using 2(6) names new st by auto
    ultimately show ?thesis using i 2(1-4) names by (intro exI [of _ zs2] exI [of _ h2]) auto
  qed
qed

subsection \<open>Start-up as a whole\<close>

lemma init_namespace_step:
  assumes laws: "file_laws L origin norm intree" "alloc_laws L origin" and inv: "init_inv L origin s"
    and list: "kList L c n = Inr items"
    and texts: "\<forall>z \<in> set items. \<forall>d \<in> set (DynamicRRs (zStatus z)). readable L d"
  shows "\<exists>s'. init_namespace L c n s = (None, s') \<and> init_inv L origin s' \<and>
    set (Names (fst s)) \<subseteq> set (Names (fst s'))"
proof -
  obtain zs h where s: "s = (zs, h)" by (metis prod.exhaust)
  obtain zs1 h1 where 1: "for_each (init_zone L) items (zs, h) = (None, (zs1, h1))"
    "init_inv L origin (zs1, h1)" "set (Names zs) \<subseteq> set (Names zs1)"
    using init_zones [OF laws inv [unfolded s]] by blast
  obtain zs2 h2 where "for_each (init_status L) items (zs1, h1) = (None, (zs2, h2))"
    "init_inv L origin (zs2, h2)" "Names zs2 = Names zs1"
    using init_statuses [OF laws 1(2) texts] by blast
  with 1 list s show ?thesis by (simp add: init_namespace_def)
qed

lemma init_namespaces:
  assumes laws: "file_laws L origin norm intree" "alloc_laws L origin" and "init_inv L origin s"
    and "\<forall>n \<in> set nss. \<exists>items. kList L c n = Inr items \<and>
      (\<forall>z \<in> set items. \<forall>d \<in> set (DynamicRRs (zStatus z)). readable L d)"
  shows "\<exists>s'. for_each (init_namespace L c) nss s = (None, s') \<and> init_inv L origin s'"
  using assms(3,4)
proof (induction nss arbitrary: s)
  case Nil
  then show ?case by simp
next
  case (Cons n nss)
  then obtain items where items: "kList L c n = Inr items"
    "\<forall>z \<in> set items. \<forall>d \<in> set (DynamicRRs (zStatus z)). readable L d" by auto
  obtain s1 where "init_namespace L c n s = (None, s1)" "init_inv L origin s1"
    using init_namespace_step [OF laws Cons.prems(1) items] by blast
  then show ?case using Cons.IH [of s1] Cons.prems(2) by simp
qed

lemma initialize_safe:
  assumes laws: "file_laws L origin norm intree" "alloc_laws L origin"
    and ns: "directive_namespaces lines [] = (Inr (), nss)"
    and "\<forall>n \<in> set nss. \<exists>items. kList L c n = Inr items \<and>
      (\<forall>z \<in> set items. \<forall>d \<in> set (DynamicRRs (zStatus z)). readable L d)"
  shows "\<exists>zs h'. initialize L lines c h = (Ret (Inr zs), nss, h') \<and> zones_ok origin zs \<and> soas_ok L zs h'"
proof -
  obtain s' where s': "for_each (init_namespace L c) nss (no_zones, h) = (None, s')" "init_inv L origin s'"
    using init_namespaces [OF laws init_inv_start assms(4), of h] by blast
  obtain zs h' where "s' = (zs, h')" by (metis prod.exhaust)
  with s' ns show ?thesis by (simp add: initialize_def init_inv_def)
qed

text \<open>
  The status of an object that an update has written, loaded on start-up: the dynamic zone
  of the name has exactly the records that were served.
\<close>

lemma dynamic_texts_map: "dynamic_texts L h dz = map (\<lambda>rr. \<lparr>RR = lRRString L h rr\<rparr>) (records L dz)"
  by (simp add: dynamic_texts_def records_def map_concat comp_def)

lemma load_texts:
  assumes laws: "file_laws L origin norm intree" and "text_laws L printable"
    and "\<forall>r \<in> set (records L dz). printable r" and "origin dz = name"
  shows "\<exists>d. for_each (load_rr L) (dynamic_texts L h0 dz) (lNewZone L name f, h) = (None, (d, h)) \<and>
    set (records L d) = set (records L dz)"
proof -
  have tree: "r \<in> set (records L dz) \<Longrightarrow> intree name r" and "norm ` set (records L dz) = set (records L dz)" for r
    using stored_record [OF laws, of _ dz] assms(4) by (auto simp: image_iff)
  then show ?thesis
    using load_set_dynamic [OF laws assms(2), of "records L dz" name h0 "\<lparr>DynamicRRs = [], Serial = 0\<rparr>" f h]
      assms(3) by (auto simp: SetDynamicRRs_def dynamic_texts_map)
qed

lemma init_statuses_at:
  assumes laws: "file_laws L origin norm intree" "alloc_laws L origin" and inv: "init_inv L origin (zs, h)"
    and texts: "\<forall>z \<in> set items. \<forall>d \<in> set (DynamicRRs (zStatus z)). readable L d"
    and items: "items = pre @ obj # post" "zone_key L obj \<notin> zone_key L ` set (pre @ post)"
    and d0: "dynamic_at zs (zone_key L obj) = Some d0"
    and loads: "\<And>h. \<exists>d. for_each (load_rr L) (DynamicRRs (zStatus obj)) (d0, h) = (None, (d, h)) \<and> P d"
  shows "\<exists>zs' h' d. for_each (init_status L) items (zs, h) = (None, (zs', h')) \<and> init_inv L origin (zs', h') \<and>
    Names zs' = Names zs \<and> Z zs' = Z zs \<and> dynamic_at zs' (zone_key L obj) = Some d \<and> P d"
proof -
  have t: "\<forall>z \<in> set pre. \<forall>d \<in> set (DynamicRRs (zStatus z)). readable L d"
    "\<forall>z \<in> set post. \<forall>d \<in> set (DynamicRRs (zStatus z)). readable L d"
    using texts items(1) by auto
  obtain zs1 h1 where 1: "for_each (init_status L) pre (zs, h) = (None, (zs1, h1))"
    "init_inv L origin (zs1, h1)" "Names zs1 = Names zs" "Z zs1 = Z zs" "dynamic_at zs1 (zone_key L obj) = Some d0"
    using init_statuses [OF laws inv t(1)] items(2) d0 by auto
  obtain d where d: "for_each (load_rr L) (DynamicRRs (zStatus obj)) (d0, h1) = (None, (d, h1))" "P d"
    using loads by blast
  have known: "zone_key L obj \<in> set (Names zs1)"
    using 1(2,5) known_pointers(2) [of origin zs1 "zone_key L obj"] by (simp add: init_inv_def)
  obtain zs2 where 2: "init_status L obj (zs1, h1) = (None, (zs2, h1))" "init_inv L origin (zs2, h1)"
    "Names zs2 = Names zs1" "Z zs2 = Z zs1" "dynamic_at zs2 (zone_key L obj) = Some d"
    by (rule init_status_step [OF laws 1(2) refl, of obj]) (use known 1(5) d in \<open>auto simp: set_dynamic_def\<close>)
  obtain zs3 h3 where "for_each (init_status L) post (zs2, h1) = (None, (zs3, h3))"
    "init_inv L origin (zs3, h3)" "Names zs3 = Names zs2" "Z zs3 = Z zs2" "dynamic_at zs3 (zone_key L obj) = Some d"
    using init_statuses [OF laws 2(2) t(2)] items(2) 2(5) by auto
  with 1 2 d(2) items(1) show ?thesis by (auto simp: for_each_append)
qed

text \<open>The zone file of an object parses when start-up comes to it, after the objects in \<open>pre\<close>.\<close>

definition parses :: "('z, 'e, 'm) dns_lib_scheme \<Rightarrow> Zone list \<Rightarrow> Zone \<Rightarrow> serials \<Rightarrow> bool" where
  "parses L pre zone h \<longleftrightarrow>
     (case fst (lParse L (spZone (zSpec zone)) (zone_key L zone) ''stdin'' 0
         (snd (snd (for_each (init_zone L) pre (no_zones, h))))) of Inl e \<Rightarrow> False | Inr p \<Rightarrow> True)"

text \<open>The static zone a zone file stands for.\<close>

definition parse_of :: "('z, 'e, 'm) dns_lib_scheme \<Rightarrow> Zone \<Rightarrow> 'z \<Rightarrow> bool" where
  "parse_of L zone p \<longleftrightarrow> (\<exists>h h'. lParse L (spZone (zSpec zone)) (zone_key L zone) ''stdin'' 0 h = (Inr p, h'))"

text \<open>The first object of a name that is new is entered, when its zone file parses.\<close>

lemma init_zones_at:
  assumes laws: "file_laws L origin norm intree" "alloc_laws L origin"
    and new: "zone_key L obj \<notin> zone_key L ` set pre" and ok: "parses L pre obj h"
  shows "\<exists>zs' h' p. for_each (init_zone L) (pre @ obj # post) (no_zones, h) = (None, (zs', h')) \<and>
    init_inv L origin (zs', h') \<and> zone_key L obj \<in> set (Names zs') \<and>
    static_at zs' (zone_key L obj) = Some p \<and> parse_of L obj p"
proof -
  obtain zs1 h1 where 1: "for_each (init_zone L) pre (no_zones, h) = (None, (zs1, h1))" "init_inv L origin (zs1, h1)"
    "set (Names zs1) \<subseteq> zone_key L ` set pre"
    using init_zones [where h = h and items = pre, OF laws init_inv_start] by (auto simp: no_zones_def)
  then have new1: "zone_key L obj \<notin> set (Names zs1)" using new by blast
  obtain p zs2 h2 where 2: "init_zone L obj (zs1, h1) = (None, (zs2, h2))" "init_inv L origin (zs2, h2)"
    "zone_key L obj \<in> set (Names zs2)" "static_at zs2 (zone_key L obj) = Some p" "parse_of L obj p"
  proof (rule init_zone_step [OF laws 1(2) refl, of obj])
    fix h'
    assume "zone_key L obj \<in> set (Names zs1) \<or>
      (\<exists>e. fst (lParse L (spZone (zSpec obj)) (zone_key L obj) ''stdin'' 0 h1) = Inl e)"
    then show thesis using new1 ok 1(1) by (auto simp: parses_def split: sum.splits)
  next
    fix p h' zs'
    assume "lParse L (spZone (zSpec obj)) (zone_key L obj) ''stdin'' 0 h1 = (Inr p, h')"
      and "init_zone L obj (zs1, h1) = (None, (zs', h'))" and "init_inv L origin (zs', h')"
      and "Names zs' = Names zs1 @ [zone_key L obj]" and "static_at zs' = (static_at zs1)(zone_key L obj \<mapsto> p)"
    then show thesis using that [of zs' h' p] by (auto simp: parse_of_def)
  qed
  obtain zs3 h3 where 3: "for_each (init_zone L) post (zs2, h2) = (None, (zs3, h3))" "init_inv L origin (zs3, h3)"
    "set (Names zs2) \<subseteq> set (Names zs3)" "\<forall>k \<in> set (Names zs2). static_at zs3 k = static_at zs2 k"
    using init_zones [OF laws 2(2), of post] by blast
  have "for_each (init_zone L) (pre @ obj # post) (no_zones, h) = (None, (zs3, h3))"
    using 1(1) 2(1) 3(1) by (simp add: for_each_append)
  with 2(3-5) 3(2-4) show ?thesis by auto
qed

lemma restart_loads:
  assumes laws: "file_laws L origin norm intree" "alloc_laws L origin" and print: "text_laws L printable"
    and ns: "directive_namespaces lines [] = (Inr (), [n])" and list: "kList L c n = Inr items"
    and texts: "\<forall>z \<in> set items. \<forall>d \<in> set (DynamicRRs (zStatus z)). readable L d"
    and items: "items = pre @ obj # post" "zone_key L obj \<notin> zone_key L ` set (pre @ post)"
    and pfile: "parses L pre obj h"
    and dz: "origin dz = zone_key L obj" "\<forall>r \<in> set (records L dz). printable r"
    and st: "DynamicRRs (zStatus obj) = dynamic_texts L h0 dz"
  shows "\<exists>zs h' d p. initialize L lines c h = (Ret (Inr zs), [n], h') \<and> zones_ok origin zs \<and>
    zone_key L obj \<in> set (Names zs) \<and> static_at zs (zone_key L obj) = Some p \<and> parse_of L obj p \<and>
    dynamic_at zs (zone_key L obj) = Some d \<and> set (records L d) = set (records L dz)"
proof -
  have pre: "zone_key L obj \<notin> zone_key L ` set pre" using items(2) by auto
  obtain zs1 h1 p where 1: "for_each (init_zone L) items (no_zones, h) = (None, (zs1, h1))"
    "init_inv L origin (zs1, h1)" "zone_key L obj \<in> set (Names zs1)"
    "static_at zs1 (zone_key L obj) = Some p" "parse_of L obj p"
    using init_zones_at [OF laws pre pfile, of post] items(1) by blast
  have "\<forall>k. dynamic_at zs1 k = (if k \<in> set (Names zs1) then Some (lNewZone L k '''') else None)"
    using init_zones [where h = h and items = items, OF laws init_inv_start] 1(1)
    by (auto simp: no_zones_def ptr_at_def)
  with 1(3) have d0: "dynamic_at zs1 (zone_key L obj) = Some (lNewZone L (zone_key L obj) '''')" by simp
  have "\<exists>d. for_each (load_rr L) (DynamicRRs (zStatus obj)) (lNewZone L (zone_key L obj) '''', h) =
      (None, (d, h)) \<and> set (records L d) = set (records L dz)" for h
    using load_texts [OF laws(1) print dz(2) dz(1)] st by simp
  from init_statuses_at [OF laws 1(2) texts items d0 this]
  obtain zs2 h2 d where "for_each (init_status L) items (zs1, h1) = (None, (zs2, h2))"
    "init_inv L origin (zs2, h2)" "Names zs2 = Names zs1" "Z zs2 = Z zs1"
    "dynamic_at zs2 (zone_key L obj) = Some d" "set (records L d) = set (records L dz)"
    by blast
  then show ?thesis
    using ns list 1 by (simp add: initialize_def init_namespace_def init_inv_def)
qed

subsection \<open>Properties\<close>

text \<open>
  C20: start-up.  When every namespace can be listed and no stored text is empty, the plugin
  comes up with a table of zones in order whose static zones share no SOA struct, whatever
  zone files fail to parse and whichever records are refused.
\<close>

theorem startup_builds_table:
  assumes "file_laws L origin norm intree" and "alloc_laws L origin"
    and "directive_namespaces lines [] = (Inr (), nss)"
    and "\<forall>n \<in> set nss. \<exists>items. kList L c n = Inr items \<and>
      (\<forall>z \<in> set items. \<forall>d \<in> set (DynamicRRs (zStatus z)). readable L d)"
  shows "\<exists>zs h'. initialize L lines c h = (Ret (Inr zs), nss, h') \<and> zones_ok origin zs \<and> soas_ok L zs h'"
  using assms by (rule initialize_safe)

theorem startup_builds_table_witness:
  "\<exists>zs h'. initialize sample [[''d'', ''e'']] [ex_obj] Map.empty = (Ret (Inr zs), [''d'', ''e''], h') \<and>
     zones_ok szOrigin zs \<and> soas_ok sample zs h'"
  by (rule startup_builds_table [OF sample_file_laws sample_alloc_laws])
    (auto simp: s_list_def ex_obj_def)

text \<open>
  C2: an update that was answered with success survives a restart.  Whatever cluster the plugin
  is started on, if the namespace it is told lists an object of the zone with the status that the
  update has stored, and its zone file parses, no other object has its name, no stored text is
  empty and the records can be printed, then start-up succeeds and serves the zone: its name is in
  the table, its static zone is the parsed file, and its dynamic zone has exactly the records it
  had after the update.
\<close>

theorem update_survives_restart:
  assumes "file_laws L origin norm intree" and "alloc_laws L origin" and "text_laws L printable"
    and "plugin_ok origin \<sigma>" and "update_for L \<sigma> r zone"
    and "dynamic_at (dZones \<sigma>) zone = Some dz" and "static_at (dZones \<sigma>) zone = Some z"
    and "ServeDNS L now r \<sigma> = (Ret (RcodeSuccess, None), \<sigma>')"
  shows "\<exists>dz' obj'. dynamic_at (dZones \<sigma>') zone = Some dz' \<and>
    kStatusUpdate L (wCluster \<sigma>) obj' = (None, wCluster \<sigma>') \<and>
    (\<forall>c n pre obj post h. kList L c n = Inr (pre @ obj # post) \<longrightarrow> zStatus obj = zStatus obj' \<longrightarrow>
      zone_key L obj = zone \<longrightarrow> zone \<notin> zone_key L ` set (pre @ post) \<longrightarrow> parses L pre obj h \<longrightarrow> n \<noteq> ''*'' \<longrightarrow>
      (\<forall>x \<in> set (pre @ post). \<forall>d \<in> set (DynamicRRs (zStatus x)). readable L d) \<longrightarrow>
      (\<forall>rr \<in> set (records L dz'). printable rr) \<longrightarrow>
      (\<exists>zs h' d p. initialize L [[n]] c h = (Ret (Inr zs), [n], h') \<and> zones_ok origin zs \<and>
        zone \<in> set (Names zs) \<and> static_at zs zone = Some p \<and> parse_of L obj p \<and>
        dynamic_at zs zone = Some d \<and> set (records L d) = set (records L dz')))"
proof -
  have S: "serve_update L now zone dz r \<sigma> = (Ret (RcodeSuccess, None), \<sigma>')"
    using ServeDNS_update [OF assms(5,6)] assms(8) by simp
  obtain dz' obj where 1: "apply_updates L zone r dz = (None, (dz', []))"
    "dZones \<sigma>' = set_dynamic zone dz' (dZones \<sigma>)"
    "kStatusUpdate L (wCluster \<sigma>) (new_status L (wSerials \<sigma>) dz' (serial_of_ms now) obj) =
      (None, wCluster \<sigma>')"
    using serve_update_succeeded [OF assms(1,4,6,7) S] by blast
  have known: "zone \<in> set (Names (dZones \<sigma>))" and ori: "origin dz = zone"
    using known_pointers(2,4) [of origin "dZones \<sigma>" zone] assms(4,6) by (auto simp: plugin_ok_def)
  have ori': "origin dz' = zone" using apply_updates_origin [OF assms(1), of zone r dz] 1(1) ori by simp
  have dyn: "dynamic_at (dZones \<sigma>') zone = Some dz'"
    using zones_ok_set_dynamic(2) [OF assms(4) [unfolded plugin_ok_def] known ori'] 1(2) by simp
  let ?o = "new_status L (wSerials \<sigma>) dz' (serial_of_ms now) obj"
  have restart: "\<exists>zs h' d p. initialize L [[n]] c h = (Ret (Inr zs), [n], h') \<and> zones_ok origin zs \<and>
      zone \<in> set (Names zs) \<and> static_at zs zone = Some p \<and> parse_of L ob p \<and>
      dynamic_at zs zone = Some d \<and> set (records L d) = set (records L dz')"
    if list: "kList L c n = Inr (pre @ ob # post)" and st: "zStatus ob = zStatus ?o" and key: "zone_key L ob = zone"
      and uniq: "zone \<notin> zone_key L ` set (pre @ post)" and pfile: "parses L pre ob h" and star: "n \<noteq> ''*''"
      and rd: "\<forall>x \<in> set (pre @ post). \<forall>d \<in> set (DynamicRRs (zStatus x)). readable L d"
      and pr: "\<forall>rr \<in> set (records L dz'). printable rr" for c n pre ob post h
  proof -
    have own: "DynamicRRs (zStatus ob) = dynamic_texts L (wSerials \<sigma>) dz'" using st by (simp add: new_status_def)
    have "\<forall>d \<in> set (DynamicRRs (zStatus ob)). readable L d"
      using pr assms(3) unfolding own dynamic_texts_map readable_def text_laws_def by auto
    with rd have texts: "\<forall>x \<in> set (pre @ ob # post). \<forall>d \<in> set (DynamicRRs (zStatus x)). readable L d" by auto
    have "directive_namespaces [[n]] [] = (Inr (), [n])" using star by simp
    from restart_loads [OF assms(1-3) this list texts refl uniq [folded key] pfile _ pr own] key ori'
    show ?thesis by simp
  qed
  show ?thesis using dyn 1(3) restart by (intro exI [of _ dz'] exI [of _ ?o]) blast
qed

theorem update_survives_restart_witness:
  "\<exists>\<sigma>' st zs h' d p. ServeDNS sample 5 (ex_msg OpcodeUpdate [ex_txt ClassINET]) ex_plugin = (Ret (RcodeSuccess, None), \<sigma>') \<and>
     initialize sample [[''d'']] [ex_obj\<lparr>zStatus := st\<rparr>] [0 \<mapsto> 4] = (Ret (Inr zs), [''d''], h') \<and>
     ''a.org.'' \<in> set (Names zs) \<and> static_at zs ''a.org.'' = Some p \<and>
     dynamic_at zs ''a.org.'' = Some d \<and> set (records sample d) = {ex_txt ClassINET}"
proof -
  let ?r = "ex_msg OpcodeUpdate [ex_txt ClassINET]"
  have at: "dynamic_at (dZones ex_plugin) ''a.org.'' = Some ex_dyn"
    "static_at (dZones ex_plugin) ''a.org.'' = Some ex_zone" by simp_all
  obtain \<sigma>' dz1 where S: "ServeDNS sample 5 ?r ex_plugin = (Ret (RcodeSuccess, None), \<sigma>')"
    and dz1: "dynamic_at (dZones \<sigma>') ''a.org.'' = Some dz1" "set (records sample dz1) = {ex_txt ClassINET}"
    using ex_success by blast
  obtain dz' and obj' :: Zone where dz': "dynamic_at (dZones \<sigma>') ''a.org.'' = Some dz'"
    and R: "\<forall>c n pre obj post h. kList sample c n = Inr (pre @ obj # post) \<longrightarrow> zStatus obj = zStatus obj' \<longrightarrow>
      zone_key sample obj = ''a.org.'' \<longrightarrow> ''a.org.'' \<notin> zone_key sample ` set (pre @ post) \<longrightarrow>
      parses sample pre obj h \<longrightarrow> n \<noteq> ''*'' \<longrightarrow>
      (\<forall>x \<in> set (pre @ post). \<forall>d \<in> set (DynamicRRs (zStatus x)). readable sample d) \<longrightarrow>
      (\<forall>rr \<in> set (records sample dz'). s_printable rr) \<longrightarrow>
      (\<exists>zs h' d p. initialize sample [[n]] c h = (Ret (Inr zs), [n], h') \<and> zones_ok szOrigin zs \<and>
        ''a.org.'' \<in> set (Names zs) \<and> static_at zs ''a.org.'' = Some p \<and> parse_of sample obj p \<and>
        dynamic_at zs ''a.org.'' = Some d \<and> set (records sample d) = set (records sample dz'))"
    using update_survives_restart [OF sample_file_laws sample_alloc_laws sample_text_laws ex_plugin_ok
        ex_update_for at S] by blast
  have rec: "set (records sample dz') = {ex_txt ClassINET}" using dz' dz1 by simp
  let ?o = "ex_obj\<lparr>zStatus := zStatus obj'\<rparr>"
  have pfile: "parses sample [] ?o [0 \<mapsto> 4]"
    using ex_parse by (auto simp: parses_def ex_obj_def ex_meta_def s_fqdn_def no_zones_def)
  have "kList sample [?o] ''d'' = Inr ([] @ ?o # [])" "zStatus ?o = zStatus obj'"
    "zone_key sample ?o = ''a.org.''" "''a.org.'' \<notin> zone_key sample ` set ([] @ [])" "''d'' \<noteq> ''*''"
    "\<forall>x \<in> set ([] @ [] :: Zone list). \<forall>d \<in> set (DynamicRRs (zStatus x)). readable sample d"
    "\<forall>rr \<in> set (records sample dz'). s_printable rr"
    by (simp_all add: s_list_def ex_obj_def ex_meta_def s_fqdn_def rec s_printable_def ex_txt_def)
  with pfile have "\<exists>zs h' d p. initialize sample [[''d'']] [?o] [0 \<mapsto> 4] = (Ret (Inr zs), [''d''], h') \<and> zones_ok szOrigin zs \<and>
      ''a.org.'' \<in> set (Names zs) \<and> static_at zs ''a.org.'' = Some p \<and> parse_of sample ?o p \<and>
      dynamic_at zs ''a.org.'' = Some d \<and> set (records sample d) = set (records sample dz')"
    using R [THEN spec, of "[?o]", THEN spec, of "''d''", THEN spec, of "[]", THEN spec, of ?o,
        THEN spec, of "[]", THEN spec, of "[0 \<mapsto> 4]"] by blast
  with S rec show ?thesis by blast
qed

text \<open>
  An empty record text in the status of an object stops the server.  The parser returns no
  record and no error for it, and inserting the nil record panics during start-up.
\<close>

lemma empty_text_panics_startup:
  assumes "file_laws L origin norm intree" and "alloc_laws L origin" and "n \<noteq> ''*''"
    and "kList L c n = Inr [obj]" and "DynamicRRs (zStatus obj) = [d]"
    and "lParse L (spZone (zSpec obj)) (zone_key L obj) ''stdin'' 0 h = (Inr p, h1)"
    and "lNewRR L (RR d) h1 = (Inr None, h2)"
  shows "fst (initialize L [[n]] c h) = Panic"
proof -
  have entered: "\<exists>zs. init_zone L obj (no_zones, h) = (None, (zs, h1)) \<and>
      zone_key L obj \<in> set (Names zs) \<and> zones_ok origin zs"
  proof (rule init_zone_step [where zone = obj and h = h, OF assms(1,2) init_inv_start refl])
    fix p' h' zs'
    assume "lParse L (spZone (zSpec obj)) (zone_key L obj) ''stdin'' 0 h = (Inr p', h')"
      and "init_zone L obj (no_zones, h) = (None, (zs', h'))" and "init_inv L origin (zs', h')"
      and "Names zs' = Names no_zones @ [zone_key L obj]"
    then show ?thesis using assms(6) by (auto simp: init_inv_def)
  next
    fix h'
    assume "zone_key L obj \<in> set (Names no_zones) \<or>
      (\<exists>e. fst (lParse L (spZone (zSpec obj)) (zone_key L obj) ''stdin'' 0 h) = Inl e)"
    then show ?thesis using assms(6) by (simp add: no_zones_def)
  qed
  then obtain zs where zs: "init_zone L obj (no_zones, h) = (None, (zs, h1))"
    "gm_get (Z zs) (zone_key L obj) \<noteq> None" using zones_ok_names by blast
  then have "fst (init_status L obj (zs, h1)) = Some ()"
    using assms(5,7) by (simp add: init_status_def init_rr_def Let_def)
  then obtain s2 where "init_status L obj (zs, h1) = (Some (), s2)" by (metis prod.collapse)
  then show ?thesis
    using zs(1) assms(3,4) by (cases s2) (simp add: initialize_def init_namespace_def)
qed

lemma empty_text_panics_startup_witness:
  "fst (initialize sample [[''d'']] [ex_obj\<lparr>zStatus := \<lparr>DynamicRRs = [\<lparr>RR = ''''\<rparr>], Serial = 0\<rparr>\<rparr>] [0 \<mapsto> 4]) = Panic"
proof -
  let ?o = "ex_obj\<lparr>zStatus := \<lparr>DynamicRRs = [\<lparr>RR = ''''\<rparr>], Serial = 0\<rparr>\<rparr>"
  have n: "''d'' \<noteq> ''*''" by simp
  have list: "kList sample [?o] ''d'' = Inr [?o]" by (simp add: s_list_def ex_obj_def ex_meta_def)
  have rrs: "DynamicRRs (zStatus ?o) = [\<lparr>RR = ''''\<rparr>]" by simp
  obtain p h1 where parse: "lParse sample (spZone (zSpec ?o)) (zone_key sample ?o) ''stdin'' 0 [0 \<mapsto> 4] = (Inr p, h1)"
    using ex_parse by (auto simp: ex_obj_def ex_meta_def s_fqdn_def)
  have "lNewRR sample (RR \<lparr>RR = ''''\<rparr>) h1 = (Inr None, h1)" by (simp add: s_newrr_def)
  from empty_text_panics_startup [OF sample_file_laws sample_alloc_laws n list rrs parse this] show ?thesis .
qed

text \<open>
  The star of the directive is no wildcard.  A line whose first argument is a star drops
  the namespaces of the lines before it, and the star itself stays in the list as if it were
  the name of a namespace; a line with no argument is an error.
\<close>

theorem star_is_kept_as_namespace:
  assumes "[] \<notin> set ls" and "\<forall>l \<in> set ls. hd l \<noteq> ''*''" and "[] \<notin> set pre"
  shows "directive_namespaces (pre @ (''*'' # as) # ls) nss = (Inr (), ''*'' # as @ concat ls) \<and>
    fst (directive_namespaces (pre @ [] # ls) nss) = Inl ArgErr"
  using directive_namespaces_star [OF assms] directive_namespaces_err [of "pre @ [] # ls" nss] by simp

theorem star_is_kept_as_namespace_witness:
  "directive_namespaces [[''a''], [''*''], [''b'', ''c'']] [] = (Inr (), [''*'', ''b'', ''c''])"
  using star_is_kept_as_namespace [of "[[''b'', ''c'']]" "[[''a'']]" "[]" "[]"] by simp

text \<open>
  C35: the status of a Zone resource round-trips.  The records set in a status, printed as text,
  come back as a zone of that name with exactly their canonical forms; an empty list comes
  back as no zone or an empty one, never as a panic.
\<close>

theorem status_roundtrip:
  assumes "file_laws L origin norm intree" and "text_laws L printable"
    and "\<forall>r \<in> set rs. printable r \<and> intree name r"
  shows "\<exists>z. GetDynamicRRsAsZone L (SetDynamicRRs L h0 rs st) name h = (Ret z, h) \<and>
    (case z of None \<Rightarrow> rs = [] | Some z \<Rightarrow> set (records L z) = norm ` set rs \<and> origin z = name)"
proof -
  obtain z where z: "for_each (load_rr L) (DynamicRRs (SetDynamicRRs L h0 rs st)) (lNewZone L name '''', h) =
      (None, (z, h))" "set (records L z) = norm ` set rs" "origin z = name"
    using load_set_dynamic [OF assms(1,2), of rs name h0 st "''''" h] assms(3) by auto
  moreover have "lAll L z = [] \<Longrightarrow> rs = []" using z(2) by (simp add: records_def)
  ultimately show ?thesis
    by (cases "lAll L z = []") (simp_all add: GetDynamicRRsAsZone_def)
qed

theorem status_roundtrip_witness:
  "\<exists>z. GetDynamicRRsAsZone sample (SetDynamicRRs sample Map.empty [ex_txt ClassINET]
       \<lparr>DynamicRRs = [], Serial = 0\<rparr>) ''a.org.'' Map.empty = (Ret (Some z), Map.empty) \<and>
     set (records sample z) = {ex_txt ClassINET}"
proof -
  have "\<forall>r \<in> set [ex_txt ClassINET]. s_printable r \<and> s_intree ''a.org.'' r"
    by (simp add: s_printable_def s_intree_def ex_txt_def type_defs)
  from status_roundtrip [OF sample_file_laws sample_text_laws this, of Map.empty
      "\<lparr>DynamicRRs = [], Serial = 0\<rparr>" Map.empty]
  show ?thesis by (auto split: option.splits)
qed

end
