(* ===== verification/PluginMachine.thy ===== *)
theory PluginMachine
  imports Initialize
begin

text \<open>
  The plugin as a machine: it starts with what \<open>initialize\<close> builds and then serves
  requests, transfers and reconciles in any order, while the cluster changes by itself.
  The invariant (table of zones in order, SOA structs not shared, trace of locks balanced)
  is shown through the locale \<open>invariant_machine\<close>, so it holds in every reachable state,
  and with it that no request and no reconcile panics.  The last section drops the
  assumption that a request is one step: an action of the controller between the two
  lookups of \<open>ServeDNS\<close>.
\<close>

subsection \<open>Steps\<close>

inductive plugin_step ::
  "('z, 'e, 'c, 'm) plugin_lib_scheme \<Rightarrow> ('z, 'c) plugin \<Rightarrow> ('z, 'c) plugin \<Rightarrow> bool" for L where
  request: "plugin_step L \<sigma> (snd (ServeDNS L now r \<sigma>))"
| reconcile: "plugin_step L \<sigma> (snd (Reconcile L ns nm \<sigma>))"
| transfer: "plugin_step L \<sigma> (snd (Transfer L zone serial \<sigma>))"
| cluster: "plugin_step L \<sigma> (\<sigma>\<lparr>wCluster := c\<rparr>)"

inductive_cases plugin_stepE: "plugin_step L \<sigma> \<sigma>'"

definition plugin_start ::
  "('z, 'e, 'c, 'm) plugin_lib_scheme \<Rightarrow> string list list \<Rightarrow> 'c \<Rightarrow> serials \<Rightarrow> ('z, 'c) plugin \<Rightarrow> bool" where
  "plugin_start L lines c h \<sigma> =
     (case initialize L lines c h of
        (Ret (Inr zs), nss, h') \<Rightarrow> \<sigma> = start_plugin nss zs h' c
      | _ \<Rightarrow> False)"

definition lib_ok ::
  "('z, 'e, 'm) dns_lib_scheme \<Rightarrow> ('z \<Rightarrow> string) \<Rightarrow> (prr \<Rightarrow> prr) \<Rightarrow> (string \<Rightarrow> prr \<Rightarrow> bool) \<Rightarrow> bool" where
  "lib_ok L origin norm intree \<longleftrightarrow>
     file_laws L origin norm intree \<and> alloc_laws L origin \<and> match_laws L"

definition plugin_inv :: "('z, 'e, 'm) file_lib_scheme \<Rightarrow> ('z \<Rightarrow> string) \<Rightarrow> ('z, 'c) plugin \<Rightarrow> bool" where
  "plugin_inv L origin \<sigma> \<longleftrightarrow>
     plugin_ok origin \<sigma> \<and> soas_ok L (dZones \<sigma>) (wSerials \<sigma>) \<and> balanced (wTrace \<sigma>)"

subsection \<open>Start-up\<close>

lemma init_zone_inv:
  assumes laws: "file_laws L origin norm intree" "alloc_laws L origin" and inv: "init_inv L origin s"
  shows "init_inv L origin (snd (init_zone L z s))"
proof -
  obtain zs h where s: "s = (zs, h)" by (metis prod.exhaust)
  show ?thesis
    unfolding s by (rule init_zone_step [OF laws inv [unfolded s] refl, of z]) simp_all
qed

lemma init_status_inv:
  assumes laws: "file_laws L origin norm intree" "alloc_laws L origin" and inv: "init_inv L origin s"
  shows "init_inv L origin (snd (init_status L z s))"
proof -
  obtain zs h where s: "s = (zs, h)" by (metis prod.exhaust)
  show ?thesis
    unfolding s by (rule init_status_step [OF laws inv [unfolded s] refl, of z])
      (use inv s in simp_all)
qed

lemma init_namespace_inv:
  assumes laws: "file_laws L origin norm intree" "alloc_laws L origin" and inv: "init_inv L origin s"
  shows "init_inv L origin (snd (init_namespace L c n s))"
proof -
  have zones: "init_inv L origin (snd (for_each (init_zone L) items s))" for items
    by (rule for_each_invariant [where P = "init_inv L origin", OF _ inv])
      (rule init_zone_inv [OF laws])
  have stats: "init_inv L origin t \<Longrightarrow> init_inv L origin (snd (for_each (init_status L) items t))" for items t
    by (rule for_each_invariant [where P = "init_inv L origin"])
      (simp_all add: init_status_inv [OF laws])
  have *: "init_inv L origin s1" if "for_each (init_zone L) items s = (x, s1)" for x items s1
    using zones [of items] that by simp
  have **: "init_inv L origin s2" if "init_inv L origin s1" "for_each (init_status L) items s1 = (x, s2)"
    for x items s1 s2
    using stats [OF that(1), of items] that(2) by simp
  show ?thesis
    by (auto simp: init_namespace_def inv split: sum.splits prod.splits option.splits dest: * intro: **)
qed

lemma initialize_inv:
  assumes laws: "file_laws L origin norm intree" "alloc_laws L origin"
    and i: "initialize L lines c h = (Ret (Inr zs), nss, h')"
  shows "zones_ok origin zs" and "soas_ok L zs h'"
proof -
  have "init_inv L origin (snd (for_each (init_namespace L c) n (no_zones, h)))" for n
    by (rule for_each_invariant [where P = "init_inv L origin", OF _ init_inv_start])
      (rule init_namespace_inv [OF laws])
  moreover obtain n where "for_each (init_namespace L c) n (no_zones, h) = (None, (zs, h'))"
    using i by (auto simp: initialize_def split: prod.splits sum.splits option.splits go.splits)
  ultimately have "init_inv L origin (zs, h')" by (metis snd_conv)
  then show "zones_ok origin zs" and "soas_ok L zs h'" by (simp_all add: init_inv_def)
qed

lemma start_inv:
  assumes "lib_ok L origin norm intree" and "plugin_start L lines c h \<sigma>"
  shows "plugin_inv L origin \<sigma>"
proof -
  obtain zs nss h' where i: "initialize L lines c h = (Ret (Inr zs), nss, h')"
    and \<sigma>: "\<sigma> = start_plugin nss zs h' c"
    using assms(2) by (auto simp: plugin_start_def split: prod.splits go.splits sum.splits)
  have "file_laws L origin norm intree" "alloc_laws L origin" using assms(1) by (auto simp: lib_ok_def)
  from initialize_inv [OF this i] show ?thesis
    by (simp add: \<sigma> start_plugin_def plugin_inv_def plugin_ok_def)
qed

subsection \<open>Steps keep the invariant\<close>

lemma lock_clean_balanced: "lock_clean \<sigma> \<sigma>' \<Longrightarrow> balanced (wTrace \<sigma>) \<Longrightarrow> balanced (wTrace \<sigma>')"
  by (auto simp: lock_clean_def balanced_append)

lemma Transfer_state: "snd (Transfer L zone serial \<sigma>) = snd (Merge L zone \<sigma>)"
  by (simp add: Transfer_def split: prod.splits option.splits)

lemma step_inv:
  assumes lib: "lib_ok L origin norm intree" and "plugin_step L \<sigma> \<sigma>'" and inv: "plugin_inv L origin \<sigma>"
  shows "plugin_inv L origin \<sigma>'"
proof -
  have laws: "file_laws L origin norm intree" "alloc_laws L origin" "match_laws L"
    using lib by (simp_all add: lib_ok_def)
  have ok: "plugin_ok origin \<sigma>" and soas: "soas_ok L (dZones \<sigma>) (wSerials \<sigma>)" and bal: "balanced (wTrace \<sigma>)"
    using inv by (simp_all add: plugin_inv_def)
  from assms(2) show ?thesis
  proof (rule plugin_stepE)
    fix now r
    assume "\<sigma>' = snd (ServeDNS L now r \<sigma>)"
    then show ?thesis
      using ServeDNS_safe(2,3) [OF laws(1,3) ok, of now r] ServeDNS_soas [OF laws(1,3) ok soas, of now r]
        lock_clean_balanced bal by (auto simp: plugin_inv_def)
  next
    fix ns nm
    assume "\<sigma>' = snd (Reconcile L ns nm \<sigma>)"
    then show ?thesis
      using Reconcile_safe(2,3) [OF laws(1,2) ok, of ns nm] Reconcile_safe(4) [OF laws(1,2) ok soas, of ns nm]
        lock_clean_balanced bal by (auto simp: plugin_inv_def)
  next
    fix zone serial
    assume "\<sigma>' = snd (Transfer L zone serial \<sigma>)"
    then show ?thesis
      using lock_clean_balanced [OF Merge_lock_clean bal] ok soas
      by (simp add: plugin_inv_def plugin_ok_def Transfer_state)
  next
    fix c
    assume "\<sigma>' = \<sigma>\<lparr>wCluster := c\<rparr>"
    then show ?thesis using ok soas bal by (simp add: plugin_inv_def plugin_ok_def)
  qed
qed

interpretation pm: invariant_machine "plugin_start L lines c h" "plugin_step L"
  "\<lambda>\<sigma>. lib_ok L origin norm intree \<longrightarrow> plugin_inv L origin \<sigma>"
  for L :: "('z, 'e, 'c, 'm) plugin_lib_scheme" and lines c h origin norm intree
  by unfold_locales (blast intro: start_inv step_inv)+

lemma reachable_inv:
  assumes "lib_ok L origin norm intree" and "plugin_start L lines c h \<sigma>" and "(plugin_step L)\<^sup>*\<^sup>* \<sigma> \<sigma>'"
  shows "plugin_inv L origin \<sigma>'"
  using pm.reach_inv [OF assms(2,3)] assms(1) by blast

subsection \<open>A reconcile between the two lookups of a request\<close>

text \<open>
  \<open>ServeDNS\<close> reads the table without the lock of \<open>Zones\<close>: it looks up the dynamic zone, and
  only later merges.  \<open>ServeDNS_split\<close> is the handler with an action of another goroutine
  in between.
\<close>

definition ServeDNS_split ::
  "('z, 'e, 'c, 'm) plugin_lib_scheme \<Rightarrow> int \<Rightarrow> msg \<Rightarrow> (('z, 'c) plugin \<Rightarrow> ('z, 'c) plugin) \<Rightarrow>
   ('z, 'c) plugin \<Rightarrow> dns_result go \<times> ('z, 'c) plugin" where
  "ServeDNS_split L now r other \<sigma> =
     (let qname = lReqName L r;
          zone = lMatches L (Names (dZones \<sigma>)) qname in
      if zone = '''' then (Ret (lNext L r), \<sigma>)
      else case ptr_at (DynamicZones (dZones \<sigma>)) zone of
        None \<Rightarrow> (Ret (RcodeServerFailure, None), \<sigma>)
      | Some dz \<Rightarrow>
          if lReqQType L r = TypeAXFR \<or> lReqQType L r = TypeIXFR then (Ret (RcodeRefused, None), \<sigma>)
          else if Opcode r = OpcodeNotify then (Ret (RcodeSuccess, None), \<sigma>)
          else if Opcode r = OpcodeUpdate then serve_update L now zone dz r \<sigma>
          else serve_query L zone qname r (other \<sigma>))"

lemma ServeDNS_split_alone: "ServeDNS_split L now r (\<lambda>\<sigma>. \<sigma>) \<sigma> = ServeDNS L now r \<sigma>"
  by (simp add: ServeDNS_split_def ServeDNS_def)

lemma split_query:
  assumes ok: "plugin_ok origin \<sigma>" and zone: "zone = lMatches L (Names (dZones \<sigma>)) (lReqName L r)"
    and known: "zone \<in> set (Names (dZones \<sigma>))" "zone \<noteq> []"
    and "lReqQType L r \<noteq> TypeAXFR" "lReqQType L r \<noteq> TypeIXFR"
    and "Opcode r \<noteq> OpcodeNotify" "Opcode r \<noteq> OpcodeUpdate"
  shows "ServeDNS_split L now r other \<sigma> = serve_query L zone (lReqName L r) r (other \<sigma>)"
proof -
  obtain dz where "dynamic_at (dZones \<sigma>) zone = Some dz"
    using Merge_known [OF ok known(1), of L] by blast
  then show ?thesis using assms by (simp add: ServeDNS_split_def Let_def)
qed

lemma deleted_query_panics:
  assumes "kCacheGet L (wCluster \<sigma>) ns nm = Inr obj" and "isDeleting obj"
    and "zone = lFqdn L (omName (zMeta obj))" and "plugin_ok origin \<sigma>"
    and "zone \<in> set (Names (dZones \<sigma>))"
  shows "fst (serve_query L zone qname r (snd (Reconcile L ns nm \<sigma>))) = Panic"
proof -
  have "gm_get (Z (dZones \<sigma>)) zone \<noteq> None"
    using assms(4,5) zones_ok_names by (auto simp: plugin_ok_def)
  then have "static_at (dZones (snd (Reconcile L ns nm \<sigma>))) zone = None"
    using Reconcile_delete [OF assms(1,2)] assms(3) by simp
  then show ?thesis using serve_query_unknown by (metis fst_conv)
qed

subsection \<open>Properties\<close>

text \<open>
  C4: the plugin never panics as long as requests are served one at a time.  In every state
  reachable from start-up by requests, transfers, reconciles and changes of the cluster, the
  table of zones is in order, no SOA struct is shared between zones, the locks are balanced,
  and neither the next request nor the next reconcile panics.
\<close>

theorem reachable_states_never_panic:
  assumes "lib_ok L origin norm intree" and "plugin_start L lines c h \<sigma>"
    and "(plugin_step L)\<^sup>*\<^sup>* \<sigma> \<sigma>'"
  shows "plugin_inv L origin \<sigma>' \<and> fst (ServeDNS L now r \<sigma>') \<noteq> Panic \<and> fst (Reconcile L ns nm \<sigma>') \<noteq> Panic"
proof -
  have inv: "plugin_inv L origin \<sigma>'" by (rule reachable_inv [OF assms])
  have laws: "file_laws L origin norm intree" "alloc_laws L origin" "match_laws L"
    using assms(1) by (simp_all add: lib_ok_def)
  have ok: "plugin_ok origin \<sigma>'" using inv by (simp add: plugin_inv_def)
  show ?thesis
    using inv ServeDNS_safe(1) [OF laws(1,3) ok] Reconcile_safe(1) [OF laws(1,2) ok] by blast
qed

theorem reachable_states_never_panic_witness:
  "\<exists>\<sigma>. plugin_start sample [[''d'']] [] Map.empty \<sigma> \<and>
     fst (ServeDNS sample 5 ex_query (snd (ServeDNS sample 4 (ex_msg OpcodeUpdate []) \<sigma>))) \<noteq> Panic"
proof -
  let ?s = "start_plugin [''d''] no_zones Map.empty []"
  have start: "plugin_start sample [[''d'']] [] Map.empty ?s"
    by (simp add: plugin_start_def initialize_def init_namespace_def s_list_def)
  have lib: "lib_ok sample szOrigin (\<lambda>r. r) s_intree"
    by (simp add: lib_ok_def sample_file_laws sample_alloc_laws sample_match_laws)
  have "(plugin_step sample)\<^sup>*\<^sup>* ?s (snd (ServeDNS sample 4 (ex_msg OpcodeUpdate []) ?s))"
    by (rule r_into_rtranclp, rule plugin_step.request)
  from reachable_states_never_panic [OF lib start this] start show ?thesis by blast
qed

text \<open>
  C27: without that assumption it can panic.  \<open>ServeDNS\<close> does not hold the lock of the table, so
  a reconcile that removes the zone between the handler's two lookups makes the merge return
  nil, and the query dereferences it.
\<close>

theorem query_races_with_removal:
  assumes "plugin_ok origin \<sigma>" and "query_for L \<sigma> r zone" and "zone \<in> set (Names (dZones \<sigma>))"
    and "kCacheGet L (wCluster \<sigma>) ns nm = Inr obj" and "isDeleting obj"
    and "zone = lFqdn L (omName (zMeta obj))"
  shows "fst (ServeDNS_split L now r (\<lambda>s. s) \<sigma>) \<noteq> Panic \<and>
    fst (ServeDNS_split L now r (\<lambda>s. snd (Reconcile L ns nm s)) \<sigma>) = Panic"
proof -
  have q: "zone = lMatches L (Names (dZones \<sigma>)) (lReqName L r)" "zone \<noteq> []"
    "lReqQType L r \<noteq> TypeAXFR" "lReqQType L r \<noteq> TypeIXFR"
    "Opcode r \<noteq> OpcodeNotify" "Opcode r \<noteq> OpcodeUpdate"
    using assms(2) by (auto simp: query_for_def)
  note split = split_query [OF assms(1) q(1) assms(3) q(2-6)]
  obtain z dz where z: "static_at (dZones \<sigma>) zone = Some z" "dynamic_at (dZones \<sigma>) zone = Some dz"
    using Merge_known [OF assms(1,3), of L] by blast
  have "fst (serve_query L zone (lReqName L r) r \<sigma>) \<noteq> Panic"
    by (rule serve_query_outcome [OF z, of L "lReqName L r" r]) simp_all
  moreover have "fst (serve_query L zone (lReqName L r) r (snd (Reconcile L ns nm \<sigma>))) = Panic"
    by (rule deleted_query_panics [OF assms(4-6,1,3)])
  ultimately show ?thesis using split by simp
qed

theorem query_races_with_removal_witness:
  "fst (ServeDNS_split sample 5 ex_query (\<lambda>s. snd (Reconcile sample ''d'' ''a.org'' s))
     (ex_plugin\<lparr>wCluster := [ex_deleted]\<rparr>)) = Panic"
proof -
  let ?s = "ex_plugin\<lparr>wCluster := [ex_deleted]\<rparr>"
  have q: "query_for sample ?s ex_query ''a.org.''"
    by (simp add: query_for_def s_matches_def ex_query_def type_defs opcode_defs)
  have known: "''a.org.'' \<in> set (Names (dZones ?s))" by simp
  from query_races_with_removal [OF ex_deleted_simps(3) q known ex_cache_deleted ex_deleted_simps(1)
      ex_deleted_simps(2) [symmetric]] show ?thesis by blast
qed

end
