(* ===== verification/Locks.thy ===== *)
theory Locks
  imports PluginMachine
begin

text \<open>
  Several goroutines on the locks of the zones.  Each runs the lock events of a trace of the
  plugin under the rules of Go's \<open>sync.RWMutex\<close>: a writer first announces itself, which
  keeps new readers out, then waits for the readers inside.  An update reads-locks its
  dynamic zone and, inside, \<open>Merge\<close> read-locks it again; with a second update waiting for
  the write lock in between, neither goroutine can go on.
\<close>

subsection \<open>The mutex and the goroutines\<close>

text \<open>
  \<open>Idle\<close> nobody writes; \<open>Announced i\<close> goroutine \<open>i\<close> has announced itself and waits for the
  readers; \<open>Writing i\<close> it has the lock.
\<close>

datatype writer = Idle | Announced nat | Writing nat

type_synonym mutexes = "lockid \<Rightarrow> writer \<times> nat"

text \<open>
  One step of goroutine \<open>i\<close> whose next event is \<open>e\<close>: whether the event is done, and the
  mutexes; \<open>None\<close> when the goroutine has to wait.
\<close>

fun lock_step :: "nat \<Rightarrow> event \<Rightarrow> mutexes \<Rightarrow> (bool \<times> mutexes) option" where
  "lock_step i (ELock l) m =
     (case m l of
        (Idle, n) \<Rightarrow> Some (False, m(l := (Announced i, n)))
      | (Announced j, n) \<Rightarrow> if j = i \<and> n = 0 then Some (True, m(l := (Writing i, 0))) else None
      | (Writing j, n) \<Rightarrow> None)"
| "lock_step i (EUnlock l) m =
     (case m l of (Writing j, n) \<Rightarrow> Some (True, m(l := (Idle, n))) | _ \<Rightarrow> None)"
| "lock_step i (ERLock l) m =
     (case m l of (Idle, n) \<Rightarrow> Some (True, m(l := (Idle, Suc n))) | _ \<Rightarrow> None)"
| "lock_step i (ERUnlock l) m =
     (case m l of (w, Suc n) \<Rightarrow> Some (True, m(l := (w, n))) | (w, 0) \<Rightarrow> None)"
| "lock_step i _ m = Some (True, m)"

type_synonym goroutines = "event list list \<times> mutexes"

definition can_step :: "goroutines \<Rightarrow> nat \<Rightarrow> bool" where
  "can_step s i \<longleftrightarrow> i < length (fst s) \<and>
     (case fst s ! i of [] \<Rightarrow> False | e # es \<Rightarrow> lock_step i e (snd s) \<noteq> None)"

definition go_step :: "nat \<Rightarrow> goroutines \<Rightarrow> goroutines option" where
  "go_step i s =
     (if i < length (fst s) then
        (case fst s ! i of
           [] \<Rightarrow> None
         | e # es \<Rightarrow>
             (case lock_step i e (snd s) of
                None \<Rightarrow> None
              | Some (True, m) \<Rightarrow> Some ((fst s)[i := es], m)
              | Some (False, m) \<Rightarrow> Some (fst s, m)))
      else None)"

text \<open>A schedule is the list of the goroutines that run, in order.\<close>

fun run_schedule :: "nat list \<Rightarrow> goroutines \<Rightarrow> goroutines option" where
  "run_schedule [] s = Some s"
| "run_schedule (i # is) s = Option.bind (go_step i s) (run_schedule is)"

definition start_goroutines :: "event list list \<Rightarrow> goroutines" where
  "start_goroutines trs = (trs, \<lambda>_. (Idle, 0))"

definition finished :: "goroutines \<Rightarrow> bool" where
  "finished s \<longleftrightarrow> list_all (\<lambda>tr. tr = []) (fst s)"

definition deadlocked :: "goroutines \<Rightarrow> bool" where
  "deadlocked s \<longleftrightarrow> \<not> finished s \<and> list_all (\<lambda>i. \<not> can_step s i) [0..<length (fst s)]"

subsection \<open>The lock events of an update and of a query\<close>

definition lock_event :: "event \<Rightarrow> bool" where
  "lock_event e = (case e of ELock _ \<Rightarrow> True | EUnlock _ \<Rightarrow> True | ERLock _ \<Rightarrow> True
     | ERUnlock _ \<Rightarrow> True | _ \<Rightarrow> False)"

definition lock_events :: "event list \<Rightarrow> event list" where
  "lock_events tr = filter lock_event tr"

definition update_locks :: "string \<Rightarrow> event list" where
  "update_locks zone = [ELock (LDyn zone), EUnlock (LDyn zone), ERLock (LDyn zone)] @
     merge_locks zone @ [ERUnlock (LDyn zone)]"

lemma lock_events_simps [simp]:
  "lock_events [] = []"
  "lock_events (e # tr) = (if lock_event e then e # lock_events tr else lock_events tr)"
  "lock_events (xs @ ys) = lock_events xs @ lock_events ys"
  by (simp_all add: lock_events_def)

lemma lock_event_simps [simp]:
  "lock_event (ELock l)" "lock_event (EUnlock l)" "lock_event (ERLock l)" "lock_event (ERUnlock l)"
  "\<not> lock_event (ENotify n)" "\<not> lock_event (EPersisted z)" "\<not> lock_event (EWrite m)"
  by (simp_all add: lock_event_def)

lemma lock_events_merge [simp]: "lock_events (merge_locks zone) = merge_locks zone"
  by (simp add: merge_locks_def)

lemma lock_events_notify [simp]: "lock_events (notify_events zone \<sigma>) = []"
  by (simp add: notify_events_def)

lemma run_schedule_append:
  "run_schedule (xs @ ys) s = Option.bind (run_schedule xs s) (run_schedule ys)"
  by (induction xs arbitrary: s) (auto split: Option.bind_splits)

text \<open>
  The schedule: the first update takes and releases the write lock and read-locks, the
  second announces itself; then the first cannot read-lock again and the second waits for it.
\<close>

lemma update_deadlock:
  "\<exists>s. run_schedule [0, 0, 0, 0, 1, 0] (start_goroutines [update_locks zone, update_locks zone]) = Some s \<and>
     deadlocked s"
  by (simp add: start_goroutines_def update_locks_def merge_locks_def go_step_def deadlocked_def
      finished_def can_step_def upt_rec)

subsection \<open>A goroutine alone\<close>

text \<open>
  A trace that keeps the discipline of a single goroutine runs to its end when no other
  goroutine holds a lock: nested read locks do no harm alone.
\<close>

definition agrees :: "held \<Rightarrow> mutexes \<Rightarrow> bool" where
  "agrees s m \<longleftrightarrow> (\<forall>l. m l = (if fst (s l) then Writing 0 else Idle, snd (s l)))"

lemma agrees_upd:
  "agrees s m \<Longrightarrow> agrees (s(l := (b, n))) (m(l := (if b then Writing 0 else Idle, n)))"
  by (simp add: agrees_def)

text \<open>One event of the discipline is one or two steps of the mutex.\<close>

lemma lone_event:
  assumes ag: "agrees s m" and h: "hold e s = Some s1"
  shows "\<exists>sched m1. run_schedule sched ([e # es], m) = Some ([es], m1) \<and> agrees s1 m1"
proof (cases e)
  case (ELock l)
  then have s: "s l = (False, 0)" "s1 = s(l := (True, 0))" using h by (auto split: if_splits)
  then have "m l = (Idle, 0)" using ag by (simp add: agrees_def)
  then have "run_schedule [0, 0] ([e # es], m) = Some ([es], m(l := (Writing 0, 0)))"
    using ELock by (simp add: go_step_def)
  moreover have "agrees s1 (m(l := (Writing 0, 0)))" using agrees_upd [OF ag, of l True 0] s by simp
  ultimately show ?thesis by blast
next
  case (EUnlock l)
  then have s: "fst (s l)" "s1 = s(l := (False, snd (s l)))" using h by (auto split: if_splits)
  then have "m l = (Writing 0, snd (s l))" using ag by (simp add: agrees_def)
  then have "run_schedule [0] ([e # es], m) = Some ([es], m(l := (Idle, snd (s l))))"
    using EUnlock by (simp add: go_step_def)
  moreover have "agrees s1 (m(l := (Idle, snd (s l))))"
    using agrees_upd [OF ag, of l False "snd (s l)"] s by simp
  ultimately show ?thesis by blast
next
  case (ERLock l)
  then have s: "\<not> fst (s l)" "s1 = s(l := (False, Suc (snd (s l))))" using h by (auto split: if_splits)
  then have "m l = (Idle, snd (s l))" using ag by (simp add: agrees_def)
  then have "run_schedule [0] ([e # es], m) = Some ([es], m(l := (Idle, Suc (snd (s l)))))"
    using ERLock by (simp add: go_step_def)
  moreover have "agrees s1 (m(l := (Idle, Suc (snd (s l)))))"
    using agrees_upd [OF ag, of l False "Suc (snd (s l))"] s by simp
  ultimately show ?thesis by blast
next
  case (ERUnlock l)
  then have s: "\<not> fst (s l)" "snd (s l) \<noteq> 0" "s1 = s(l := (False, snd (s l) - 1))"
    using h by (auto split: if_splits)
  then obtain n where n: "snd (s l) = Suc n" by (cases "snd (s l)") auto
  then have "m l = (Idle, Suc n)" using ag s by (simp add: agrees_def)
  then have "run_schedule [0] ([e # es], m) = Some ([es], m(l := (Idle, n)))"
    using ERUnlock by (simp add: go_step_def)
  moreover have "agrees s1 (m(l := (Idle, n)))" using agrees_upd [OF ag, of l False n] s n by simp
  ultimately show ?thesis by blast
next
  case (ENotify n)
  then have "run_schedule [0] ([e # es], m) = Some ([es], m)" "s1 = s" using h by (simp_all add: go_step_def)
  with ag show ?thesis by blast
next
  case (EPersisted z)
  then have "run_schedule [0] ([e # es], m) = Some ([es], m)" "s1 = s" using h by (simp_all add: go_step_def)
  with ag show ?thesis by blast
next
  case (EWrite r)
  then have "run_schedule [0] ([e # es], m) = Some ([es], m)" "s1 = s" using h by (simp_all add: go_step_def)
  with ag show ?thesis by blast
qed

lemma lone_run:
  assumes "agrees s m" and "hold_all tr s = Some s'"
  shows "\<exists>sched m'. run_schedule sched ([tr], m) = Some ([[]], m') \<and> agrees s' m'"
  using assms
proof (induction tr arbitrary: s m)
  case Nil
  then show ?case by (auto intro!: exI [of _ "[]"])
next
  case (Cons e tr)
  then obtain s1 where s1: "hold e s = Some s1" "hold_all tr s1 = Some s'"
    by (cases "hold e s") auto
  obtain xs m1 where 1: "run_schedule xs ([e # tr], m) = Some ([tr], m1)" "agrees s1 m1"
    using lone_event [OF Cons.prems(1) s1(1)] by blast
  obtain ys m2 where "run_schedule ys ([tr], m1) = Some ([[]], m2)" "agrees s' m2"
    using Cons.IH [OF 1(2) s1(2)] by blast
  with 1(1) have "run_schedule (xs @ ys) ([e # tr], m) = Some ([[]], m2) \<and> agrees s' m2"
    by (simp add: run_schedule_append)
  then show ?case by blast
qed

lemma balanced_runs:
  assumes "balanced tr"
  shows "\<exists>sched m. run_schedule sched (start_goroutines [tr]) = Some ([[]], m)"
proof -
  have "agrees nothing_held (\<lambda>_. (Idle, 0))" by (simp add: agrees_def)
  from lone_run [OF this] assms show ?thesis
    unfolding balanced_def start_goroutines_def by blast
qed

subsection \<open>Properties\<close>

lemma successful_update_locks:
  "lock_events ([ELock (LDyn zone), EUnlock (LDyn zone), ERLock (LDyn zone), EPersisted obj] @
     merge_locks zone @ notify_events zone \<sigma> @ [EWrite m, ERUnlock (LDyn zone)]) = update_locks zone"
  by (simp add: update_locks_def)

text \<open>
  C26: two updates of one zone can deadlock.  Take the lock events of an update that succeeds,
  run by two goroutines: when the second asks for the write lock between the first one's outer
  read lock and the read lock \<open>Merge\<close> takes inside it, no goroutine can go on.
\<close>

theorem concurrent_updates_can_deadlock:
  assumes "file_laws L origin norm intree" and "plugin_ok origin \<sigma>" and "accepts L r"
    and "dynamic_at (dZones \<sigma>) zone = Some dz" and "static_at (dZones \<sigma>) zone = Some z"
    and "lApex L z = Inr apex"
    and "find_zone L (wCluster \<sigma>) (trim_dot zone) (dNamespaces \<sigma>) = Some obj"
    and "lWriteMsg L (update_reply L r) = None"
    and "\<And>st. \<exists>c. kStatusUpdate L (wCluster \<sigma>) (obj\<lparr>zStatus := st\<rparr>) = (None, c)"
  shows "\<exists>tr s. wTrace (snd (serve_update L now zone dz r \<sigma>)) = wTrace \<sigma> @ tr \<and>
    run_schedule [0, 0, 0, 0, 1, 0] (start_goroutines [lock_events tr, lock_events tr]) = Some s \<and>
    deadlocked s"
proof -
  obtain dz' where dz': "\<forall>obj' c'. obj' = new_status L (wSerials \<sigma>) dz' (serial_of_ms now) obj \<longrightarrow>
      kStatusUpdate L (wCluster \<sigma>) obj' = (None, c') \<longrightarrow>
      wTrace (snd (serve_update L now zone dz r \<sigma>)) = wTrace \<sigma> @
        [ELock (LDyn zone), EUnlock (LDyn zone), ERLock (LDyn zone), EPersisted obj'] @
        merge_locks zone @ notify_events zone \<sigma> @ [EWrite (update_reply L r), ERUnlock (LDyn zone)]"
    using serve_update_success [OF assms(1-8), of now] by fastforce
  have "\<exists>c. kStatusUpdate L (wCluster \<sigma>) (new_status L (wSerials \<sigma>) dz' (serial_of_ms now) obj) = (None, c)"
    unfolding new_status_def using assms(9) by blast
  then obtain o1 where "wTrace (snd (serve_update L now zone dz r \<sigma>)) = wTrace \<sigma> @
      ([ELock (LDyn zone), EUnlock (LDyn zone), ERLock (LDyn zone), EPersisted o1] @
       merge_locks zone @ notify_events zone \<sigma> @ [EWrite (update_reply L r), ERUnlock (LDyn zone)])"
    using dz' by fastforce
  moreover note successful_update_locks [of zone o1 \<sigma> "update_reply L r"]
  moreover obtain s where "run_schedule [0, 0, 0, 0, 1, 0] (start_goroutines [update_locks zone, update_locks zone]) = Some s"
    "deadlocked s"
    using update_deadlock by blast
  ultimately show ?thesis by metis
qed

theorem concurrent_updates_can_deadlock_witness:
  "\<exists>tr s. wTrace (snd (serve_update sample 5 ''a.org.'' ex_dyn (ex_msg OpcodeUpdate [ex_txt ClassINET]) ex_plugin)) = tr \<and>
     run_schedule [0, 0, 0, 0, 1, 0] (start_goroutines [lock_events tr, lock_events tr]) = Some s \<and> deadlocked s"
proof -
  have at: "dynamic_at (dZones ex_plugin) ''a.org.'' = Some ex_dyn"
    "static_at (dZones ex_plugin) ''a.org.'' = Some ex_zone" by simp_all
  have apex: "lApex sample ex_zone =
      Inr [RR_SOA \<lparr>hName = ''a.org.'', hRrtype = TypeSOA, hClass = ClassINET, hTtl = 3600\<rparr> 0]" by simp
  have wr: "lWriteMsg sample m = None" for m by simp
  from concurrent_updates_can_deadlock [OF sample_file_laws ex_plugin_ok ex_accepts at apex ex_find wr ex_stores, of 5]
  show ?thesis by simp
qed

text \<open>
  A request alone never blocks.  The lock events of any request, run by one goroutine on
  free locks, can be scheduled to their end: nothing is unlocked that is not held, and no
  lock is asked for that the goroutine itself keeps it from getting.
\<close>

lemma lone_request_runs_to_end:
  assumes "file_laws L origin norm intree" and "match_laws L" and "plugin_ok origin \<sigma>"
  shows "\<exists>tr sched m. wTrace (snd (ServeDNS L now r \<sigma>)) = wTrace \<sigma> @ tr \<and>
    run_schedule sched (start_goroutines [tr]) = Some ([[]], m)"
proof -
  obtain tr where "wTrace (snd (ServeDNS L now r \<sigma>)) = wTrace \<sigma> @ tr" "balanced tr"
    using ServeDNS_safe(3) [OF assms, of now r] by (auto simp: lock_clean_def)
  with balanced_runs show ?thesis by blast
qed

lemma lone_request_runs_to_end_witness:
  "\<exists>tr sched m. wTrace (snd (ServeDNS sample 5 (ex_msg OpcodeUpdate [ex_txt ClassINET]) ex_plugin)) = wTrace ex_plugin @ tr \<and>
     run_schedule sched (start_goroutines [tr]) = Some ([[]], m)"
  by (rule lone_request_runs_to_end [OF sample_file_laws sample_match_laws ex_plugin_ok])

end
