(* ===== verification/LockSafety.thy ===== *)
theory LockSafety
  imports Locks
begin

text \<open>
  When the goroutines of the plugin cannot deadlock.  A goroutine is orderly when it asks for
  a write lock only with empty hands and gives it back before it asks for anything else, and
  when it asks for a read lock that others write, inside another such read lock, only where
  it is entitled to do so.  The locale \<open>lock_programs\<close> shows that orderly goroutines, none of
  which writes a lock that another one nests, run to their end under every schedule.  Its
  interpretation on the requests, transfers and reconciles of the plugin leaves the two
  concurrent updates of one zone as the only deadlock.
\<close>

subsection \<open>Orderly goroutines\<close>

text \<open>
  \<open>W\<close>: the locks that any goroutine writes; \<open>wr\<close>, \<open>nest\<close>: the locks this one writes, and the
  ones it may read-lock while it holds a read lock of \<open>W\<close>.
\<close>

definition no_write :: "held \<Rightarrow> bool" where
  "no_write h \<longleftrightarrow> (\<forall>k. \<not> fst (h k))"

fun orderly ::
  "(lockid \<Rightarrow> bool) \<Rightarrow> (lockid \<Rightarrow> bool) \<Rightarrow> (lockid \<Rightarrow> bool) \<Rightarrow> event list \<Rightarrow> held \<Rightarrow> bool" where
  "orderly W wr nest [] h \<longleftrightarrow> h = nothing_held"
| "orderly W wr nest (ELock l # es) h \<longleftrightarrow>
     h = nothing_held \<and> wr l \<and> orderly W wr nest es (nothing_held(l := (True, 0)))"
| "orderly W wr nest (EUnlock l # es) h \<longleftrightarrow>
     h = nothing_held(l := (True, 0)) \<and> orderly W wr nest es nothing_held"
| "orderly W wr nest (ERLock l # es) h \<longleftrightarrow>
     no_write h \<and> (W l \<longrightarrow> nest l \<or> (\<forall>k. W k \<longrightarrow> snd (h k) = 0)) \<and>
     orderly W wr nest es (h(l := (False, Suc (snd (h l)))))"
| "orderly W wr nest (ERUnlock l # es) h \<longleftrightarrow>
     no_write h \<and> snd (h l) \<noteq> 0 \<and> orderly W wr nest es (h(l := (False, snd (h l) - 1)))"
| "orderly W wr nest (_ # es) h \<longleftrightarrow> orderly W wr nest es h"

lemma no_write_nothing [simp]: "no_write nothing_held"
  by (simp add: no_write_def)

lemma nothing_upd [simp]: "nothing_held(l := (False, 0)) = nothing_held"
  by auto

lemma no_write_upd [simp]: "no_write h \<Longrightarrow> no_write (h(l := (False, n)))"
  by (simp add: no_write_def)

text \<open>Events that are no lock operations do not matter.\<close>

lemma orderly_lock_events: "orderly W wr nest tr h \<longleftrightarrow> orderly W wr nest (lock_events tr) h"
proof (induction tr arbitrary: h)
  case Nil
  then show ?case by simp
next
  case (Cons e tr)
  then show ?case by (cases e) (simp_all del: fun_upd_apply nothing_held_at)
qed

text \<open>A goroutine that holds a write lock goes on to release it.\<close>

lemma orderly_writing:
  assumes "orderly W wr nest tr h" and "fst (h l)"
  obtains e es where "tr = e # es" and "e = EUnlock l \<or> \<not> lock_event e"
proof (cases tr)
  case Nil
  then show ?thesis using assms by simp
next
  case (Cons e es)
  have "e = EUnlock l \<or> \<not> lock_event e"
  proof (cases e)
    case (EUnlock k)
    then have "h = nothing_held(k := (True, 0))" using assms(1) Cons by simp
    then show ?thesis using assms(2) EUnlock by (cases "l = k") auto
  qed (use assms Cons in \<open>auto simp: no_write_def\<close>)
  with Cons that show ?thesis by blast
qed

subsection \<open>Steps of the mutexes\<close>

text \<open>
  What ties the mutexes to what the goroutines hold: the readers are counted, a writer is the
  goroutine that holds the write lock, and one that has announced itself is at its \<open>Lock\<close>.
\<close>

definition counted :: "held list \<Rightarrow> mutexes \<Rightarrow> bool" where
  "counted hs m \<longleftrightarrow> (\<forall>l. snd (m l) = sum_list (map (\<lambda>h. snd (h l)) hs))"

definition writers_ok :: "held list \<Rightarrow> mutexes \<Rightarrow> bool" where
  "writers_ok hs m \<longleftrightarrow> (\<forall>l j. fst (m l) = Writing j \<longleftrightarrow> j < length hs \<and> fst ((hs ! j) l))"

definition announced_ok :: "event list list \<Rightarrow> mutexes \<Rightarrow> bool" where
  "announced_ok trs m \<longleftrightarrow>
     (\<forall>l j. fst (m l) = Announced j \<longrightarrow> j < length trs \<and> (\<exists>es. trs ! j = ELock l # es))"

lemma sum_list_exchange:
  "i < length hs \<Longrightarrow> sum_list (map f (hs[i := h])) + f (hs ! i) = sum_list (map f hs) + (f h :: nat)"
  by (induction hs arbitrary: i) (auto split: nat.splits)

lemma counted_upd:
  assumes "counted hs m" and "i < length hs" and "snd (m' l) + snd ((hs ! i) l) = snd (m l) + snd (h l)"
    and "\<And>k. k \<noteq> l \<Longrightarrow> snd (m' k) = snd (m k) \<and> snd (h k) = snd ((hs ! i) k)"
  shows "counted (hs[i := h]) m'"
  unfolding counted_def
proof
  fix k
  have "sum_list (map (\<lambda>h. snd (h k)) (hs[i := h])) + snd ((hs ! i) k) = snd (m k) + snd (h k)"
    using sum_list_exchange [OF assms(2), of "\<lambda>h. snd (h k)" h] assms(1) by (simp add: counted_def)
  then show "snd (m' k) = sum_list (map (\<lambda>h. snd (h k)) (hs[i := h]))"
    using assms(3,4) by (cases "k = l") auto
qed

lemma reads_counted: "counted hs m \<Longrightarrow> i < length hs \<Longrightarrow> snd ((hs ! i) l) \<le> snd (m l)"
  by (simp add: counted_def member_le_sum_list)

lemma reader_exists:
  assumes "counted hs m" and "snd (m l) \<noteq> 0"
  obtains i where "i < length hs" and "snd ((hs ! i) l) \<noteq> 0"
proof -
  have "\<exists>n \<in> set (map (\<lambda>h. snd (h l)) hs). n \<noteq> 0"
    using assms by (auto simp: counted_def)
  then show ?thesis using that by (auto simp: in_set_conv_nth)
qed

definition lock_inv ::
  "(lockid \<Rightarrow> bool) \<Rightarrow> (nat \<Rightarrow> lockid \<Rightarrow> bool) \<Rightarrow> (nat \<Rightarrow> lockid \<Rightarrow> bool) \<Rightarrow> held list \<Rightarrow> goroutines \<Rightarrow> bool" where
  "lock_inv W wr nest hs s \<longleftrightarrow>
     length hs = length (fst s) \<and> (\<forall>i < length hs. orderly W (wr i) (nest i) (fst s ! i) (hs ! i)) \<and>
     counted hs (snd s) \<and> writers_ok hs (snd s) \<and> announced_ok (fst s) (snd s)"

lemma lock_inv_at: "lock_inv W wr nest hs s \<Longrightarrow> i < length (fst s) \<Longrightarrow> orderly W (wr i) (nest i) (fst s ! i) (hs ! i)"
  by (simp add: lock_inv_def)

text \<open>An event that is done: the goroutine goes on with what it holds then.\<close>

lemma lock_inv_advance:
  assumes inv: "lock_inv W wr nest hs (trs, m)" and i: "i < length trs"
    and rest: "orderly W (wr i) (nest i) es h'"
    and cnt: "counted (hs[i := h']) m'" and wrs: "writers_ok (hs[i := h']) m'"
    and ann: "\<And>l j. fst (m' l) = Announced j \<Longrightarrow> j \<noteq> i \<and> fst (m l) = Announced j"
  shows "lock_inv W wr nest (hs[i := h']) (trs[i := es], m')"
proof -
  have "announced_ok (trs[i := es]) m'"
    using inv ann by (fastforce simp: lock_inv_def announced_ok_def)
  moreover have "orderly W (wr k) (nest k) (trs[i := es] ! k) (hs[i := h'] ! k)" if "k < length hs" for k
    using inv rest that i by (cases "k = i") (auto simp: lock_inv_def)
  ultimately show ?thesis using inv cnt wrs by (simp add: lock_inv_def)
qed

lemma writers_upd:
  assumes "writers_ok hs m" and "i < length hs"
    and "\<And>k. fst (m' k) = Writing i \<longleftrightarrow> fst (h k)"
    and "\<And>k j. j \<noteq> i \<Longrightarrow> fst (m' k) = Writing j \<longleftrightarrow> fst (m k) = Writing j"
  shows "writers_ok (hs[i := h]) m'"
  unfolding writers_ok_def
proof (intro allI)
  fix l j
  show "fst (m' l) = Writing j \<longleftrightarrow> j < length (hs[i := h]) \<and> fst ((hs[i := h] ! j) l)"
    using assms by (cases "j = i") (auto simp: writers_ok_def)
qed

lemma announced_at:
  "lock_inv W wr nest hs (trs, m) \<Longrightarrow> fst (m k) = Announced i \<Longrightarrow> i < length trs \<and> (\<exists>es. trs ! i = ELock k # es)"
  by (simp add: lock_inv_def announced_ok_def)

lemma not_announced:
  assumes "lock_inv W wr nest hs (trs, m)" and "trs ! i = e # es" and "\<And>l. e \<noteq> ELock l"
  shows "fst (m k) \<noteq> Announced i"
  using announced_at [OF assms(1), of k i] assms(2,3) by auto

lemma step_ELock:
  assumes inv: "lock_inv W wr nest hs (trs, m)" and i: "i < length trs" and e: "trs ! i = ELock l # es"
    and s: "lock_step i (ELock l) m = Some (b, m')"
  shows "\<exists>hs'. lock_inv W wr nest hs' (if b then trs[i := es] else trs, m')"
proof -
  have ord: "hs ! i = nothing_held" "orderly W (wr i) (nest i) es (nothing_held(l := (True, 0)))"
    using lock_inv_at [OF inv, of i] i e by simp_all
  have len: "length hs = length trs" using inv by (simp add: lock_inv_def)
  obtain w n where ml: "m l = (w, n)" by (cases "m l")
  from s ml consider (announce) "w = Idle" "\<not> b" "m' = m(l := (Announced i, n))"
    | (acquire) "w = Announced i" "n = 0" "b" "m' = m(l := (Writing i, 0))"
    by (auto split: writer.splits if_splits)
  then show ?thesis
  proof cases
    case announce
    have m': "snd (m' k) = snd (m k)" "fst (m' k) = (if k = l then Announced i else fst (m k))" for k
      using announce ml by simp_all
    have "fst (m l) \<noteq> Writing j" for j using announce ml by simp
    then have "fst (m' k) = Writing j \<longleftrightarrow> fst (m k) = Writing j" for k j by (simp add: m'(2))
    then have "counted hs m'" "writers_ok hs m'" using inv by (simp_all add: lock_inv_def counted_def writers_ok_def m'(1))
    moreover have "announced_ok trs m'" using inv i e by (simp add: lock_inv_def announced_ok_def m'(2))
    ultimately have "counted hs m'" "writers_ok hs m'" "announced_ok trs m'" by blast+
    then show ?thesis using inv announce by (auto simp: lock_inv_def)
  next
    case acquire
    have other: "k = l" if "fst (m k) = Announced i" for k
      using announced_at [OF inv that] e by simp
    let ?h = "nothing_held(l := (True, 0))"
    have "lock_inv W wr nest (hs[i := ?h]) (trs[i := es], m')"
    proof (rule lock_inv_advance [OF inv i ord(2)])
      show "counted (hs[i := ?h]) m'"
        by (rule counted_upd [where m = m and l = l]) (use inv len i ml acquire ord in \<open>auto simp: lock_inv_def\<close>)
      have "fst (m k) \<noteq> Writing i" for k
        using inv ord(1) i len by (simp add: lock_inv_def writers_ok_def)
      then show "writers_ok (hs[i := ?h]) m'"
        by (intro writers_upd [where m = m]) (use inv len i ml acquire in \<open>auto simp: lock_inv_def\<close>)
      show "j \<noteq> i \<and> fst (m k) = Announced j" if "fst (m' k) = Announced j" for k j
        using that acquire other by (auto split: if_splits)
    qed
    then show ?thesis using acquire by auto
  qed
qed

lemma step_EUnlock:
  assumes inv: "lock_inv W wr nest hs (trs, m)" and i: "i < length trs" and e: "trs ! i = EUnlock l # es"
    and s: "lock_step i (EUnlock l) m = Some (b, m')"
  shows "b \<and> (\<exists>hs'. lock_inv W wr nest hs' (trs[i := es], m'))"
proof -
  have ord: "hs ! i = nothing_held(l := (True, 0))" "orderly W (wr i) (nest i) es nothing_held"
    using lock_inv_at [OF inv, of i] i e by simp_all
  have len: "length hs = length trs" using inv by (simp add: lock_inv_def)
  have w: "fst (m k) = Writing i \<longleftrightarrow> k = l" for k
    using inv ord(1) i len by (auto simp: lock_inv_def writers_ok_def)
  then have wl: "fst (m l) = Writing i" and wo: "\<And>k. fst (m k) = Writing i \<Longrightarrow> k = l" by blast+
  have m': "b" "m' = m(l := (Idle, snd (m l)))"
    using s wl by (auto split: writer.splits prod.splits)
  have "lock_inv W wr nest (hs[i := nothing_held]) (trs[i := es], m')"
  proof (rule lock_inv_advance [OF inv i ord(2)])
    show "counted (hs[i := nothing_held]) m'"
      by (rule counted_upd [where m = m and l = l]) (use inv len i m' ord in \<open>auto simp: lock_inv_def\<close>)
    show "writers_ok (hs[i := nothing_held]) m'"
      by (rule writers_upd [where m = m]) (use inv len i m' in \<open>auto simp: lock_inv_def wl dest: wo\<close>)
    show "j \<noteq> i \<and> fst (m k) = Announced j" if "fst (m' k) = Announced j" for k j
      using that m' not_announced [OF inv e] by (auto split: if_splits)
  qed
  with m' show ?thesis by blast
qed

text \<open>The two operations on read locks change the count of one lock, here and in the mutex.\<close>

lemma step_read:
  assumes inv: "lock_inv W wr nest hs (trs, m)" and i: "i < length trs" and e: "trs ! i = e # es"
    and ne: "\<And>l. e \<noteq> ELock l" and nw: "no_write (hs ! i)"
    and ord: "orderly W (wr i) (nest i) es ((hs ! i)(l := (False, n')))"
    and m': "m' = m(l := (fst (m l), n))" and n: "n + snd ((hs ! i) l) = snd (m l) + n'"
  shows "\<exists>hs'. lock_inv W wr nest hs' (trs[i := es], m')"
proof -
  have len: "length hs = length trs" using inv by (simp add: lock_inv_def)
  have w: "fst (m k) \<noteq> Writing i" for k
    using inv nw i len by (auto simp: lock_inv_def writers_ok_def no_write_def)
  have "lock_inv W wr nest (hs[i := (hs ! i)(l := (False, n'))]) (trs[i := es], m')"
  proof (rule lock_inv_advance [OF inv i ord])
    show "counted (hs[i := (hs ! i)(l := (False, n'))]) m'"
      by (rule counted_upd [where m = m and l = l]) (use inv len i m' n in \<open>auto simp: lock_inv_def\<close>)
    show "writers_ok (hs[i := (hs ! i)(l := (False, n'))]) m'"
      by (rule writers_upd [where m = m]) (use inv len i m' w nw in \<open>auto simp: lock_inv_def no_write_def\<close>)
    show "j \<noteq> i \<and> fst (m k) = Announced j" if "fst (m' k) = Announced j" for k j
      using that m' not_announced [OF inv e ne] by (auto split: if_splits)
  qed
  then show ?thesis by blast
qed

lemma step_other:
  assumes inv: "lock_inv W wr nest hs (trs, m)" and i: "i < length trs" and e: "trs ! i = e # es"
    and ne: "\<not> lock_event e"
  shows "lock_step i e m = Some (True, m)" and "lock_inv W wr nest hs (trs[i := es], m)"
proof -
  have ord: "orderly W (wr i) (nest i) es (hs ! i)"
    using lock_inv_at [OF inv, of i] i e ne by (cases e) simp_all
  have l: "e \<noteq> ELock l" for l using ne by auto
  have "lock_inv W wr nest (hs[i := hs ! i]) (trs[i := es], m)"
    by (rule lock_inv_advance [OF inv i ord])
      (use inv not_announced [OF inv e l] in \<open>auto simp: lock_inv_def\<close>)
  then show "lock_inv W wr nest hs (trs[i := es], m)" by simp
  show "lock_step i e m = Some (True, m)" using ne by (cases e) simp_all
qed

text \<open>Every step keeps the invariant.\<close>

lemma lock_step_inv:
  assumes inv: "lock_inv W wr nest hs (trs, m)" and i: "i < length trs" and e: "trs ! i = e # es"
    and s: "lock_step i e m = Some (b, m')"
  shows "\<exists>hs'. lock_inv W wr nest hs' (if b then trs[i := es] else trs, m')"
proof (cases e)
  case (ELock l)
  then show ?thesis using step_ELock [OF inv i] e s by blast
next
  case (EUnlock l)
  then show ?thesis using step_EUnlock [OF inv i] e s by (metis (full_types))
next
  case (ERLock l)
  have ord: "no_write (hs ! i)" "orderly W (wr i) (nest i) es ((hs ! i)(l := (False, Suc (snd ((hs ! i) l)))))"
    using lock_inv_at [OF inv, of i] i e ERLock by simp_all
  have m': "b" "m' = m(l := (fst (m l), Suc (snd (m l))))"
    using s ERLock by (auto split: writer.splits prod.splits)
  have "\<exists>hs'. lock_inv W wr nest hs' (trs[i := es], m')"
    by (rule step_read [OF inv i e _ ord m'(2)]) (simp_all add: ERLock)
  with m' show ?thesis by simp
next
  case (ERUnlock l)
  have ord: "no_write (hs ! i)" "snd ((hs ! i) l) \<noteq> 0"
    "orderly W (wr i) (nest i) es ((hs ! i)(l := (False, snd ((hs ! i) l) - 1)))"
    using lock_inv_at [OF inv, of i] i e ERUnlock by simp_all
  obtain n where m': "b" "m' = m(l := (fst (m l), n))" "snd (m l) = Suc n"
    using s ERUnlock by (auto split: nat.splits prod.splits)
  have "\<exists>hs'. lock_inv W wr nest hs' (trs[i := es], m')"
    by (rule step_read [OF inv i e _ ord(1,3) m'(2)]) (use m' ord(2) in \<open>simp_all add: ERUnlock\<close>)
  with m' show ?thesis by simp
next
  case (ENotify n)
  then show ?thesis using step_other [OF inv i e] s by auto
next
  case (EPersisted z)
  then show ?thesis using step_other [OF inv i e] s by auto
next
  case (EWrite r)
  then show ?thesis using step_other [OF inv i e] s by auto
qed

lemma go_step_inv:
  assumes "lock_inv W wr nest hs s" and "go_step i s = Some s'"
  shows "\<exists>hs'. lock_inv W wr nest hs' s'"
proof -
  obtain trs m where s: "s = (trs, m)" by (cases s)
  from assms(2) obtain e es b m' where i: "i < length trs" "trs ! i = e # es"
    "lock_step i e m = Some (b, m')" "s' = (if b then trs[i := es] else trs, m')"
    by (auto simp: s go_step_def split: if_splits list.splits option.splits bool.splits)
  then show ?thesis using lock_step_inv [OF assms(1) [unfolded s] i(1-3)] by blast
qed

lemma run_schedule_inv:
  "lock_inv W wr nest hs s \<Longrightarrow> run_schedule sched s = Some s' \<Longrightarrow> \<exists>hs'. lock_inv W wr nest hs' s'"
proof (induction sched arbitrary: hs s)
  case Nil
  then show ?case by auto
next
  case (Cons i sched)
  then obtain s1 where "go_step i s = Some s1" "run_schedule sched s1 = Some s'"
    by (auto split: Option.bind_splits)
  then show ?case using go_step_inv [OF Cons.prems(1)] Cons.IH by blast
qed

subsection \<open>Progress\<close>

text \<open>Only a lock that is asked for can keep a goroutine waiting.\<close>

lemma blocked:
  assumes inv: "lock_inv W wr nest hs (trs, m)" and i: "i < length trs" and e: "trs ! i = e # es"
    and s: "lock_step i e m = None"
  obtains l where "e = ELock l \<or> e = ERLock l" and "fst (m l) \<noteq> Idle"
    and "e = ELock l \<Longrightarrow> m l \<noteq> (Announced i, 0)"
proof (cases e)
  case (EUnlock l)
  then have "hs ! i = nothing_held(l := (True, 0))" using lock_inv_at [OF inv, of i] i e by simp
  then have "fst (m l) = Writing i" using inv i by (simp add: lock_inv_def writers_ok_def)
  then show ?thesis using s EUnlock by (cases "m l") simp
next
  case (ERUnlock l)
  then have "snd ((hs ! i) l) \<noteq> 0" using lock_inv_at [OF inv, of i] i e by simp
  moreover have "snd ((hs ! i) l) \<le> snd (m l)"
    using inv i by (intro reads_counted) (simp_all add: lock_inv_def)
  ultimately show ?thesis using s ERUnlock by (cases "m l") (simp split: nat.splits)
next
  case (ELock l)
  with s that [of l] show ?thesis by (cases "m l") (auto split: writer.splits if_splits)
next
  case (ERLock l)
  with s that [of l] show ?thesis by (cases "m l") (auto split: writer.splits)
qed (use step_other [OF inv i e] s in auto)

lemma progress:
  assumes inv: "lock_inv W wr nest hs (trs, m)" and W: "\<And>i l. i < length trs \<Longrightarrow> wr i l \<Longrightarrow> W l"
    and alone: "\<And>i j l. i < length trs \<Longrightarrow> j < length trs \<Longrightarrow> i \<noteq> j \<Longrightarrow> nest i l \<Longrightarrow> \<not> wr j l"
    and nf: "\<not> finished (trs, m)"
  shows "\<exists>i. can_step (trs, m) i"
proof (rule ccontr)
  assume "\<nexists>i. can_step (trs, m) i"
  then have stuck: "lock_step i e m = None" if "i < length trs" "trs ! i = e # es" for i e es
    using that \<open>\<nexists>i. can_step (trs, m) i\<close> by (cases "lock_step i e m") (auto simp: can_step_def)
  have len: "length hs = length trs" using inv by (simp add: lock_inv_def)
  note at = lock_inv_at [OF inv, simplified]
  have no_writer: "fst (m l) \<noteq> Writing j" for l j
  proof
    assume "fst (m l) = Writing j"
    then have j: "j < length trs" "fst ((hs ! j) l)" using inv by (auto simp: lock_inv_def writers_ok_def)
    obtain e es where e: "trs ! j = e # es" "e = EUnlock l \<or> \<not> lock_event e"
      using orderly_writing [OF at [OF j(1)] j(2)] by blast
    from blocked [OF inv j(1) e(1) stuck [OF j(1) e(1)]] show False
      by (rule) (use e(2) in auto)
  qed
  have no_announced: "fst (m l) \<noteq> Announced j" for l j
  proof
    assume a: "fst (m l) = Announced j"
    then obtain es where j: "j < length trs" "trs ! j = ELock l # es" using announced_at [OF inv] by blast
    have "W l" using at [OF j(1)] j W by simp
    have "m l \<noteq> (Announced j, 0)" using blocked [OF inv j stuck [OF j]] by blast
    then have "snd (m l) \<noteq> 0" using a by (cases "m l") auto
    then obtain i where i: "i < length trs" "snd ((hs ! i) l) \<noteq> 0"
      using reader_exists [of hs m l] inv len by (auto simp: lock_inv_def)
    obtain e es' where e: "trs ! i = e # es'" using at [OF i(1)] i(2) by (cases "trs ! i") auto
    obtain k where k: "e = ELock k \<or> e = ERLock k" "fst (m k) \<noteq> Idle"
      using blocked [OF inv i(1) e stuck [OF i(1) e]] by blast
    have el: "e = ERLock k" using k(1) at [OF i(1)] i(2) e by auto
    obtain j' where j': "fst (m k) = Announced j'" using k(2) no_writer by (cases "fst (m k)") auto
    then obtain es'' where w: "j' < length trs" "trs ! j' = ELock k # es''" using announced_at [OF inv] by blast
    then have "wr j' k" using at [OF w(1)] by simp
    moreover have "nest i k" using at [OF i(1)] e el W [OF w(1) calculation] \<open>W l\<close> i(2) by auto
    ultimately have "j' = i" using alone i(1) w(1) by blast
    then show False using w(2) e el by simp
  qed
  obtain i e es where "i < length trs" "trs ! i = e # es"
    using nf by (auto simp: finished_def list_all_iff in_set_conv_nth neq_Nil_conv)
  then obtain l where "fst (m l) \<noteq> Idle" using blocked [OF inv _ _ stuck] by metis
  with no_writer no_announced show False by (cases "fst (m l)") auto
qed

text \<open>
  Every step brings the end nearer: a write lock takes two steps, any other event one at most.
\<close>

definition pending :: "goroutines \<Rightarrow> nat \<Rightarrow> nat" where
  "pending s i = 2 * length (fst s ! i) - (if \<exists>l. fst (snd s l) = Announced i then 1 else 0)"

definition work :: "goroutines \<Rightarrow> nat" where
  "work s = sum (pending s) {..<length (fst s)}"

lemma announced_frame:
  assumes "lock_step i e m = Some (b, m')" and "j \<noteq> i"
  shows "fst (m' k) = Announced j \<longleftrightarrow> fst (m k) = Announced j"
proof (cases e)
  case (ELock l)
  with assms show ?thesis by (cases "m l") (auto split: writer.splits if_splits)
next
  case (EUnlock l)
  with assms show ?thesis by (cases "m l") (auto split: writer.splits if_splits)
next
  case (ERLock l)
  with assms show ?thesis by (cases "m l") (auto split: writer.splits if_splits)
next
  case (ERUnlock l)
  with assms show ?thesis by (cases "m l") (auto split: nat.splits if_splits)
qed (use assms in auto)

lemma go_step_work:
  assumes inv: "lock_inv W wr nest hs s" and "go_step i s = Some s'"
  shows "work s' < work s"
proof -
  obtain trs m where s: "s = (trs, m)" by (cases s)
  from assms(2) obtain e es b m' where i: "i < length trs" "trs ! i = e # es"
    and ls: "lock_step i e m = Some (b, m')" and s': "s' = (if b then trs[i := es] else trs, m')"
    by (auto simp: s go_step_def split: if_splits list.splits option.splits bool.splits)
  have other: "pending s' j = pending s j" if "j \<noteq> i" for j
    using announced_frame [OF ls that] that by (simp add: pending_def s s')
  have "pending s' i < pending s i"
  proof (cases b)
    case True
    then show ?thesis using i by (simp add: pending_def s s') arith
  next
    case False
    then obtain l where e: "e = ELock l" "fst (m l) = Idle" "fst (m' l) = Announced i"
      using ls by (cases e) (auto split: writer.splits prod.splits nat.splits if_splits)
    have "fst (m k) \<noteq> Announced i" for k
      using announced_at [OF inv [unfolded s], of k i] i(2) e by auto
    then show ?thesis using False e i by (auto simp: pending_def s s')
  qed
  moreover have "length (fst s') = length (fst s)" by (simp add: s s')
  ultimately show ?thesis
    unfolding work_def using other i(1)
    by (auto simp: s intro!: sum_strict_mono_ex1 intro: less_imp_le bexI [of _ i])
      (metis le_eq_less_or_eq)
qed

lemma run_schedule_work:
  "lock_inv W wr nest hs s \<Longrightarrow> run_schedule sched s = Some s' \<Longrightarrow> work s' + length sched \<le> work s"
proof (induction sched arbitrary: hs s)
  case Nil
  then show ?case by simp
next
  case (Cons i sched)
  then obtain s1 where s1: "go_step i s = Some s1" "run_schedule sched s1 = Some s'"
    by (auto split: Option.bind_splits)
  obtain hs1 where "lock_inv W wr nest hs1 s1" using go_step_inv [OF Cons.prems(1) s1(1)] by blast
  then have "work s' + length sched \<le> work s1" using Cons.IH s1(2) by blast
  then show ?case using go_step_work [OF Cons.prems(1) s1(1)] by simp
qed

lemma can_step_bound: "can_step s i \<Longrightarrow> i < length (fst s)"
  by (simp add: can_step_def)

lemma can_step_go: "can_step s i \<Longrightarrow> \<exists>s'. go_step i s = Some s'"
  by (auto simp: can_step_def go_step_def split: list.splits option.splits bool.splits)

lemma go_step_length: "go_step i s = Some s' \<Longrightarrow> length (fst s') = length (fst s)"
  by (auto simp: go_step_def split: if_splits list.splits option.splits bool.splits)

lemma run_schedule_length: "run_schedule sched s = Some s' \<Longrightarrow> length (fst s') = length (fst s)"
  by (induction sched arbitrary: s) (auto split: Option.bind_splits dest: go_step_length)

subsection \<open>Programs that fit together\<close>

text \<open>
  The interface: programs that may run side by side (\<open>ok\<close>), the trace of each, and what it
  writes and nests.  The laws: traces are orderly, and no program writes a lock that another
  one nests.
\<close>

locale lock_programs =
  fixes ok :: "'p list \<Rightarrow> bool" and trace :: "'p \<Rightarrow> event list" and W :: "lockid \<Rightarrow> bool"
    and wr :: "'p \<Rightarrow> lockid \<Rightarrow> bool" and nest :: "'p \<Rightarrow> lockid \<Rightarrow> bool"
  assumes trace_orderly: "ok ps \<Longrightarrow> p \<in> set ps \<Longrightarrow> orderly W (wr p) (nest p) (trace p) nothing_held"
    and writes_shared: "wr p l \<Longrightarrow> W l"
    and nest_alone: "ok ps \<Longrightarrow> i < length ps \<Longrightarrow> j < length ps \<Longrightarrow> i \<noteq> j \<Longrightarrow>
      nest (ps ! i) l \<Longrightarrow> \<not> wr (ps ! j) l"
begin

abbreviation reached :: "'p list \<Rightarrow> nat list \<Rightarrow> goroutines \<Rightarrow> bool" where
  "reached ps sched s \<equiv> run_schedule sched (start_goroutines (map trace ps)) = Some s"

abbreviation run_inv :: "'p list \<Rightarrow> held list \<Rightarrow> goroutines \<Rightarrow> bool" where
  "run_inv ps hs s \<equiv> lock_inv W (\<lambda>i. wr (ps ! i)) (\<lambda>i. nest (ps ! i)) hs s \<and> length (fst s) = length ps"

lemma initial_inv:
  assumes "ok ps"
  shows "run_inv ps (replicate (length ps) nothing_held) (start_goroutines (map trace ps))"
  using trace_orderly [OF assms]
  by (simp add: lock_inv_def start_goroutines_def counted_def writers_ok_def announced_ok_def sum_list_replicate)

lemma go_step_run_inv:
  "run_inv ps hs s \<Longrightarrow> go_step i s = Some s' \<Longrightarrow> \<exists>hs'. run_inv ps hs' s'"
  using go_step_inv by (metis go_step_length)

lemma schedule_run_inv:
  "run_inv ps hs s \<Longrightarrow> run_schedule sched s = Some s' \<Longrightarrow> \<exists>hs'. run_inv ps hs' s'"
  using run_schedule_inv by (metis run_schedule_length)

lemma progress_run: "ok ps \<Longrightarrow> run_inv ps hs s \<Longrightarrow> \<not> finished s \<Longrightarrow> \<exists>i. can_step s i"
  using progress [of W "\<lambda>i. wr (ps ! i)" "\<lambda>i. nest (ps ! i)" hs "fst s" "snd s"] writes_shared nest_alone
  by auto

lemma completes:
  assumes "ok ps" and "run_inv ps hs s"
  shows "\<exists>more s'. run_schedule more s = Some s' \<and> finished s'"
  using assms(2)
proof (induction "work s" arbitrary: hs s rule: less_induct)
  case less
  show ?case
  proof (cases "finished s")
    case True
    then show ?thesis by (intro exI [of _ "[]"] exI [of _ s]) simp
  next
    case False
    then obtain i s1 where s1: "go_step i s = Some s1"
      using progress_run [OF assms(1) less.prems] can_step_go by blast
    obtain hs1 where "run_inv ps hs1 s1" using go_step_run_inv [OF less.prems s1] by blast
    moreover have "work s1 < work s" using go_step_work [OF conjunct1 [OF less.prems] s1] .
    ultimately obtain more s' where "run_schedule more s1 = Some s'" "finished s'"
      using less.hyps by blast
    then show ?thesis using s1 by (intro exI [of _ "i # more"] exI [of _ s']) simp
  qed
qed

text \<open>
  Whatever has run: nobody is stuck, the run so far is bounded, and it can be completed.
\<close>

theorem no_deadlock:
  assumes ok: "ok ps" and run: "reached ps sched s"
  shows "\<not> deadlocked s" and "length sched \<le> 2 * sum_list (map (\<lambda>p. length (trace p)) ps)"
    and "\<exists>more s'. run_schedule more s = Some s' \<and> finished s'"
proof -
  note start = initial_inv [OF ok]
  obtain hs where inv: "run_inv ps hs s" using schedule_run_inv [OF start run] by blast
  show "\<not> deadlocked s"
    using progress_run [OF ok inv] can_step_bound by (fastforce simp: deadlocked_def list_all_iff)
  have "work (start_goroutines (map trace ps)) = 2 * sum_list (map (\<lambda>p. length (trace p)) ps)"
    by (simp add: work_def pending_def start_goroutines_def sum_list_sum_nth atLeast0LessThan
        flip: sum_distrib_left)
  then show "length sched \<le> 2 * sum_list (map (\<lambda>p. length (trace p)) ps)"
    using run_schedule_work [OF conjunct1 [OF start] run] by simp
  show "\<exists>more s'. run_schedule more s = Some s' \<and> finished s'" by (rule completes [OF ok inv])
qed

end

end
