(* ===== verification/PluginLocks.thy ===== *)
theory PluginLocks
  imports LockSafety
begin

text \<open>
  The requests, reconciles and transfers of the plugin as goroutines on the locks of the
  zones: what each of them locks, and the interpretation of \<open>lock_programs\<close>.  As long as no
  two updates of one zone run at the same time, no schedule gets stuck.
\<close>

subsection \<open>Goroutines of the plugin\<close>

text \<open>A call of the plugin, with the state whose branches it takes.\<close>

datatype call = CServe int msg | CReconcile string string | CTransfer string u32

fun perform :: "('z, 'e, 'c, 'm) plugin_lib_scheme \<Rightarrow> call \<Rightarrow> ('z, 'c) plugin \<Rightarrow> ('z, 'c) plugin" where
  "perform L (CServe now r) \<sigma> = snd (ServeDNS L now r \<sigma>)"
| "perform L (CReconcile ns nm) \<sigma> = snd (Reconcile L ns nm \<sigma>)"
| "perform L (CTransfer zone serial) \<sigma> = snd (Transfer L zone serial \<sigma>)"

definition call_trace ::
  "('z, 'e, 'c, 'm) plugin_lib_scheme \<Rightarrow> call \<times> ('z, 'c) plugin \<Rightarrow> event list" where
  "call_trace L p = drop (length (wTrace (snd p))) (wTrace (perform L (fst p) (snd p)))"

text \<open>The zone a call updates, if any.\<close>

definition updated_zones ::
  "('z, 'e, 'm) dns_lib_scheme \<Rightarrow> call \<times> ('z, 'c) plugin \<Rightarrow> string list" where
  "updated_zones L p =
     (case fst p of
        CServe now r \<Rightarrow>
          (if Opcode r = OpcodeUpdate then [lMatches L (Names (dZones (snd p))) (lReqName L r)] else [])
      | _ \<Rightarrow> [])"

definition one_update_per_zone ::
  "('z, 'e, 'm) dns_lib_scheme \<Rightarrow> (call \<times> ('z, 'c) plugin) list \<Rightarrow> bool" where
  "one_update_per_zone L ps \<longleftrightarrow> distinct (concat (map (updated_zones L) ps))"

text \<open>The locks that are written at all, and what one call writes and nests.\<close>

fun written_lock :: "lockid \<Rightarrow> bool" where
  "written_lock LZones = True"
| "written_lock (LDyn z) = True"
| "written_lock _ = False"

definition nests :: "('z, 'e, 'm) dns_lib_scheme \<Rightarrow> call \<times> ('z, 'c) plugin \<Rightarrow> lockid \<Rightarrow> bool" where
  "nests L p l \<longleftrightarrow> (\<exists>z \<in> set (updated_zones L p). l = LDyn z)"

definition writes :: "('z, 'e, 'm) dns_lib_scheme \<Rightarrow> call \<times> ('z, 'c) plugin \<Rightarrow> lockid \<Rightarrow> bool" where
  "writes L p l \<longleftrightarrow> nests L p l \<or> (l = LZones \<and> (\<exists>ns nm. fst p = CReconcile ns nm))"

lemma call_trace_eq: "wTrace (perform L c \<sigma>) = wTrace \<sigma> @ tr \<Longrightarrow> call_trace L (c, \<sigma>) = tr"
  by (simp add: call_trace_def)

subsection \<open>The locks of an update\<close>

lemma send_reply_locks: "\<exists>tr. wTrace (snd (send_reply L zone r \<sigma>)) = wTrace \<sigma> @ tr \<and> lock_events tr = []"
  by (auto simp: send_reply_def Let_def split: option.splits)

lemma publish_locks:
  "\<exists>tr. wTrace (snd (publish L s zone r \<sigma>)) = wTrace \<sigma> @ tr \<and> lock_events tr \<in> {[], merge_locks zone}"
proof (cases "Merge L zone \<sigma>")
  case (Pair m \<sigma>1)
  then have tr: "wTrace \<sigma>1 = wTrace \<sigma> @ (if m = None then [] else merge_locks zone)"
    using Merge_pair by blast
  have "\<exists>tr. wTrace (snd (send_reply L zone r (\<sigma>1\<lparr>wSerials := h\<rparr>))) = wTrace \<sigma>1 @ tr \<and> lock_events tr = []" for h
    using send_reply_locks [of L zone r "\<sigma>1\<lparr>wSerials := h\<rparr>"] by simp
  then have "\<exists>tr. wTrace (snd (publish L s zone r \<sigma>)) = wTrace \<sigma>1 @ tr \<and> lock_events tr = []"
    by (auto simp: publish_def Pair split: option.splits sum.splits prod.splits)
  with tr show ?thesis by fastforce
qed

lemma commit_locks:
  "\<exists>tr. wTrace (snd (commit L s zone dz r \<sigma>)) = wTrace \<sigma> @ tr \<and>
     lock_events tr \<in> {[ERLock (LDyn zone), ERUnlock (LDyn zone)],
       ERLock (LDyn zone) # merge_locks zone @ [ERUnlock (LDyn zone)]}"
proof -
  let ?s = "emit [ERLock (LDyn zone)] \<sigma>"
  have "\<exists>tr. wTrace (snd (publish L s zone r (emit [EPersisted z] (?s\<lparr>wCluster := c\<rparr>)))) = wTrace ?s @ tr \<and>
      lock_events tr \<in> {[], merge_locks zone}" for z c
    using publish_locks [of L s zone r "emit [EPersisted z] (?s\<lparr>wCluster := c\<rparr>)"] by fastforce
  then have "\<exists>tr. wTrace (snd (commit_body L s zone dz r ?s)) = wTrace ?s @ tr \<and>
      lock_events tr \<in> {[], merge_locks zone}"
    by (auto simp: commit_body_def Let_def split: option.splits prod.splits)
  then show ?thesis by (fastforce simp: commit_eq)
qed

lemma update_trace_locks:
  "\<exists>tr. wTrace (snd (serve_update L now zone dz r \<sigma>)) = wTrace \<sigma> @ tr \<and>
     lock_events tr \<in> {[ELock (LDyn zone), EUnlock (LDyn zone)],
       [ELock (LDyn zone), EUnlock (LDyn zone), ERLock (LDyn zone), ERUnlock (LDyn zone)],
       update_locks zone}"
proof (cases "apply_updates L zone r dz")
  case (fields res dz' tr)
  note tr = apply_updates_trace [OF fields]
  show ?thesis
  proof (cases res)
    case None
    obtain tr2 where "wTrace (snd (commit L (serial_of_ms now) zone dz' r
        (emit [ELock (LDyn zone), EUnlock (LDyn zone)] (store_dynamic zone dz' \<sigma>)))) =
        wTrace \<sigma> @ [ELock (LDyn zone), EUnlock (LDyn zone)] @ tr2"
      "lock_events tr2 \<in> {[ERLock (LDyn zone), ERUnlock (LDyn zone)],
        ERLock (LDyn zone) # merge_locks zone @ [ERUnlock (LDyn zone)]}"
      using commit_locks [of L "serial_of_ms now" zone dz' r
          "emit [ELock (LDyn zone), EUnlock (LDyn zone)] (store_dynamic zone dz' \<sigma>)"] by auto
    then show ?thesis using fields tr None
      by (intro exI [of _ "[ELock (LDyn zone), EUnlock (LDyn zone)] @ tr2"])
        (auto simp: serve_update_def Let_def update_locks_def)
  next
    case (Some rc)
    then show ?thesis using fields tr by (simp add: serve_update_def Let_def)
  qed
qed

lemma update_takes_lock:
  "\<exists>es. wTrace (snd (serve_update L now zone dz r \<sigma>)) = wTrace \<sigma> @ ELock (LDyn zone) # es"
proof (cases "apply_updates L zone r dz")
  case (fields res dz' tr)
  then show ?thesis
    using commit_locks [of L "serial_of_ms now" zone dz' r
        "emit (ELock (LDyn zone) # tr @ [EUnlock (LDyn zone)]) (store_dynamic zone dz' \<sigma>)"]
    by (auto simp: serve_update_def Let_def split: option.splits)
qed

lemma update_orderly:
  "lock_events tr \<in> {[ELock (LDyn zone), EUnlock (LDyn zone)],
       [ELock (LDyn zone), EUnlock (LDyn zone), ERLock (LDyn zone), ERUnlock (LDyn zone)],
       update_locks zone} \<Longrightarrow>
   orderly written_lock (\<lambda>l. l = LDyn zone) (\<lambda>l. l = LDyn zone) tr nothing_held"
  by (subst orderly_lock_events)
    (auto simp: update_locks_def merge_locks_def no_write_def fun_eq_iff)

subsection \<open>The locks of the other calls\<close>

lemma query_orderly:
  assumes "lock_events tr \<in> {[], merge_locks zone, merge_locks zone @ [ERLock LMerged, ERUnlock LMerged]}"
  shows "orderly written_lock wr nest tr nothing_held"
  using assms by (subst orderly_lock_events) (auto simp: merge_locks_def no_write_def fun_eq_iff)

lemma reconcile_orderly:
  assumes "lock_events tr \<in> {[], [ELock LZones, EUnlock LZones]}"
  shows "orderly written_lock (\<lambda>l. l = LZones) nest tr nothing_held"
  using assms by (subst orderly_lock_events) (auto simp: no_write_def fun_eq_iff)

lemma orderly_mono:
  "orderly W wr nest tr h \<Longrightarrow> (\<And>l. wr l \<Longrightarrow> wr' l) \<Longrightarrow> (\<And>l. nest l \<Longrightarrow> nest' l) \<Longrightarrow> orderly W wr' nest' tr h"
proof (induction tr arbitrary: h)
  case Nil
  then show ?case by (simp del: nothing_held_at)
next
  case (Cons e tr)
  then show ?case by (cases e) (auto simp del: fun_upd_apply nothing_held_at)
qed

text \<open>Every call of the plugin is orderly.\<close>

lemma serve_orderly:
  assumes "file_laws L origin norm intree" and "match_laws L" and ok: "plugin_ok origin \<sigma>"
  shows "orderly written_lock (writes L (CServe now r, \<sigma>)) (nests L (CServe now r, \<sigma>))
    (call_trace L (CServe now r, \<sigma>)) nothing_held"
proof (cases rule: ServeDNS_cases [OF assms(2) ok, of r now])
  case (4 zone dz)
  then obtain tr where "wTrace (perform L (CServe now r) \<sigma>) = wTrace \<sigma> @ tr"
    "orderly written_lock (\<lambda>l. l = LDyn zone) (\<lambda>l. l = LDyn zone) tr nothing_held"
    using update_trace_locks [of L now zone dz r \<sigma>] update_orderly [of _ zone] by fastforce
  moreover have "nests L (CServe now r, \<sigma>) (LDyn zone)"
    using 4(1,4) by (simp add: nests_def updated_zones_def)
  ultimately show ?thesis
    by (auto simp: call_trace_eq writes_def elim!: orderly_mono)
next
  case (5 zone z dz)
  have "\<exists>tr. wTrace (perform L (CServe now r) \<sigma>) = wTrace \<sigma> @ tr \<and>
      lock_events tr \<in> {merge_locks zone @ [ERLock LMerged, ERUnlock LMerged]}"
    by (rule serve_query_outcome [OF 5(3,4), of L "lReqName L r" r]) (simp_all add: 5)
  then show ?thesis using query_orderly [of _ zone] by (fastforce simp: call_trace_eq)
qed (simp_all add: call_trace_eq query_orderly)

lemma call_orderly:
  assumes lib: "lib_ok L origin norm intree" and ok: "plugin_ok origin \<sigma>"
  shows "orderly written_lock (writes L (c, \<sigma>)) (nests L (c, \<sigma>)) (call_trace L (c, \<sigma>)) nothing_held"
proof -
  have laws: "file_laws L origin norm intree" "alloc_laws L origin" "match_laws L"
    using lib by (simp_all add: lib_ok_def)
  show ?thesis
  proof (cases c)
    case (CServe now r)
    then show ?thesis using serve_orderly [OF laws(1,3) ok] by simp
  next
    case (CReconcile ns nm)
    have "\<exists>tr. wTrace (perform L c \<sigma>) = wTrace \<sigma> @ tr \<and> lock_events tr \<in> {[], [ELock LZones, EUnlock LZones]}"
      by (cases rule: Reconcile_cases [OF laws(1,2) ok, of ns nm]) (simp_all add: CReconcile)
    then obtain tr where "call_trace L (c, \<sigma>) = tr" "lock_events tr \<in> {[], [ELock LZones, EUnlock LZones]}"
      using call_trace_eq by metis
    moreover have "writes L (c, \<sigma>) LZones" by (simp add: CReconcile writes_def)
    ultimately show ?thesis using reconcile_orderly [of tr "nests L (c, \<sigma>)"] by (auto elim: orderly_mono)
  next
    case (CTransfer zone serial)
    have "wTrace (perform L c \<sigma>) = wTrace \<sigma> @ (if fst (Merge L zone \<sigma>) = None then [] else merge_locks zone)"
      by (simp add: CTransfer Transfer_state Merge_trace)
    then show ?thesis by (simp add: call_trace_eq query_orderly [of _ zone])
  qed
qed

lemma distinct_concat_nth:
  "distinct (concat (map f xs)) \<Longrightarrow> i < length xs \<Longrightarrow> j < length xs \<Longrightarrow> i \<noteq> j \<Longrightarrow>
   set (f (xs ! i)) \<inter> set (f (xs ! j)) = {}"
proof (induction xs arbitrary: i j)
  case Nil
  then show ?case by simp
next
  case (Cons x xs)
  have tail: "set (f x) \<inter> set (f (xs ! k)) = {}" if "k < length xs" for k
    using Cons.prems(1) that by (auto 0 3 simp: disjoint_iff)
  have ds: "distinct (concat (map f xs))" using Cons.prems(1) by simp
  consider "i = 0" "j = 0" | k where "i = 0" "j = Suc k" | k where "i = Suc k" "j = 0"
    | k k' where "i = Suc k" "j = Suc k'"
    by (cases i; cases j) blast+
  then show ?case
  proof cases
    case (2 k)
    then show ?thesis using tail [of k] Cons.prems by simp
  next
    case (3 k)
    then show ?thesis using tail [of k] Cons.prems by (simp add: Int_commute)
  next
    case (4 k k')
    then show ?thesis using Cons.IH [OF ds, of k k'] Cons.prems by simp
  qed (use Cons.prems in simp)
qed

subsection \<open>The interpretation\<close>

definition side_by_side ::
  "('z, 'e, 'c, 'm) plugin_lib_scheme \<Rightarrow> ('z \<Rightarrow> string) \<Rightarrow> (call \<times> ('z, 'c) plugin) list \<Rightarrow> bool" where
  "side_by_side L origin ps \<longleftrightarrow>
     list_all (\<lambda>p. plugin_ok origin (snd p)) ps \<and> one_update_per_zone L ps"

interpretation pl: lock_programs
  "\<lambda>ps. (\<exists>norm intree. lib_ok L origin norm intree) \<and> side_by_side L origin ps"
  "call_trace L" written_lock "writes L" "nests L"
  for L :: "('z, 'e, 'c, 'm) plugin_lib_scheme" and origin
proof (unfold_locales, goal_cases)
  case (1 ps p)
  then show ?case using call_orderly [of L origin _ _ "snd p" "fst p"]
    by (auto simp: side_by_side_def list_all_iff)
next
  case (2 p l)
  then show ?case by (auto simp: writes_def nests_def)
next
  case (3 ps i j l)
  then show ?case
    using distinct_concat_nth [of "updated_zones L" ps i j]
    by (auto simp: writes_def nests_def side_by_side_def one_update_per_zone_def disjoint_iff)
qed

subsection \<open>Properties\<close>

text \<open>
  C5: two updates of one zone are the only way to a deadlock.  Any number of queries, transfers,
  reconciles and updates run side by side, as goroutines with the traces of the model, no two
  of them updates of one zone: then under every schedule nobody is stuck, the run is no longer
  than two steps for each event, and it can be completed.
\<close>

theorem distinct_updates_never_deadlock:
  assumes "lib_ok L origin norm intree" and "list_all (\<lambda>p. plugin_ok origin (snd p)) ps"
    and "one_update_per_zone L ps"
    and "run_schedule sched (start_goroutines (map (call_trace L) ps)) = Some s"
  shows "\<not> deadlocked s \<and> length sched \<le> 2 * sum_list (map (\<lambda>p. length (call_trace L p)) ps) \<and>
    (\<exists>more s'. run_schedule more s = Some s' \<and> finished s')"
proof -
  have "(\<exists>norm intree. lib_ok L origin norm intree) \<and> side_by_side L origin ps"
    using assms(1-3) by (auto simp: side_by_side_def)
  from pl.no_deadlock [OF this assms(4)] show ?thesis by blast
qed

text \<open>An update, a query, a transfer and a reconcile, after the update has its write lock.\<close>

theorem distinct_updates_never_deadlock_witness:
  "\<exists>s. run_schedule [0, 0] (start_goroutines (map (call_trace sample)
      [(CServe 5 (ex_msg OpcodeUpdate [ex_txt ClassINET]), ex_plugin), (CServe 5 ex_query, ex_plugin),
       (CTransfer ''a.org.'' 1, ex_plugin), (CReconcile ''d'' ''a.org'', ex_plugin)])) = Some s \<and>
     \<not> deadlocked s"
proof -
  let ?u = "(CServe 5 (ex_msg OpcodeUpdate [ex_txt ClassINET]), ex_plugin)"
  let ?ps = "[?u, (CServe 5 ex_query, ex_plugin), (CTransfer ''a.org.'' 1, ex_plugin),
    (CReconcile ''d'' ''a.org'', ex_plugin)]"
  have lib: "lib_ok sample szOrigin (\<lambda>r. r) s_intree"
    by (simp add: lib_ok_def sample_file_laws sample_alloc_laws sample_match_laws)
  have ok: "list_all (\<lambda>p. plugin_ok szOrigin (snd p)) ?ps" by (simp add: ex_plugin_ok)
  have one: "one_update_per_zone sample ?ps"
    by (simp add: one_update_per_zone_def updated_zones_def ex_query_def opcode_defs)
  have at: "dynamic_at (dZones ex_plugin) ''a.org.'' = Some ex_dyn" by simp
  obtain es where "call_trace sample ?u = ELock (LDyn ''a.org.'') # es"
    using update_takes_lock [of sample 5 "''a.org.''" ex_dyn "ex_msg OpcodeUpdate [ex_txt ClassINET]" ex_plugin]
      ServeDNS_update [OF ex_update_for at, of 5] by (auto simp: call_trace_def)
  then obtain s where "run_schedule [0, 0] (start_goroutines (map (call_trace sample) ?ps)) = Some s"
    by (simp add: start_goroutines_def go_step_def)
  with distinct_updates_never_deadlock [OF lib ok one this] show ?thesis by blast
qed

end
