(* ===== verification/ParseIP.thy ===== *)
theory ParseIP
  imports DnsTypes
begin

text \<open>
  Go's \<open>net.ParseIP\<close> (the standard library of the Go version of the module), which the operator
  applies to the targets of A records: dotted decimals without leading zeros, and IPv6 addresses
  with one ellipsis and an optional dotted tail.  Its IPv4 part accepts exactly the texts
  \<open>show4\<close> prints.
\<close>

subsection \<open>Numbers at the front of a text\<close>

definition is_dec :: "char \<Rightarrow> bool" where
  "is_dec c \<longleftrightarrow> 48 \<le> (of_char c :: nat) \<and> (of_char c :: nat) \<le> 57"

definition dec_val :: "char \<Rightarrow> nat" where
  "dec_val c = of_char c - 48"

definition big :: nat where
  "big = 16777215"

text \<open>\<open>dtoi\<close>: the number, how many characters it has, and whether there is one.\<close>

fun dtoi_loop :: "nat \<Rightarrow> nat \<Rightarrow> string \<Rightarrow> nat \<times> nat \<times> bool" where
  "dtoi_loop n i [] = (n, i, 0 < i)"
| "dtoi_loop n i (c # cs) =
     (if is_dec c then
        (let n' = n * 10 + dec_val c in
         if big \<le> n' then (big, i, False) else dtoi_loop n' (i + 1) cs)
      else (n, i, 0 < i))"

definition dtoi :: "string \<Rightarrow> nat \<times> nat \<times> bool" where
  "dtoi s = dtoi_loop 0 0 s"

text \<open>\<open>xtoi\<close> does the same for hexadecimal digits of both cases.\<close>

definition hex_val :: "char \<Rightarrow> nat option" where
  "hex_val c =
     (let k = (of_char c :: nat) in
      if 48 \<le> k \<and> k \<le> 57 then Some (k - 48)
      else if 97 \<le> k \<and> k \<le> 102 then Some (k - 97 + 10)
      else if 65 \<le> k \<and> k \<le> 70 then Some (k - 65 + 10) else None)"

fun xtoi_loop :: "nat \<Rightarrow> nat \<Rightarrow> string \<Rightarrow> nat \<times> nat \<times> bool" where
  "xtoi_loop n i [] = (n, i, 0 < i)"
| "xtoi_loop n i (c # cs) =
     (case hex_val c of
        None \<Rightarrow> (n, i, 0 < i)
      | Some d \<Rightarrow>
          (let n' = n * 16 + d in if big \<le> n' then (0, i, False) else xtoi_loop n' (i + 1) cs))"

definition xtoi :: "string \<Rightarrow> nat \<times> nat \<times> bool" where
  "xtoi s = xtoi_loop 0 0 s"

subsection \<open>Addresses\<close>

text \<open>The loop over the four octets; \<open>first\<close> holds for the first, which no dot precedes.\<close>

fun parse_octets :: "nat \<Rightarrow> bool \<Rightarrow> string \<Rightarrow> 8 word list option" where
  "parse_octets 0 first s = (if s = [] then Some [] else None)"
| "parse_octets (Suc k) first s =
     (if s = [] then None
      else if \<not> first \<and> hd s \<noteq> CHR ''.'' then None
      else let s1 = (if first then s else tl s) in
        (case dtoi s1 of (n, c, ok) \<Rightarrow>
          if \<not> ok \<or> n > 255 then None
          else if c > 1 \<and> hd s1 = CHR ''0'' then None
          else map_option ((#) (of_nat n)) (parse_octets k False (drop c s1))))"

definition parseIPv4 :: "string \<Rightarrow> 8 word list option" where
  "parseIPv4 s = parse_octets 4 True s"

text \<open>
  The loop over the groups: \<open>g\<close> groups may follow, \<open>e\<close> is the place of the ellipsis, \<open>acc\<close> the octets
  so far.  The result is the ellipsis, the octets and the rest of the text.
\<close>

fun v6_loop ::
  "nat \<Rightarrow> nat option \<Rightarrow> 8 word list \<Rightarrow> string \<Rightarrow> (nat option \<times> 8 word list \<times> string) option" where
  "v6_loop 0 e acc s = Some (e, acc, s)"
| "v6_loop (Suc g) e acc s =
     (case xtoi s of (n, c, ok) \<Rightarrow>
       if \<not> ok \<or> n > 65535 then None
       else if c < length s \<and> s ! c = CHR ''.'' then
         (if e = None \<and> length acc \<noteq> 12 then None
          else if length acc + 4 > 16 then None
          else map_option (\<lambda>ip4. (e, acc @ ip4, [])) (parseIPv4 s))
       else let acc' = acc @ [of_nat (n div 256), of_nat n]; s1 = drop c s in
         if s1 = [] then Some (e, acc', [])
         else if hd s1 \<noteq> CHR '':'' \<or> length s1 = 1 then None
         else let s2 = tl s1 in
           if hd s2 = CHR '':'' then
             (if e \<noteq> None then None
              else if tl s2 = [] then Some (Some (length acc'), acc', [])
              else v6_loop g (Some (length acc')) acc' (tl s2))
           else v6_loop g e acc' s2)"

definition parseIPv6 :: "string \<Rightarrow> 8 word list option" where
  "parseIPv6 s =
     (let lead = (take 2 s = ''::''); s1 = (if lead then drop 2 s else s) in
      if lead \<and> s1 = [] then Some (replicate 16 0)
      else case v6_loop 8 (if lead then Some 0 else None) [] s1 of
        None \<Rightarrow> None
      | Some (e, ip, rest) \<Rightarrow>
          if rest \<noteq> [] then None
          else if length ip < 16 then
            (case e of None \<Rightarrow> None
             | Some j \<Rightarrow> Some (take j ip @ replicate (16 - length ip) 0 @ drop j ip))
          else if e \<noteq> None then None else Some ip)"

text \<open>
  Go keeps an IPv4 address in the same sixteen octets as its IPv6 form; here it is its four octets.
\<close>

definition to4 :: "8 word list \<Rightarrow> 8 word list" where
  "to4 ip = (if length ip = 16 \<and> take 12 ip = replicate 10 0 @ [255, 255] then drop 12 ip else ip)"

definition ParseIP :: "string \<Rightarrow> ip" where
  "ParseIP s =
     (case find (\<lambda>c. c = CHR ''.'' \<or> c = CHR '':'') s of
        None \<Rightarrow> None
      | Some c \<Rightarrow> if c = CHR ''.'' then parseIPv4 s else map_option to4 (parseIPv6 s))"

subsection \<open>Dotted decimals\<close>

definition dec_char :: "nat \<Rightarrow> char" where
  "dec_char d = char_of (48 + d)"

fun decimal :: "nat \<Rightarrow> string" where
  "decimal n = (if n < 10 then [dec_char n] else decimal (n div 10) @ [dec_char (n mod 10)])"

declare decimal.simps [simp del]

text \<open>The dotted decimal of four octets.\<close>

definition show4 :: "8 word \<Rightarrow> 8 word \<Rightarrow> 8 word \<Rightarrow> 8 word \<Rightarrow> string" where
  "show4 a b c d =
     decimal (unat a) @ ''.'' @ decimal (unat b) @ ''.'' @ decimal (unat c) @ ''.'' @ decimal (unat d)"

definition dec_value :: "string \<Rightarrow> nat" where
  "dec_value ds = foldl (\<lambda>n c. n * 10 + dec_val c) 0 ds"

lemma dec_value_snoc [simp]: "dec_value (ds @ [c]) = dec_value ds * 10 + dec_val c"
  by (simp add: dec_value_def)

lemma dec_value_Nil [simp]: "dec_value [] = 0"
  by (simp add: dec_value_def)

lemma dec_char_digit: "d < 10 \<Longrightarrow> is_dec (dec_char d) \<and> dec_val (dec_char d) = d"
  by (simp add: dec_char_def is_dec_def dec_val_def of_char_of take_bit_eq_mod)

lemma digit_dec_char: "is_dec c \<Longrightarrow> dec_char (dec_val c) = c \<and> dec_val c < 10"
  by (auto simp: dec_char_def is_dec_def dec_val_def)

lemma decimal_digits: "list_all is_dec (decimal n) \<and> decimal n \<noteq> [] \<and> dec_value (decimal n) = n"
proof (induction n rule: decimal.induct)
  case (1 n)
  show ?case
  proof (cases "n < 10")
    case True
    then show ?thesis using dec_char_digit [of n] by (simp add: decimal.simps [of n] dec_value_def)
  next
    case False
    then show ?thesis using 1 dec_char_digit [of "n mod 10"] by (simp add: decimal.simps [of n])
  qed
qed

lemma zero_char: "char_of (48 :: nat) = CHR ''0''"
  by code_simp

lemma one_char: "char_of (49 :: nat) = CHR ''1''"
  by code_simp

text \<open>Without a leading zero, digits are the decimal of their value.\<close>

lemma digits_decimal:
  assumes "list_all is_dec ds" and "ds \<noteq> []" and "length ds > 1 \<Longrightarrow> hd ds \<noteq> CHR ''0''"
  shows "decimal (dec_value ds) = ds \<and> (hd ds \<noteq> CHR ''0'' \<longrightarrow> 0 < dec_value ds)"
  using assms
proof (induction ds rule: rev_induct)
  case Nil
  then show ?case by simp
next
  case (snoc c ds)
  have c: "dec_char (dec_val c) = c" "dec_val c < 10" using digit_dec_char snoc.prems(1) by auto
  show ?case
  proof (cases "ds = []")
    case True
    have "c \<noteq> CHR ''0'' \<longrightarrow> 0 < dec_val c" using c(1) by (cases "dec_val c = 0") (auto simp: dec_char_def zero_char)
    with True c show ?thesis by (simp add: dec_value_def decimal.simps [of "dec_val c"])
  next
    case False
    then have h: "hd ds \<noteq> CHR ''0''" using snoc.prems(3) by (cases ds) auto
    with False snoc have "decimal (dec_value ds) = ds" "0 < dec_value ds" by auto
    with c show ?thesis by (simp add: decimal.simps [of "dec_value ds * 10 + dec_val c"])
  qed
qed

subsection \<open>What the IPv4 parser accepts\<close>

lemma dec_fold_mono: "n \<le> foldl (\<lambda>n c. n * 10 + dec_val c) n ds"
proof (induction ds arbitrary: n)
  case Nil
  then show ?case by simp
next
  case (Cons c ds)
  have "n \<le> n * 10 + dec_val c" by simp
  also have "\<dots> \<le> foldl (\<lambda>n c. n * 10 + dec_val c) (n * 10 + dec_val c) ds" by (rule Cons.IH)
  finally show ?case by simp
qed

lemma dtoi_loop_value:
  assumes "n < big"
  shows "(let m = foldl (\<lambda>n c. n * 10 + dec_val c) n (takeWhile is_dec s); i' = i + length (takeWhile is_dec s) in
    if m < big then dtoi_loop n i s = (m, i', 0 < i') else \<not> snd (snd (dtoi_loop n i s)))"
  using assms
proof (induction s arbitrary: n i)
  case Nil
  then show ?case by simp
next
  case (Cons c cs)
  show ?case
  proof (cases "is_dec c \<and> n * 10 + dec_val c < big")
    case True
    then show ?thesis using Cons.IH [of "n * 10 + dec_val c" "Suc i"] by (simp add: Let_def)
  next
    case False
    then show ?thesis
      using Cons.prems dec_fold_mono [of "n * 10 + dec_val c" "takeWhile is_dec cs"] by (auto simp: Let_def)
  qed
qed

text \<open>
  One octet: a text has one at its front, as the parser checks it, exactly when it is a decimal
  up to 255 followed by no digit.
\<close>

definition octet_at :: "string \<Rightarrow> nat \<Rightarrow> nat \<Rightarrow> bool" where
  "octet_at s n c \<longleftrightarrow> dtoi s = (n, c, True) \<and> n \<le> 255 \<and> \<not> (c > 1 \<and> hd s = CHR ''0'')"

lemma octet_at_decimal: "octet_at s n c \<longleftrightarrow> n \<le> 255 \<and> takeWhile is_dec s = decimal n \<and> c = length (decimal n)"
proof -
  define ds where "ds = takeWhile is_dec s"
  have dig: "list_all is_dec ds" by (auto simp: ds_def list_all_iff dest: set_takeWhileD)
  have hds: "ds \<noteq> [] \<Longrightarrow> hd s = hd ds" by (cases s) (auto simp: ds_def split: if_splits)
  have val: "if dec_value ds < big then dtoi s = (dec_value ds, length ds, 0 < length ds)
      else \<not> snd (snd (dtoi s))"
    using dtoi_loop_value [of 0 s 0] by (simp add: dtoi_def dec_value_def ds_def Let_def big_def)
  show ?thesis
  proof
    assume o: "octet_at s n c"
    then have "dec_value ds < big" using val by (auto simp: octet_at_def split: if_splits)
    with o val have e: "n = dec_value ds" "c = length ds" "ds \<noteq> []" by (auto simp: octet_at_def)
    then have "decimal n = ds" using digits_decimal [OF dig e(3)] o hds by (auto simp: octet_at_def)
    with o e show "n \<le> 255 \<and> takeWhile is_dec s = decimal n \<and> c = length (decimal n)"
      by (simp add: octet_at_def ds_def)
  next
    assume o: "n \<le> 255 \<and> takeWhile is_dec s = decimal n \<and> c = length (decimal n)"
    then have ds: "ds = decimal n" by (simp add: ds_def)
    then have v: "dec_value ds = n" "ds \<noteq> []" using decimal_digits [of n] by auto
    have "dec_value ds < big" using v(1) o by (simp add: big_def)
    then have "dtoi s = (n, c, True)" using val v ds o by (simp split: if_splits)
    moreover have "\<not> (c > 1 \<and> hd s = CHR ''0'')"
    proof
      assume z: "c > 1 \<and> hd s = CHR ''0''"
      then have "n \<ge> 10" using o by (cases "n < 10") (simp_all add: decimal.simps [of n])
      have "hd (decimal m) \<noteq> CHR ''0''" if "0 < m" for m
        using that
      proof (induction m rule: decimal.induct)
        case (1 m)
        have ne: "decimal (m div 10) \<noteq> []" using decimal_digits by blast
        have "dec_char m \<noteq> CHR ''0''" if "m < 10"
        proof
          assume "dec_char m = CHR ''0''"
          then have "dec_val (dec_char m) = 0" by (simp add: dec_val_def)
          with dec_char_digit [OF that] 1(2) show False by simp
        qed
        with 1 ne show ?case by (cases "m < 10") (simp_all add: decimal.simps [of m])
      qed
      from this [of n] \<open>n \<ge> 10\<close> z hds v(2) ds show False by simp
    qed
    ultimately show "octet_at s n c" using o by (simp add: octet_at_def)
  qed
qed

lemma dropWhile_head: "dropWhile P xs = [] \<or> \<not> P (hd (dropWhile P xs))"
  by (induction xs) auto

lemma parse_octets_step:
  "parse_octets (Suc k) first s = Some bs \<longleftrightarrow>
   (\<exists>b t bs'. bs = b # bs' \<and> s = (if first then '''' else ''.'') @ decimal (unat b) @ t \<and>
      (t = [] \<or> \<not> is_dec (hd t)) \<and> parse_octets k False t = Some bs')" (is "?L \<longleftrightarrow> ?R")
proof
  assume ?L
  then obtain s1 where s: "s = (if first then '''' else ''.'') @ s1"
    and s1: "s1 = (if first then s else tl s)"
    by (cases s) (auto split: if_splits)
  obtain n c ok where d: "dtoi s1 = (n, c, ok)" by (metis prod.exhaust)
  from \<open>?L\<close> s1 d have o: "octet_at s1 n c"
    by (auto simp: Let_def octet_at_def split: if_splits)
  from \<open>?L\<close> s1 d o obtain bs' where bs: "bs = of_nat n # bs'" "parse_octets k False (drop c s1) = Some bs'"
    by (auto simp: Let_def split: if_splits)
  from o have n: "n \<le> 255" and t: "takeWhile is_dec s1 = decimal n" "c = length (decimal n)"
    by (simp_all add: octet_at_decimal)
  have un: "unat (of_nat n :: 8 word) = n" using n by (simp add: unat_of_nat)
  have rest: "drop c s1 = dropWhile is_dec s1"
    using t by (metis append_eq_conv_conj takeWhile_dropWhile_id)
  then have "s1 = decimal n @ drop c s1" using t(1) takeWhile_dropWhile_id [of is_dec s1] by simp
  moreover have "drop c s1 = [] \<or> \<not> is_dec (hd (drop c s1))" 
    unfolding rest by (rule dropWhile_head)
  ultimately show ?R using s bs un by auto
next
  assume ?R
  then obtain b t bs' where r: "bs = b # bs'" "s = (if first then '''' else ''.'') @ decimal (unat b) @ t"
    "t = [] \<or> \<not> is_dec (hd t)" "parse_octets k False t = Some bs'" by blast
  let ?s1 = "decimal (unat b) @ t"
  have dig: "list_all is_dec (decimal (unat b))" "decimal (unat b) \<noteq> []" using decimal_digits by auto
  have "takeWhile is_dec ?s1 = decimal (unat b)"
    using dig(1) r(3) by (cases t) (auto simp: list_all_iff takeWhile_append)
  moreover have "unat b \<le> 255" using unsigned_less [where w = b and 'a = nat] by simp
  ultimately have o: "octet_at ?s1 (unat b) (length (decimal (unat b)))" by (simp add: octet_at_decimal)
  then show ?L using r dig(2) by (auto simp: octet_at_def Let_def)
qed

text \<open>The parser and the printer are inverse to each other: nothing else is an IPv4 address.\<close>

lemma parseIPv4_iff: "parseIPv4 s = Some bs \<longleftrightarrow> (\<exists>a b c d. bs = [a, b, c, d] \<and> s = show4 a b c d)"
proof -
  have dot: "\<not> is_dec (CHR ''.'')" by (simp add: is_dec_def)
  have 4: "parse_octets 4 True s = parse_octets (Suc (Suc (Suc (Suc 0)))) True s"
  proof -
    have "(4 :: nat) = Suc (Suc (Suc (Suc 0)))" by simp
    then show ?thesis by (simp only:)
  qed
  show ?thesis unfolding parseIPv4_def 4 parse_octets_step show4_def
    by (auto simp: dot split: if_splits)
qed

lemma decimal_no_colon: "CHR '':'' \<notin> set (decimal n) \<and> CHR ''.'' \<notin> set (decimal n)"
  using decimal_digits [of n] by (auto simp: list_all_iff is_dec_def)

lemma find_append_none: "find P xs = None \<Longrightarrow> find P (xs @ ys) = find P ys"
  by (induction xs) (auto split: if_splits)

lemma ParseIP_show4: "ParseIP (show4 a b c d) = Some [a, b, c, d]"
proof -
  have "find (\<lambda>c. c = CHR ''.'' \<or> c = CHR '':'') (decimal (unat a)) = None"
    using decimal_no_colon [of "unat a"] by (auto simp: find_None_iff)
  then have "find (\<lambda>c. c = CHR ''.'' \<or> c = CHR '':'') (show4 a b c d) = Some (CHR ''.'')"
    by (simp add: show4_def find_append_none)
  then show ?thesis using parseIPv4_iff [of "show4 a b c d"] by (auto simp: ParseIP_def)
qed

lemma ParseIP_dots:
  assumes "CHR '':'' \<notin> set s"
  shows "ParseIP s = Some ip \<longleftrightarrow> (\<exists>a b c d. ip = [a, b, c, d] \<and> s = show4 a b c d)"
proof (cases "find (\<lambda>c. c = CHR ''.'' \<or> c = CHR '':'') s")
  case None
  then have "ParseIP s = None" by (simp add: ParseIP_def)
  then show ?thesis using ParseIP_show4 by auto
next
  case (Some x)
  then have "x = CHR ''.''" using assms nth_mem by (fastforce simp: find_Some_iff)
  with Some show ?thesis by (simp add: ParseIP_def parseIPv4_iff)
qed

end
