(* ===== verification/KsdnsRecords.thy ===== *)
theory KsdnsRecords
  imports SampleLib ParseIP
begin

text \<open>
  The resource records the operator generates (\<open>apis/dns/v1alpha1/utils.go\<close>): the SOA and NS
  records of a zone, the records of the user, and the splitting of TXT data into chunks.
  Here an SOA record holds its struct itself.
\<close>

subsection \<open>Parameters\<close>

text \<open>The fields of \<open>dns.SOA\<close> besides its header.\<close>

record soa_data =
  soaMbox :: string
  soaNs :: string
  soaSerial :: u32
  soaRefresh :: u32
  soaRetry :: u32
  soaExpire :: u32
  soaMinttl :: u32

type_synonym orr = "soa_data rr"

text \<open>
  \<open>dns.Fqdn\<close>, \<open>dnsutil.Join\<close> and \<open>rr.String()\<close> of miekg/dns and CoreDNS.
\<close>

record api_lib =
  aFqdn :: "string \<Rightarrow> string"
  aJoin :: "string list \<Rightarrow> string"
  aString :: "orr \<Rightarrow> string"

definition nsName :: string where
  "nsName = ''ns.dns''"

subsection \<open>Records\<close>

text \<open>\<open>uint32(time.Now().Unix())\<close>: the low 32 bits of the time in seconds.\<close>

definition serial_of_s :: "int \<Rightarrow> u32" where
  "serial_of_s now = word_of_int now"

definition newSOARecord :: "'m api_lib_scheme \<Rightarrow> int \<Rightarrow> string \<Rightarrow> string + orr list" where
  "newSOARecord A now zone0 =
     (if zone0 = '''' then Inl ''zone cannot be empty''
      else
        let zone = aFqdn A zone0;
            ttl = 30;
            Mbox = aJoin A [''hostmaster'', zone];
            Ns = aJoin A [nsName, zone];
            header = \<lparr>hName = zone, hRrtype = TypeSOA, hClass = ClassINET, hTtl = ttl\<rparr>
        in Inr [RR_SOA header
             \<lparr>soaMbox = Mbox, soaNs = Ns, soaSerial = serial_of_s now, soaRefresh = 7200,
               soaRetry = 1800, soaExpire = 86400, soaMinttl = ttl\<rparr>])"

definition newAddress :: "string \<Rightarrow> u32 \<Rightarrow> ip \<Rightarrow> u16 \<Rightarrow> 's rr" where
  "newAddress name ttl a what =
     (let hdr = \<lparr>hName = name, hRrtype = what, hClass = ClassINET, hTtl = ttl\<rparr> in
      if what = TypeA then RR_A hdr a else RR_AAAA hdr a)"

definition newNSRecord ::
  "'m api_lib_scheme \<Rightarrow> string \<Rightarrow> ip \<Rightarrow> string + orr list \<times> orr list" where
  "newNSRecord A zone0 a =
     (if zone0 = '''' then Inl ''zone cannot be empty''
      else
        let host = aFqdn A (aJoin A [nsName, zone0]);
            zone = aFqdn A zone0;
            ttl = 30
        in Inr ([RR_NS \<lparr>hName = zone, hRrtype = TypeNS, hClass = ClassINET, hTtl = ttl\<rparr> host],
                [newAddress host ttl a TypeA]))"

definition newA :: "string \<Rightarrow> u32 \<Rightarrow> ip \<Rightarrow> 's rr" where
  "newA name ttl a = RR_A \<lparr>hName = name, hRrtype = TypeA, hClass = ClassINET, hTtl = ttl\<rparr> a"

definition newCNAME :: "'m api_lib_scheme \<Rightarrow> string \<Rightarrow> u32 \<Rightarrow> string \<Rightarrow> 's rr" where
  "newCNAME A name ttl target =
     RR_CNAME \<lparr>hName = name, hRrtype = TypeCNAME, hClass = ClassINET, hTtl = ttl\<rparr> (aFqdn A target)"

text \<open>\<open>newSRV(name, ttl, target, weight, priority, port)\<close>; the record is priority, weight, port.\<close>

definition newSRV :: "'m api_lib_scheme \<Rightarrow> string \<Rightarrow> u32 \<Rightarrow> string \<Rightarrow> u16 \<Rightarrow> u16 \<Rightarrow> u16 \<Rightarrow> 's rr" where
  "newSRV A name ttl target weight priority port =
     (let host = aFqdn A target in
      RR_SRV \<lparr>hName = name, hRrtype = TypeSRV, hClass = ClassINET, hTtl = ttl\<rparr> priority weight port host)"

text \<open>
  The loop of \<open>split255\<close>: \<open>p\<close> and \<open>i\<close> bound the next chunk \<open>s[p:i]\<close>, \<open>sx\<close> is the result so
  far.  The last chunk is \<open>s[p:]\<close>.
\<close>

function split_loop :: "string \<Rightarrow> nat \<Rightarrow> nat \<Rightarrow> string list \<Rightarrow> string list" where
  "split_loop s p i sx =
     (if i \<le> length s then split_loop s (p + 255) (i + 255) (sx @ [take (i - p) (drop p s)])
      else sx @ [drop p s])"
  by pat_completeness auto

termination split_loop
  by (relation "measure (\<lambda>(s, p, i, sx). Suc (length s) - i)") auto

declare split_loop.simps [simp del]

definition split255 :: "string \<Rightarrow> string list" where
  "split255 s = (if length s < 255 then [s] else split_loop s 0 255 [])"

definition newTXT :: "string \<Rightarrow> u32 \<Rightarrow> string \<Rightarrow> 's rr" where
  "newTXT name ttl t =
     RR_TXT \<lparr>hName = name, hRrtype = TypeTXT, hClass = ClassINET, hTtl = ttl\<rparr> (split255 t)"

subsection \<open>Splitting\<close>

text \<open>
  The loop from an index \<open>p\<close> yields the chunks of the rest of the string: full ones, then one
  that is shorter than 255 and may be empty.
\<close>

lemma split_loop_result:
  assumes "p \<le> length s"
  shows "\<exists>cs last. split_loop s p (p + 255) sx = sx @ cs @ [last] \<and> concat (cs @ [last]) = drop p s \<and>
    (\<forall>c \<in> set cs. length c = 255) \<and> length last < 255"
  using assms
proof (induction "length s - p" arbitrary: p sx rule: less_induct)
  case less
  show ?case
  proof (cases "p + 255 \<le> length s")
    case True
    let ?c = "take 255 (drop p s)"
    have "length s - (p + 255) < length s - p" using True by simp
    from less.hyps [OF this, of "sx @ [?c]"] True obtain cs last where
      r: "split_loop s (p + 255) (p + 255 + 255) (sx @ [?c]) = (sx @ [?c]) @ cs @ [last]"
      "concat (cs @ [last]) = drop (p + 255) s" "\<forall>c \<in> set cs. length c = 255" "length last < 255"
      by auto
    have "split_loop s p (p + 255) sx = sx @ (?c # cs) @ [last]"
      using True r(1) by (subst split_loop.simps) simp
    moreover have "?c @ drop (p + 255) s = drop p s"
      using append_take_drop_id [of 255 "drop p s"] by (simp add: add.commute)
    then have "concat ((?c # cs) @ [last]) = drop p s" using r(2) by simp
    moreover have "\<forall>c \<in> set (?c # cs). length c = 255" using r(3) True by simp
    ultimately show ?thesis using r(4) by (intro exI [of _ "?c # cs"] exI [of _ last]) blast
  next
    case False
    then have "split_loop s p (p + 255) sx = sx @ [] @ [drop p s]" by (subst split_loop.simps) simp
    moreover have "length (drop p s) < 255" using False by simp
    ultimately show ?thesis by (intro exI [of _ "[]"] exI [of _ "drop p s"]) simp
  qed
qed

lemma split255_result:
  "\<exists>cs last. split255 s = cs @ [last] \<and> concat (cs @ [last]) = s \<and> (\<forall>c \<in> set cs. length c = 255) \<and>
     length last < 255"
proof (cases "length s < 255")
  case True
  then show ?thesis by (intro exI [of _ "[]"] exI [of _ s]) (simp add: split255_def)
next
  case False
  then show ?thesis using split_loop_result [of 0 s "[]"] by (simp add: split255_def)
qed

lemma full_chunks_length: "\<forall>c \<in> set cs. length c = 255 \<Longrightarrow> length (concat cs) = 255 * length cs"
  by (induction cs) auto

lemma split255_counts:
  "length (split255 s) = length s div 255 + 1 \<and> length (last (split255 s)) = length s mod 255"
proof -
  obtain cs l where r: "split255 s = cs @ [l]" "concat (cs @ [l]) = s"
    "\<forall>c \<in> set cs. length c = 255" "length l < 255"
    using split255_result [of s] by blast
  have "length s = 255 * length cs + length l"
    using r(2) full_chunks_length [OF r(3)] by (metis concat_append concat.simps append_Nil2 length_append)
  then have "length cs = length s div 255" "length l = length s mod 255" using r(4) by simp_all
  with r(1) show ?thesis by simp
qed

subsection \<open>Properties\<close>

text \<open>
  C33: splitting TXT data loses nothing and respects the limit of a DNS string.  The chunks joined
  are the text, none is longer than 255 octets, their number is one more than the quotient by
  255, and the last one is empty exactly when 255 divides the length, so a text of 255
  octets becomes two strings.
\<close>

theorem split255_chunks:
  "concat (split255 s) = s \<and> list_all (\<lambda>c. length c \<le> 255) (split255 s) \<and>
   length (split255 s) = length s div 255 + 1 \<and> (last (split255 s) = [] \<longleftrightarrow> 255 dvd length s)"
proof -
  obtain cs l where r: "split255 s = cs @ [l]" "concat (cs @ [l]) = s"
    "\<forall>c \<in> set cs. length c = 255" "length l < 255"
    using split255_result [of s] by blast
  have "list_all (\<lambda>c. length c \<le> 255) (split255 s)"
    using r(3,4) unfolding r(1) by (simp add: list_all_iff)
  moreover have "last (split255 s) = [] \<longleftrightarrow> length s mod 255 = 0"
    using split255_counts [of s] by (metis length_0_conv)
  ultimately show ?thesis using r(1,2) split255_counts [of s] by (simp add: dvd_eq_mod_eq_0)
qed

end
