(* ===== verification/KsdnsZone.thy ===== *)
theory KsdnsZone
  imports KsdnsRecords
begin

text \<open>
  The zones of a Ksdns resource (\<open>apis/dns/v1alpha1/ksdns_types.go\<close>): a zone with its records,
  and its rendering to the text of an RFC 1035 zone file.  An abstract list of resource
  records says what the file contains.
\<close>

subsection \<open>Definitions\<close>

record Record =
  rcName :: string
  rcType :: string
  rcTTL :: int
  rcPriority :: u16
  rcWeight :: u16
  rcPort :: u16
  rcTarget :: string
  rcText :: string

record KZone =
  kzOrigin :: string
  kzRecords :: "Record list"

text \<open>\<open>Record.String\<close>; the conversion \<open>uint32(r.TTL)\<close> keeps the low 32 bits.\<close>

definition Record_String :: "'m api_lib_scheme \<Rightarrow> Record \<Rightarrow> string + string" where
  "Record_String A r =
     (let ttl = (word_of_int (rcTTL r) :: u32) in
      if rcType r = ''A'' then Inr (aString A (newA (rcName r) ttl (ParseIP (rcTarget r))))
      else if rcType r = ''CNAME'' then Inr (aString A (newCNAME A (rcName r) ttl (rcTarget r)))
      else if rcType r = ''SRV'' then
        Inr (aString A (newSRV A (rcName r) ttl (rcTarget r) (rcWeight r) (rcPriority r) (rcPort r)))
      else if rcType r = ''TXT'' then Inr (aString A (newTXT (rcName r) ttl (rcText r)))
      else Inl (''unsupported record type: '' @ rcType r))"

definition nl :: char where
  "nl = CHR 0x0A"

definition add_line :: "'m api_lib_scheme \<Rightarrow> Record \<Rightarrow> string \<Rightarrow> string option \<times> string" where
  "add_line A record txt =
     (case Record_String A record of
        Inl e \<Rightarrow> (Some e, txt)
      | Inr r \<Rightarrow> (None, txt @ r @ [nl]))"

definition ToRfc1035Zone :: "'m api_lib_scheme \<Rightarrow> int \<Rightarrow> KZone \<Rightarrow> ip \<Rightarrow> string + ZoneSpec" where
  "ToRfc1035Zone A now z nsIP =
     (if kzOrigin z = '''' then Inl ''origin cannot be empty''
      else case newSOARecord A now (kzOrigin z) of
        Inl e \<Rightarrow> Inl e
      | Inr soa \<Rightarrow>
          (case newNSRecord A (kzOrigin z) nsIP of
             Inl e \<Rightarrow> Inl e
           | Inr (ns, extra) \<Rightarrow>
               (let rrs = (soa @ ns) @ extra;
                    txt = fold (\<lambda>record txt. txt @ aString A record @ [nl]) rrs ''''
                in case for_each (add_line A) (kzRecords z) txt of
                     (Some e, _) \<Rightarrow> Inl e
                   | (None, txt') \<Rightarrow> Inr \<lparr>spZone = txt'\<rparr>)))"

subsection \<open>What the zone file contains\<close>

text \<open>
  The resource record of a user's record, where its type is supported, and the records of the
  whole zone in their order: the SOA, the NS, its address, the user's records.
\<close>

definition supported_type :: "string \<Rightarrow> bool" where
  "supported_type t \<longleftrightarrow> t = ''A'' \<or> t = ''CNAME'' \<or> t = ''SRV'' \<or> t = ''TXT''"

definition user_header :: "u16 \<Rightarrow> Record \<Rightarrow> rr_header" where
  "user_header t r = \<lparr>hName = rcName r, hRrtype = t, hClass = ClassINET, hTtl = word_of_int (rcTTL r)\<rparr>"

definition user_rr :: "'m api_lib_scheme \<Rightarrow> Record \<Rightarrow> orr" where
  "user_rr A r =
     (if rcType r = ''A'' then RR_A (user_header TypeA r) (ParseIP (rcTarget r))
      else if rcType r = ''CNAME'' then RR_CNAME (user_header TypeCNAME r) (aFqdn A (rcTarget r))
      else if rcType r = ''SRV'' then
        RR_SRV (user_header TypeSRV r) (rcPriority r) (rcWeight r) (rcPort r) (aFqdn A (rcTarget r))
      else RR_TXT (user_header TypeTXT r) (split255 (rcText r)))"

definition zone_rrs :: "'m api_lib_scheme \<Rightarrow> int \<Rightarrow> KZone \<Rightarrow> ip \<Rightarrow> orr list" where
  "zone_rrs A now z nsIP =
     (let o1 = aFqdn A (kzOrigin z); host = aFqdn A (aJoin A [nsName, kzOrigin z]) in
      [RR_SOA \<lparr>hName = o1, hRrtype = TypeSOA, hClass = ClassINET, hTtl = 30\<rparr>
         \<lparr>soaMbox = aJoin A [''hostmaster'', o1], soaNs = aJoin A [nsName, o1],
           soaSerial = serial_of_s now, soaRefresh = 7200, soaRetry = 1800, soaExpire = 86400,
           soaMinttl = 30\<rparr>,
       RR_NS \<lparr>hName = o1, hRrtype = TypeNS, hClass = ClassINET, hTtl = 30\<rparr> host,
       RR_A \<lparr>hName = host, hRrtype = TypeA, hClass = ClassINET, hTtl = 30\<rparr> nsIP] @
      map (user_rr A) (kzRecords z))"

definition zone_text :: "'m api_lib_scheme \<Rightarrow> orr list \<Rightarrow> string" where
  "zone_text A rrs = concat (map (\<lambda>rr. aString A rr @ [nl]) rrs)"

lemma Record_String_supported:
  "supported_type (rcType r) \<Longrightarrow> Record_String A r = Inr (aString A (user_rr A r))"
  by (auto simp: supported_type_def Record_String_def user_rr_def user_header_def newA_def newCNAME_def
      newSRV_def newTXT_def Let_def)

lemma Record_String_unsupported:
  "\<not> supported_type (rcType r) \<Longrightarrow> Record_String A r = Inl (''unsupported record type: '' @ rcType r)"
  by (auto simp: supported_type_def Record_String_def Let_def)

lemma fold_lines: "fold (\<lambda>record txt. txt @ aString A record @ [nl]) rrs acc = acc @ zone_text A rrs"
  by (induction rrs arbitrary: acc) (simp_all add: zone_text_def)

lemma add_lines:
  assumes "\<forall>r \<in> set rs. supported_type (rcType r)"
  shows "for_each (add_line A) rs acc = (None, acc @ zone_text A (map (user_rr A) rs))"
  using assms
  by (induction rs arbitrary: acc) (simp_all add: add_line_def Record_String_supported zone_text_def)

lemma add_lines_error:
  assumes "\<forall>r \<in> set good. supported_type (rcType r)" and "\<not> supported_type (rcType bad)"
  shows "fst (for_each (add_line A) (good @ bad # rest) acc) = Some (''unsupported record type: '' @ rcType bad)"
  using assms(2) by (simp add: for_each_append add_lines [OF assms(1)] add_line_def Record_String_unsupported)

text \<open>The rendering, given an origin: the fixed records, then the loop over the user's.\<close>

lemma ToRfc1035Zone_loop:
  assumes "kzOrigin z \<noteq> ''''"
  shows "\<exists>front. zone_rrs A now z nsIP = front @ map (user_rr A) (kzRecords z) \<and>
    ToRfc1035Zone A now z nsIP =
      (case for_each (add_line A) (kzRecords z) (zone_text A front) of
         (Some e, _) \<Rightarrow> Inl e | (None, txt') \<Rightarrow> Inr \<lparr>spZone = txt'\<rparr>)"
  using assms
  by (auto simp: zone_rrs_def ToRfc1035Zone_def newSOARecord_def newNSRecord_def newAddress_def Let_def
      fold_lines [of A _ "''''", simplified] simp del: fold_simps)

lemma ToRfc1035Zone_text:
  assumes "kzOrigin z \<noteq> ''''" and "\<forall>r \<in> set (kzRecords z). supported_type (rcType r)"
  shows "ToRfc1035Zone A now z nsIP = Inr \<lparr>spZone = zone_text A (zone_rrs A now z nsIP)\<rparr>"
proof -
  obtain front where f: "zone_rrs A now z nsIP = front @ map (user_rr A) (kzRecords z)"
    "ToRfc1035Zone A now z nsIP =
      (case for_each (add_line A) (kzRecords z) (zone_text A front) of
         (Some e, _) \<Rightarrow> Inl e | (None, txt') \<Rightarrow> Inr \<lparr>spZone = txt'\<rparr>)"
    using ToRfc1035Zone_loop [OF assms(1)] by blast
  then show ?thesis using add_lines [OF assms(2), of A] by (simp add: zone_text_def)
qed

lemma ToRfc1035Zone_ok:
  assumes "ToRfc1035Zone A now z nsIP = Inr spec"
  shows "kzOrigin z \<noteq> ''''" and "\<forall>r \<in> set (kzRecords z). supported_type (rcType r)"
proof -
  show o: "kzOrigin z \<noteq> ''''" using assms by (auto simp: ToRfc1035Zone_def)
  show "\<forall>r \<in> set (kzRecords z). supported_type (rcType r)"
  proof (rule ccontr)
    assume "\<not> ?thesis"
    then obtain good bad rest where "kzRecords z = good @ bad # rest" "\<not> supported_type (rcType bad)"
      "\<forall>r \<in> set good. supported_type (rcType r)"
      using split_list_first_prop [of "kzRecords z" "\<lambda>r. \<not> supported_type (rcType r)"] by blast
    moreover obtain front where "ToRfc1035Zone A now z nsIP =
        (case for_each (add_line A) (kzRecords z) (zone_text A front) of
           (Some e, _) \<Rightarrow> Inl e | (None, txt') \<Rightarrow> Inr \<lparr>spZone = txt'\<rparr>)"
      using ToRfc1035Zone_loop [OF o] by blast
    ultimately show False
      using add_lines_error [of good bad A rest "zone_text A front"] assms
      by (cases "for_each (add_line A) (good @ bad # rest) (zone_text A front)") simp
  qed
qed

text \<open>
  The text of an SOA record shows its serial, so zone files of different seconds differ in
  their first line, and only there.
\<close>

definition soa_text_law :: "'m api_lib_scheme \<Rightarrow> bool" where
  "soa_text_law A \<longleftrightarrow>
     (\<forall>h d s. aString A (RR_SOA h d) = aString A (RR_SOA h (d\<lparr>soaSerial := s\<rparr>)) \<longrightarrow> soaSerial d = s)"

lemma zone_rrs_serial:
  "\<exists>h d rest. \<forall>now. zone_rrs A now z nsIP = RR_SOA h (d\<lparr>soaSerial := serial_of_s now\<rparr>) # rest"
  by (rule exI [where x = "\<lparr>hName = aFqdn A (kzOrigin z), hRrtype = TypeSOA, hClass = ClassINET, hTtl = 30\<rparr>"],
      rule exI [where x = "\<lparr>soaMbox = aJoin A [''hostmaster'', aFqdn A (kzOrigin z)],
        soaNs = aJoin A [nsName, aFqdn A (kzOrigin z)], soaSerial = 0, soaRefresh = 7200,
        soaRetry = 1800, soaExpire = 86400, soaMinttl = 30\<rparr>"],
      rule exI [where x = "tl (zone_rrs A 0 z nsIP)"])
    (simp add: zone_rrs_def Let_def)

lemma zone_files_differ:
  assumes "soa_text_law A" and "ToRfc1035Zone A now z nsIP = Inr spec"
  shows "\<exists>spec'. ToRfc1035Zone A now' z nsIP = Inr spec' \<and>
    (spec' = spec \<longleftrightarrow> serial_of_s now' = serial_of_s now)"
proof -
  note ok = ToRfc1035Zone_ok [OF assms(2)]
  obtain h d rest where rrs: "\<And>t. zone_rrs A t z nsIP = RR_SOA h (d\<lparr>soaSerial := serial_of_s t\<rparr>) # rest"
    using zone_rrs_serial by metis
  have texts: "ToRfc1035Zone A t z nsIP =
      Inr \<lparr>spZone = aString A (RR_SOA h (d\<lparr>soaSerial := serial_of_s t\<rparr>)) @ [nl] @ zone_text A rest\<rparr>" for t
    by (simp add: ToRfc1035Zone_text [OF ok] rrs zone_text_def)
  have "serial_of_s now' = serial_of_s now"
    if "aString A (RR_SOA h (d\<lparr>soaSerial := serial_of_s now'\<rparr>)) = aString A (RR_SOA h (d\<lparr>soaSerial := serial_of_s now\<rparr>))"
    using assms(1) that unfolding soa_text_law_def
    by (elim allE [where x = h] allE [where x = "d\<lparr>soaSerial := serial_of_s now'\<rparr>"] allE [where x = "serial_of_s now"])
      simp
  then show ?thesis using assms(2) texts [of now] texts [of now'] by auto
qed

subsection \<open>Properties\<close>

text \<open>
  C32: the rendering of a zone.  With an origin and records of supported types, the result is
  the text, one record per line and in this order, of the zone's SOA, its NS record, the
  address of the name server, and the user's records with their types, TTLs and data.
\<close>

theorem zone_file_lists_records:
  assumes "kzOrigin z \<noteq> ''''" and "\<forall>r \<in> set (kzRecords z). supported_type (rcType r)"
  shows "ToRfc1035Zone A now z nsIP = Inr \<lparr>spZone = zone_text A (zone_rrs A now z nsIP)\<rparr>"
  by (rule ToRfc1035Zone_text [OF assms])

definition sample_api :: api_lib where
  "sample_api = \<lparr>aFqdn = s_fqdn, aJoin = (\<lambda>xs. fold (\<lambda>x acc. if acc = [] then x else acc @ ''.'' @ x) xs []),
     aString = (\<lambda>rr. hName (Header rr))\<rparr>"

definition ex_record :: "string \<Rightarrow> string \<Rightarrow> Record" where
  "ex_record t target = \<lparr>rcName = ''www'', rcType = t, rcTTL = 30, rcPriority = 0, rcWeight = 0, rcPort = 0,
     rcTarget = target, rcText = ''''\<rparr>"

theorem zone_file_lists_records_witness:
  "ToRfc1035Zone sample_api 9 \<lparr>kzOrigin = ''a'', kzRecords = [ex_record ''A'' ''1.1.1.1'']\<rparr> (Some [10, 0, 0, 10]) =
     Inr \<lparr>spZone = ''a.'' @ [nl] @ ''a.'' @ [nl] @ ''ns.dns.a.'' @ [nl] @ ''www'' @ [nl]\<rparr>"
proof -
  let ?z = "\<lparr>kzOrigin = ''a'', kzRecords = [ex_record ''A'' ''1.1.1.1'']\<rparr>"
  have o: "kzOrigin ?z \<noteq> ''''" by simp
  have r: "\<forall>r \<in> set (kzRecords ?z). supported_type (rcType r)" by (simp add: ex_record_def supported_type_def)
  from zone_file_lists_records [OF o r, of sample_api 9 "Some [10, 0, 0, 10]"]
  show ?thesis
    by (simp add: zone_text_def zone_rrs_def sample_api_def s_fqdn_def nsName_def Let_def user_rr_def
        user_header_def ex_record_def)
qed

text \<open>
  The rendering fails exactly for a zone without an origin or with a record of a type other
  than A, CNAME, SRV and TXT; the error names the first such type, and no zone file results.
\<close>

lemma zone_file_errors:
  "(kzOrigin z = '''' \<longrightarrow> ToRfc1035Zone A now z nsIP = Inl ''origin cannot be empty'') \<and>
   (kzOrigin z \<noteq> '''' \<longrightarrow> kzRecords z = good @ bad # rest \<longrightarrow>
      list_all (\<lambda>r. supported_type (rcType r)) good \<longrightarrow> \<not> supported_type (rcType bad) \<longrightarrow>
      ToRfc1035Zone A now z nsIP = Inl (''unsupported record type: '' @ rcType bad))"
proof (intro conjI impI)
  assume "kzOrigin z = ''''"
  then show "ToRfc1035Zone A now z nsIP = Inl ''origin cannot be empty''" by (simp add: ToRfc1035Zone_def)
next
  assume z: "kzOrigin z \<noteq> ''''" "kzRecords z = good @ bad # rest"
    and "list_all (\<lambda>r. supported_type (rcType r)) good" and bad: "\<not> supported_type (rcType bad)"
  then have good: "\<forall>r \<in> set good. supported_type (rcType r)" by (simp add: list_all_iff)
  obtain front where "ToRfc1035Zone A now z nsIP =
      (case for_each (add_line A) (good @ bad # rest) (zone_text A front) of
         (Some e, _) \<Rightarrow> Inl e | (None, txt') \<Rightarrow> Inr \<lparr>spZone = txt'\<rparr>)"
    using ToRfc1035Zone_loop [OF z(1), of A now nsIP] z(2) by auto
  with add_lines_error [OF good bad, of A rest "zone_text A front"]
  show "ToRfc1035Zone A now z nsIP = Inl (''unsupported record type: '' @ rcType bad)"
    by (cases "for_each (add_line A) (good @ bad # rest) (zone_text A front)") simp
qed

lemma zone_file_errors_witness:
  "ToRfc1035Zone sample_api 9 \<lparr>kzOrigin = ''a'', kzRecords = [ex_record ''MX'' ''m'']\<rparr> None =
     Inl ''unsupported record type: MX''"
  using zone_file_errors [of "\<lparr>kzOrigin = ''a'', kzRecords = [ex_record ''MX'' ''m'']\<rparr>" sample_api 9 None
      "[]" "ex_record ''MX'' ''m''" "[]"]
  by (simp add: ex_record_def supported_type_def)

text \<open>
  A bad address is not reported.  An A record whose target is no IP address is rendered all
  the same, as an A record with a nil address, and the rendering succeeds.
\<close>

theorem bad_address_is_rendered:
  assumes "kzOrigin z \<noteq> ''''" and "kzRecords z = [r]" and "rcType r = ''A''"
    and "ParseIP (rcTarget r) = None"
  shows "\<exists>rrs. ToRfc1035Zone A now z nsIP = Inr \<lparr>spZone = zone_text A (rrs @ [RR_A (user_header TypeA r) None])\<rparr>"
proof -
  have "\<forall>r \<in> set (kzRecords z). supported_type (rcType r)" using assms(2,3) by (simp add: supported_type_def)
  then have "for_each (add_line A) (kzRecords z) acc =
      (None, acc @ zone_text A [RR_A (user_header TypeA r) None])" for acc
    using add_lines [of "kzRecords z" A acc] assms(2-4) by (simp add: user_rr_def)
  then show ?thesis using ToRfc1035Zone_loop [OF assms(1), of A now nsIP] by (auto simp: zone_text_def)
qed

theorem bad_address_is_rendered_witness:
  "\<exists>rrs. ToRfc1035Zone sample_api 9 \<lparr>kzOrigin = ''a'', kzRecords = [ex_record ''A'' ''bad'']\<rparr> None =
     Inr \<lparr>spZone = zone_text sample_api (rrs @ [RR_A (user_header TypeA (ex_record ''A'' ''bad'')) None])\<rparr>"
  by (rule bad_address_is_rendered) (simp_all add: ex_record_def ParseIP_def)

text \<open>
  C37: the address of an A record is its target read as a dotted decimal.  For a target without a
  colon, the record that is rendered has four octets as its address exactly when the target
  is their dotted decimal, written without leading zeros; any other target gives the nil
  address, and no error.
\<close>

theorem address_records_are_parsed:
  assumes "rcType r = ''A''" and "CHR '':'' \<notin> set (rcTarget r)"
  shows "\<exists>addr. Record_String A r = Inr (aString A (RR_A (user_header TypeA r) addr)) \<and>
    (\<forall>a b c d. addr = Some [a, b, c, d] \<longleftrightarrow> rcTarget r = show4 a b c d) \<and>
    ((\<nexists>a b c d. rcTarget r = show4 a b c d) \<longrightarrow> addr = None)"
proof -
  have rec: "Record_String A r = Inr (aString A (RR_A (user_header TypeA r) (ParseIP (rcTarget r))))"
    using assms(1) by (simp add: Record_String_def newA_def user_header_def Let_def)
  have "ParseIP (rcTarget r) = Some [a, b, c, d] \<longleftrightarrow> rcTarget r = show4 a b c d" for a b c d
    using ParseIP_dots [OF assms(2), of "[a, b, c, d]"] ParseIP_show4 by auto
  moreover have "ParseIP (rcTarget r) = None" if "\<nexists>a b c d. rcTarget r = show4 a b c d"
    using ParseIP_dots [OF assms(2)] that by (cases "ParseIP (rcTarget r)") auto
  ultimately show ?thesis using rec by blast
qed

theorem address_records_are_parsed_witness:
  "\<exists>addr. Record_String sample_api (ex_record ''A'' ''10.0.0.1'') =
      Inr (aString sample_api (RR_A (user_header TypeA (ex_record ''A'' ''10.0.0.1'')) addr)) \<and>
    addr = Some [10, 0, 0, 1]"
proof -
  have t: "rcType (ex_record ''A'' ''10.0.0.1'') = ''A''" "CHR '':'' \<notin> set (rcTarget (ex_record ''A'' ''10.0.0.1''))"
    by (simp_all add: ex_record_def)
  have "rcTarget (ex_record ''A'' ''10.0.0.1'') = show4 10 0 0 1"
    by (simp add: ex_record_def show4_def decimal.simps dec_char_def zero_char one_char)
  with address_records_are_parsed [OF t, of sample_api] show ?thesis by blast
qed

end
