(* ===== verification/KsdnsTypes.thy ===== *)
theory KsdnsTypes
  imports KsdnsZone
begin

text \<open>
  The Ksdns resource and the Kubernetes objects the operator makes of it
  (\<open>apis/dns/v1alpha1/ksdns_types.go\<close>, \<open>controllers/dns\<close>), as far as the operator reads or
  writes their fields, and its client as a parameter over an abstract cluster.
\<close>

subsection \<open>The Ksdns resource\<close>

record ExposeService =
  exType :: string
  exExternalIPs :: "string list"
  exLoadBalancerIP :: string
  exProvider :: string
  exAnnotations :: "string \<rightharpoonup> string"

text \<open>The two services are pointers.\<close>

record Expose =
  exCoreDNS :: "ExposeService option"
  exZupd :: "ExposeService option"

record CoreDNS =
  cdImage :: string
  cdReplicas :: int

record KsdnsSpec =
  ksZones :: "KZone list"
  ksCoreDNS :: CoreDNS
  ksSecret :: "string option"
  ksExpose :: Expose

record Ksdns =
  ksMeta :: ObjectMeta
  ksSpec :: KsdnsSpec
  ksConditions :: "string list"

abbreviation ks_name :: "Ksdns \<Rightarrow> string" where "ks_name k \<equiv> omName (ksMeta k)"
abbreviation ks_ns :: "Ksdns \<Rightarrow> string" where "ks_ns k \<equiv> omNamespace (ksMeta k)"

subsection \<open>Objects the operator writes\<close>

type_synonym labels = "string \<rightharpoonup> string"

record ServicePort =
  spName :: string
  spPort :: int
  spTargetPort :: int
  spProtocol :: string

record ServiceSpec =
  svSelector :: labels
  svType :: string
  svPorts :: "ServicePort list"
  svClusterIP :: string

record Secret =
  scMeta :: ObjectMeta
  scStringData :: "string \<rightharpoonup> string"
  scData :: "string \<rightharpoonup> string"

datatype volume = ConfigMapVolume string | SecretVolume string

record Container =
  cnName :: string
  cnImage :: string
  cnPorts :: "(int \<times> string) list"
  cnReadiness :: "(string \<times> int) option"
  cnLiveness :: "(string \<times> int) option"
  cnArgs :: "string list"
  cnMounts :: "(string \<times> string) list"

record DeploymentSpec =
  dpReplicas :: int
  dpSelector :: labels
  dpLabels :: labels
  dpServiceAccount :: string
  dpContainers :: "Container list"
  dpVolumes :: "(string \<times> volume) list"

record PolicyRule =
  prGroups :: "string list"
  prResources :: "string list"
  prVerbs :: "string list"

datatype kobj =
  OZone Zone
| OConfigMap ObjectMeta "string \<rightharpoonup> string"
| OSecret Secret
| OServiceAccount ObjectMeta
| OService ObjectMeta ServiceSpec
| ODeployment ObjectMeta DeploymentSpec
| ORole ObjectMeta "PolicyRule list"
| ORoleBinding ObjectMeta "(string \<times> string \<times> string) list" "string \<times> string \<times> string"

definition object_meta :: "string \<Rightarrow> string \<Rightarrow> labels \<Rightarrow> ObjectMeta" where
  "object_meta name ns ls =
     \<lparr>omName = name, omNamespace = ns, omLabels = ls, omDeletion = None, omVersion = '''', omOwner = None\<rparr>"

text \<open>The errors the operator returns.\<close>

datatype op_error = OpKube kerr | OpTimeout | OpText string | OpAggregate "string list"

subsection \<open>The client\<close>

text \<open>
  \<open>oCreateOrUpdate\<close> is \<open>controllerutil.CreateOrUpdate\<close>: it gets the object, applies the mutating
  function, and creates or updates; its result is the operation.  \<open>oSetOwner\<close> is
  \<open>ctrl.SetControllerReference\<close>.  \<open>oListPods\<close> yields the name and IP of the pods with the labels.
  \<open>oBackoff\<close> is \<open>wait.ExponentialBackoff\<close> with the backoff \<open>retry.DefaultBackoff\<close>: it is given the
  condition, a function that reads and writes the variable it captures and the cluster.
\<close>

record 'c op_lib = api_lib +
  oGetKsdns :: "'c \<Rightarrow> string \<Rightarrow> string \<Rightarrow> kerr + Ksdns"
  oUpdateStatus :: "'c \<Rightarrow> Ksdns \<Rightarrow> kerr option \<times> 'c"
  oGetSecret :: "'c \<Rightarrow> string \<Rightarrow> string \<Rightarrow> kerr + Secret"
  oCreateSecret :: "'c \<Rightarrow> Secret \<Rightarrow> (kerr + Secret) \<times> 'c"
  oGetService :: "'c \<Rightarrow> string \<Rightarrow> string \<Rightarrow> kerr + ServiceSpec"
  oListZones :: "'c \<Rightarrow> string \<Rightarrow> kerr + Zone list"
  oListPods :: "'c \<Rightarrow> string \<Rightarrow> labels \<Rightarrow> kerr + (string \<times> string) list"
  oCreateOrUpdate :: "'c \<Rightarrow> kobj \<Rightarrow> (kobj \<Rightarrow> kerr + kobj) \<Rightarrow> (kerr + string) \<times> 'c"
  oSetOwner :: "Ksdns \<Rightarrow> kobj \<Rightarrow> kerr + kobj"
  oBackoff :: "(string \<times> 'c \<Rightarrow> (bool \<times> op_error option) \<times> string \<times> 'c) \<Rightarrow> string \<times> 'c \<Rightarrow>
    op_error option \<times> string \<times> 'c"

end
