(* ===== verification/KsdnsUtils.thy ===== *)
theory KsdnsUtils
  imports KsdnsTypes
begin

text \<open>
  The operator's helpers (\<open>controllers/dns/utils.go\<close>, \<open>zone.go\<close> and the lookups of
  \<open>coredns.go\<close>): labels and selectors, creating or updating an object with retries, writing
  the Zone objects, reading the zones of the namespace and the address of the update server.
\<close>

subsection \<open>Labels\<close>

definition kdnsVersion :: string where
  "kdnsVersion = ''v0.0.1''"

definition makeLabels :: "string \<Rightarrow> Ksdns \<Rightarrow> labels" where
  "makeLabels name k =
     [''app.kubernetes.io/name'' \<mapsto> name,
      ''app.kubernetes.io/version'' \<mapsto> kdnsVersion,
      ''app.kubernetes.io/managed-by'' \<mapsto> ''ksdns'',
      ''app.kubernetes.io/instance'' \<mapsto> ks_name k]"

definition makeSelector :: "string \<Rightarrow> Ksdns \<Rightarrow> labels" where
  "makeSelector name k =
     [''app.kubernetes.io/name'' \<mapsto> name,
      ''app.kubernetes.io/instance'' \<mapsto> ks_name k]"

definition corednsName :: "Ksdns \<Rightarrow> string" where
  "corednsName k = ks_name k @ ''-coredns''"

definition zupdName :: "Ksdns \<Rightarrow> string" where
  "zupdName k = ks_name k @ ''-zupd''"

subsection \<open>Retries\<close>

text \<open>
  The condition given to \<open>wait.ExponentialBackoff\<close>: it is done on success, asks for another
  attempt on a conflict and fails on other errors.  It captures the variable \<open>operationResult\<close>
  (what an attempt with an error leaves in it is not looked at).
\<close>

definition retry_condition ::
  "('c, 'm) op_lib_scheme \<Rightarrow> kobj \<Rightarrow> (kobj \<Rightarrow> kerr + kobj) \<Rightarrow> string \<times> 'c \<Rightarrow>
   (bool \<times> op_error option) \<times> string \<times> 'c" where
  "retry_condition K obj f s =
     (case oCreateOrUpdate K (snd s) obj f of
        (Inr op, c') \<Rightarrow> ((True, None), (op, c'))
      | (Inl e, c') \<Rightarrow>
          if e \<noteq> KConflict then ((False, Some (OpKube e)), (fst s, c'))
          else ((False, None), (fst s, c')))"

definition CreateOrUpdateWithRetries ::
  "('c, 'm) op_lib_scheme \<Rightarrow> kobj \<Rightarrow> (kobj \<Rightarrow> kerr + kobj) \<Rightarrow> 'c \<Rightarrow> (op_error + string) \<times> 'c" where
  "CreateOrUpdateWithRetries K obj f c =
     (case oBackoff K (retry_condition K obj f) ('''', c) of
        (Some updateErr, operationResult, c') \<Rightarrow> (Inl updateErr, c')
      | (None, operationResult, c') \<Rightarrow> (Inr operationResult, c'))"

subsection \<open>Zone objects\<close>

text \<open>
  The mutating function of \<open>ensureZones\<close>: the spec, then the owner.  (The other kinds of
  objects cannot occur: the function is applied to the Zone it closes over.)
\<close>

definition set_zone_spec :: "('c, 'm) op_lib_scheme \<Rightarrow> Ksdns \<Rightarrow> ZoneSpec \<Rightarrow> kobj \<Rightarrow> kerr + kobj" where
  "set_zone_spec K k spec obj =
     (case obj of OZone z \<Rightarrow> oSetOwner K k (OZone (z\<lparr>zSpec := spec\<rparr>)) | _ \<Rightarrow> oSetOwner K k obj)"

definition ensure_zone ::
  "('c, 'm) op_lib_scheme \<Rightarrow> int \<Rightarrow> Ksdns \<Rightarrow> KZone \<Rightarrow> 'c \<Rightarrow> 'c" where
  "ensure_zone K now k z c =
     (case ToRfc1035Zone K now z (Some [10, 0, 0, 10]) of
        Inl e \<Rightarrow> c
      | Inr spec \<Rightarrow>
          snd (CreateOrUpdateWithRetries K
            (OZone \<lparr>zMeta = object_meta (kzOrigin z) (ks_ns k) (makeLabels ''zone'' k),
               zSpec = \<lparr>spZone = ''''\<rparr>, zStatus = \<lparr>DynamicRRs = [], Serial = 0\<rparr>\<rparr>)
            (set_zone_spec K k spec) c))"

text \<open>Errors of the conversion are logged, those of the client are dropped; the result is nil.\<close>

definition ensureZones ::
  "('c, 'm) op_lib_scheme \<Rightarrow> int \<Rightarrow> Ksdns \<Rightarrow> 'c \<Rightarrow> op_error option \<times> 'c" where
  "ensureZones K now k c = (None, fold (ensure_zone K now k) (ksZones (ksSpec k)) c)"

subsection \<open>Lookups\<close>

definition getZones :: "('c, 'm) op_lib_scheme \<Rightarrow> Ksdns \<Rightarrow> 'c \<Rightarrow> kerr + string list" where
  "getZones K k c =
     (case oListZones K c (ks_ns k) of
        Inl e \<Rightarrow> Inl e
      | Inr items \<Rightarrow>
          (let zones = map (\<lambda>z. omName (zMeta z)) items in
           if length zones = 0 then Inr [''.''] else Inr zones))"

definition getZupdIPs :: "('c, 'm) op_lib_scheme \<Rightarrow> Ksdns \<Rightarrow> 'c \<Rightarrow> kerr + string list" where
  "getZupdIPs K k c =
     (case oGetService K c (ks_ns k) (zupdName k) of
        Inl e \<Rightarrow> (if e = KNotFound then Inr [''169.254.0.1''] else Inl e)
      | Inr svc \<Rightarrow>
          (if svClusterIP svc = '''' then Inr [''169.254.0.1''] else Inr [svClusterIP svc]))"

subsection \<open>The retry loop\<close>

text \<open>
  The documented behaviour of \<open>wait.ExponentialBackoff\<close>: it checks the condition until it is true
  or returns an error, which it returns, at most as often as the backoff has steps; then it
  returns its timeout error.  The number of steps of the backoff is a parameter.
\<close>

fun polled :: "nat \<Rightarrow> ('s \<Rightarrow> (bool \<times> op_error option) \<times> 's) \<Rightarrow> 's \<Rightarrow> op_error option \<times> 's" where
  "polled 0 cond s = (Some OpTimeout, s)"
| "polled (Suc n) cond s =
     (case cond s of
        ((ok, Some e), s') \<Rightarrow> (Some e, s')
      | ((ok, None), s') \<Rightarrow> if ok then (None, s') else polled n cond s')"

definition backoff_law :: "nat \<Rightarrow> ('c, 'm) op_lib_scheme \<Rightarrow> bool" where
  "backoff_law n K \<longleftrightarrow> (\<forall>cond s. oBackoff K cond s = polled n cond s)"

text \<open>At most \<open>n\<close> attempts at an object, the next one after a conflict.\<close>

fun attempts :: "nat \<Rightarrow> ('c \<Rightarrow> (kerr + 'r) \<times> 'c) \<Rightarrow> 'c \<Rightarrow> (op_error + 'r) \<times> 'c" where
  "attempts 0 attempt c = (Inl OpTimeout, c)"
| "attempts (Suc n) attempt c =
     (case attempt c of
        (Inr op, c') \<Rightarrow> (Inr op, c')
      | (Inl e, c') \<Rightarrow>
          if e \<noteq> KConflict then (Inl (OpKube e), c') else attempts n attempt c')"

lemma polled_attempts:
  "(case polled n (retry_condition K obj f) (r, c) of
      (Some e, op, c') \<Rightarrow> (Inl e, c') | (None, op, c') \<Rightarrow> (Inr op, c')) =
   attempts n (\<lambda>c. oCreateOrUpdate K c obj f) c"
proof (induction n arbitrary: c)
  case 0
  then show ?case by simp
next
  case (Suc n)
  obtain res c1 where "oCreateOrUpdate K c obj f = (res, c1)" by (metis prod.exhaust)
  with Suc.IH [of c1] show ?case by (cases res) (simp_all add: retry_condition_def)
qed

lemma retries_attempts:
  "backoff_law n K \<Longrightarrow>
   CreateOrUpdateWithRetries K obj f c = attempts n (\<lambda>c. oCreateOrUpdate K c obj f) c"
  by (simp add: CreateOrUpdateWithRetries_def backoff_law_def polled_attempts)

text \<open>\<open>k\<close> attempts in a row that end in a conflict lead from one cluster to another.\<close>

fun conflicts :: "('c \<Rightarrow> (kerr + 'r) \<times> 'c) \<Rightarrow> nat \<Rightarrow> 'c \<Rightarrow> 'c option" where
  "conflicts attempt 0 c = Some c"
| "conflicts attempt (Suc k) c =
     (case attempt c of (Inl KConflict, c') \<Rightarrow> conflicts attempt k c' | _ \<Rightarrow> None)"

lemma attempts_end:
  "\<exists>k c'. k \<le> n \<and> conflicts attempt k c = Some c' \<and>
     (k = n \<and> attempts n attempt c = (Inl OpTimeout, c') \<or>
      k < n \<and> fst (attempt c') \<noteq> Inl KConflict \<and>
      attempts n attempt c = (map_sum OpKube (\<lambda>x. x) (fst (attempt c')), snd (attempt c')))"
proof (induction n arbitrary: c)
  case 0
  then show ?case by simp
next
  case (Suc n)
  obtain res c1 where a: "attempt c = (res, c1)" by (metis prod.exhaust)
  show ?case
  proof (cases "res = Inl KConflict")
    case True
    obtain k c' where k: "k \<le> n" "conflicts attempt k c1 = Some c'"
      "k = n \<and> attempts n attempt c1 = (Inl OpTimeout, c') \<or>
       k < n \<and> fst (attempt c') \<noteq> Inl KConflict \<and>
       attempts n attempt c1 = (map_sum OpKube (\<lambda>x. x) (fst (attempt c')), snd (attempt c'))"
      using Suc.IH [of c1] by blast
    have "conflicts attempt (Suc k) c = Some c'" using a True k(2) by simp
    moreover have "attempts (Suc n) attempt c = attempts n attempt c1" using a True by simp
    ultimately show ?thesis using k(1,3) by (intro exI [of _ "Suc k"] exI [of _ c']) auto
  next
    case False
    then have "attempts (Suc n) attempt c = (map_sum OpKube (\<lambda>x. x) res, c1)"
      using a by (cases res) auto
    then show ?thesis using a False by (intro exI [of _ 0] exI [of _ c]) simp
  qed
qed

subsection \<open>Properties\<close>

text \<open>
  C34: writing an object is retried on conflicts and on nothing else.  The hypothesis is the
  documented behaviour of \<open>wait.ExponentialBackoff\<close> with a backoff of \<open>n\<close> steps.  The attempts
  before the last one all end in a conflict; either \<open>n\<close> conflicts use up the steps and the result
  is the timeout, or an attempt that is no conflict ends the retries, and its result, an
  operation or an error, is the result, on the cluster it leaves.
\<close>

theorem retries_end:
  assumes "backoff_law n K"
  shows "\<exists>k c'. conflicts (\<lambda>c. oCreateOrUpdate K c obj f) k c = Some c' \<and>
     (k = n \<and> CreateOrUpdateWithRetries K obj f c = (Inl OpTimeout, c') \<or>
      k < n \<and> fst (oCreateOrUpdate K c' obj f) \<noteq> Inl KConflict \<and>
      CreateOrUpdateWithRetries K obj f c =
        (map_sum OpKube (\<lambda>x. x) (fst (oCreateOrUpdate K c' obj f)), snd (oCreateOrUpdate K c' obj f)))"
  using attempts_end [of n "\<lambda>c. oCreateOrUpdate K c obj f" c] retries_attempts [OF assms] by auto

text \<open>A client whose cluster counts the conflicts that are still to come, with four steps.\<close>

definition busy_op :: "nat op_lib" where
  "busy_op = \<lparr>aFqdn = (\<lambda>n. n), aJoin = concat, aString = (\<lambda>rr. hName (Header rr)),
     oGetKsdns = (\<lambda>c ns nm. Inl KNotFound),
     oUpdateStatus = (\<lambda>c k. (None, c)),
     oGetSecret = (\<lambda>c ns nm. Inl KNotFound),
     oCreateSecret = (\<lambda>c s. (Inr s, c)),
     oGetService = (\<lambda>c ns nm. Inl KNotFound),
     oListZones = (\<lambda>c ns. Inr []),
     oListPods = (\<lambda>c ns ls. Inr []),
     oCreateOrUpdate = (\<lambda>c obj f. case c of 0 \<Rightarrow> (Inr ''updated'', 0) | Suc n \<Rightarrow> (Inl KConflict, n)),
     oSetOwner = (\<lambda>k x. Inr x),
     oBackoff = polled 4\<rparr>"

theorem retries_end_witness:
  "CreateOrUpdateWithRetries busy_op (OServiceAccount (object_meta [] [] Map.empty)) Inr 3 = (Inr ''updated'', 0) \<and>
   CreateOrUpdateWithRetries busy_op (OServiceAccount (object_meta [] [] Map.empty)) Inr 4 = (Inl OpTimeout, 0)"
proof -
  let ?o = "OServiceAccount (object_meta [] [] Map.empty)"
  have law: "backoff_law 4 busy_op" by (simp add: backoff_law_def busy_op_def)
  have attempt: "oCreateOrUpdate busy_op c obj f = (if c = 0 then (Inr ''updated'', 0) else (Inl KConflict, c - 1))"
    for c obj f
    by (simp add: busy_op_def split: nat.split)
  have conf: "conflicts (\<lambda>c. if c = 0 then (Inr ''updated'', 0) else (Inl KConflict, c - 1)) k c =
      (if k \<le> c then Some (c - k) else None)" for k and c :: nat
    by (induction k arbitrary: c) auto
  have "CreateOrUpdateWithRetries busy_op ?o Inr 3 = (Inr ''updated'', 0)"
    using retries_end [OF law, of ?o Inr 3] by (auto simp: conf attempt split: if_splits)
  moreover have "CreateOrUpdateWithRetries busy_op ?o Inr 4 = (Inl OpTimeout, 0)"
    using retries_end [OF law, of ?o Inr 4] by (auto simp: conf attempt split: if_splits)
  ultimately show ?thesis by blast
qed

end
