(* ===== verification/KsdnsCoreDNS.thy ===== *)
theory KsdnsCoreDNS
  imports KsdnsUtils
begin

text \<open>
  The objects of the secondary CoreDNS server (\<open>controllers/dns/coredns.go\<close>): Corefile, TSIG
  secret, service account, service and deployment.
\<close>

subsection \<open>Templates\<close>

definition dq :: char where "dq = CHR 0x22"
definition tab :: char where "tab = CHR 0x09"

text \<open>The lines of a text, each ended by a newline.\<close>

definition text_lines :: "string list \<Rightarrow> string" where
  "text_lines ls = concat (map (\<lambda>l. l @ [nl]) ls)"

text \<open>
  The lines both Corefile templates share: the zones are written one after the other, each
  with its port and nothing in between.
\<close>

definition corefile_head :: "string list \<Rightarrow> bool \<Rightarrow> string list" where
  "corefile_head zones debug =
     [''# This files is auto-generated by ksdns-controller. Do NOT edit.'',
      concat (map (\<lambda>z. z @ '':1053'') zones) @ '' {'',
      ''  '' @ (if debug then ''debug'' else ''''),
      ''  '' @ (if debug then ''log'' else ''''),
      ''  reload'', ''  ready'', ''  health'', ''  prometheus'',
      ''  tsig {'',
      [tab] @ ''secrets /etc/coredns/secret/tsig.conf'',
      [tab] @ ''require none'',
      ''  }'']"

definition renderCoreDNSCorefile :: "string list \<Rightarrow> string list \<Rightarrow> bool \<Rightarrow> string" where
  "renderCoreDNSCorefile zones secondaryFrom debug =
     text_lines (corefile_head zones debug @
       [''  secondary {'',
        [tab] @ ''transfer from '' @ concat (map (\<lambda>a. a @ '':1053 '') secondaryFrom),
        ''  }'',
        ''}''])"

definition renderCoreFileTsigSecret :: "string \<Rightarrow> string \<Rightarrow> string" where
  "renderCoreFileTsigSecret key secret =
     text_lines
       [''key '' @ [dq] @ key @ [dq] @ '' {'',
        ''  secret '' @ [dq] @ secret @ [dq] @ '';'',
        ''};'']"

definition tsigKey :: string where
  "tsigKey = ''ksdns.tsigKey.''"

subsection \<open>Service and deployment\<close>

text \<open>A missing \<open>expose.coredns\<close> is a nil pointer that is dereferenced.\<close>

definition coreDNSServiceSpec :: "Ksdns \<Rightarrow> (op_error + ServiceSpec) go" where
  "coreDNSServiceSpec k =
     (case exCoreDNS (ksExpose (ksSpec k)) of
        None \<Rightarrow> Panic
      | Some e \<Rightarrow>
          if exType e = ''ClusterIP'' then
            Ret (Inr \<lparr>svSelector = makeSelector ''coredns'' k, svType = ''ClusterIP'',
              svPorts =
                [\<lparr>spName = ''dns-udp'', spPort = 53, spTargetPort = 1053, spProtocol = ''UDP''\<rparr>,
                 \<lparr>spName = ''dns-tcp'', spPort = 53, spTargetPort = 1053, spProtocol = ''TCP''\<rparr>],
              svClusterIP = ''''\<rparr>)
          else Ret (Inl (OpText (''unsupported service type: '' @ exType e))))"

definition server_mounts :: "(string \<times> string) list" where
  "server_mounts = [(''config-volume'', ''/etc/coredns/config''), (''secret-volume'', ''/etc/coredns/secret'')]"

definition coreDNSDeployment :: "Ksdns \<Rightarrow> kobj" where
  "coreDNSDeployment k =
     ODeployment (object_meta (corednsName k) (ks_ns k) Map.empty)
       \<lparr>dpReplicas = cdReplicas (ksCoreDNS (ksSpec k)),
        dpSelector = makeSelector ''coredns'' k,
        dpLabels = makeLabels ''coredns'' k,
        dpServiceAccount = corednsName k,
        dpContainers =
          [\<lparr>cnName = ''coredns'', cnImage = cdImage (ksCoreDNS (ksSpec k)),
            cnPorts = [(1053, ''TCP''), (1053, ''UDP'')],
            cnReadiness = None, cnLiveness = None,
            cnArgs = [''run'', ''--conf'', ''/etc/coredns/config/Corefile''],
            cnMounts = server_mounts\<rparr>],
        dpVolumes =
          [(''config-volume'', ConfigMapVolume (corednsName k)),
           (''secret-volume'', SecretVolume (corednsName k))]\<rparr>"

subsection \<open>Ensuring the objects\<close>

text \<open>The mutating functions: set the data (where there is any) and the owner.\<close>

definition set_config :: "('c, 'm) op_lib_scheme \<Rightarrow> Ksdns \<Rightarrow> string \<Rightarrow> kobj \<Rightarrow> kerr + kobj" where
  "set_config K k corefile obj =
     (case obj of OConfigMap m d \<Rightarrow> oSetOwner K k (OConfigMap m [''Corefile'' \<mapsto> corefile])
      | _ \<Rightarrow> oSetOwner K k obj)"

definition set_tsig :: "('c, 'm) op_lib_scheme \<Rightarrow> Ksdns \<Rightarrow> string \<Rightarrow> kobj \<Rightarrow> kerr + kobj" where
  "set_tsig K k conf obj =
     (case obj of OSecret s \<Rightarrow> oSetOwner K k (OSecret (s\<lparr>scStringData := [''tsig.conf'' \<mapsto> conf]\<rparr>))
      | _ \<Rightarrow> oSetOwner K k obj)"

definition set_service :: "('c, 'm) op_lib_scheme \<Rightarrow> Ksdns \<Rightarrow> ServiceSpec \<Rightarrow> kobj \<Rightarrow> kerr + kobj" where
  "set_service K k spec obj =
     (case obj of OService m s \<Rightarrow> oSetOwner K k (OService m spec) | _ \<Rightarrow> oSetOwner K k obj)"

text \<open>Dropping the operation of a result, which is only logged.\<close>

definition only_error :: "(op_error + 'r) \<times> 'c \<Rightarrow> op_error option \<times> 'c" where
  "only_error r = (case r of (Inl e, c) \<Rightarrow> (Some e, c) | (Inr op, c) \<Rightarrow> (None, c))"

definition ensureCoreDNSConfigMap ::
  "('c, 'm) op_lib_scheme \<Rightarrow> Ksdns \<Rightarrow> 'c \<Rightarrow> op_error option \<times> 'c" where
  "ensureCoreDNSConfigMap K k c =
     (case getZupdIPs K k c of
        Inl e \<Rightarrow> (Some (OpKube e), c)
      | Inr secondaryFrom \<Rightarrow>
          (case getZones K k c of
             Inl e \<Rightarrow> (Some (OpKube e), c)
           | Inr zones \<Rightarrow>
               only_error (CreateOrUpdateWithRetries K
                 (OConfigMap (object_meta (corednsName k) (ks_ns k) (makeLabels ''coredns'' k)) Map.empty)
                 (set_config K k (renderCoreDNSCorefile zones secondaryFrom False)) c)))"

definition empty_secret :: Secret where
  "empty_secret = \<lparr>scMeta = object_meta '''' '''' Map.empty, scStringData = Map.empty, scData = Map.empty\<rparr>"

text \<open>\<open>string(secret.Data[key])\<close>: the empty string for a missing key.\<close>

definition data_text :: "Secret \<Rightarrow> string \<Rightarrow> string" where
  "data_text s key = (case scData s key of None \<Rightarrow> '''' | Some v \<Rightarrow> v)"

text \<open>
  The first half of \<open>ensureCoreDNSSecret\<close>: the secret with the key.  \<open>ts\<close> is the result of
  \<open>generateTsigSecret\<close>.  Without a secret in the spec, an error of the lookup other than "not
  found" is dropped, and the secret stays the empty struct.
\<close>

definition tsig_source ::
  "('c, 'm) op_lib_scheme \<Rightarrow> string \<Rightarrow> Ksdns \<Rightarrow> 'c \<Rightarrow> (op_error + Secret) \<times> 'c" where
  "tsig_source K ts k c =
     (case ksSecret (ksSpec k) of
        None \<Rightarrow>
          (case oGetSecret K c (ks_ns k) (ks_name k) of
             Inr s \<Rightarrow> (Inr s, c)
           | Inl e \<Rightarrow>
               if e = KNotFound then
                 (let secret = \<lparr>scMeta = object_meta (ks_name k) (ks_ns k) (makeLabels ''ksdns'' k),
                       scStringData = [''tsigKey'' \<mapsto> tsigKey, ''tsigSecret'' \<mapsto> ts],
                       scData = Map.empty\<rparr> in
                  case oSetOwner K k (OSecret secret) of
                    Inl e \<Rightarrow> (Inl (OpKube e), c)
                  | Inr (OSecret s) \<Rightarrow>
                      (case oCreateSecret K c s of
                         (Inl e, c') \<Rightarrow> (Inl (OpKube e), c')
                       | (Inr s', c') \<Rightarrow> (Inr s', c'))
                  | Inr _ \<Rightarrow> (Inr secret, c))
               else (Inr empty_secret, c))
      | Some nm \<Rightarrow>
          (case oGetSecret K c (ks_ns k) nm of
             Inl e \<Rightarrow> (Inl (OpKube e), c)
           | Inr s \<Rightarrow>
               (let errs =
                  (if scData s ''tsigKey'' = None
                   then [''secret '' @ nm @ '' does not have the correct data, missing tsigKey field''] else []) @
                  (if scData s ''tsigSecret'' = None
                   then [''secret '' @ nm @ '' does not have the correct data, missing tsigSecret field''] else [])
                in if length errs > 0 then (Inl (OpAggregate errs), c) else (Inr s, c))))"

definition ensureCoreDNSSecret ::
  "('c, 'm) op_lib_scheme \<Rightarrow> string \<Rightarrow> Ksdns \<Rightarrow> 'c \<Rightarrow> op_error option \<times> 'c" where
  "ensureCoreDNSSecret K ts k c =
     (case tsig_source K ts k c of
        (Inl e, c') \<Rightarrow> (Some e, c')
      | (Inr s, c') \<Rightarrow>
          only_error (CreateOrUpdateWithRetries K
            (OSecret \<lparr>scMeta = object_meta (corednsName k) (ks_ns k) (makeLabels ''ksdns'' k),
               scStringData = Map.empty, scData = Map.empty\<rparr>)
            (set_tsig K k (renderCoreFileTsigSecret (data_text s ''tsigKey'') (data_text s ''tsigSecret''))) c'))"

definition ensureCoreDNSserviceaccount ::
  "('c, 'm) op_lib_scheme \<Rightarrow> Ksdns \<Rightarrow> 'c \<Rightarrow> op_error option \<times> 'c" where
  "ensureCoreDNSserviceaccount K k c =
     only_error (CreateOrUpdateWithRetries K
       (OServiceAccount (object_meta (corednsName k) (ks_ns k) (makeLabels ''ksdns'' k)))
       (oSetOwner K k) c)"

definition ensureCoreDNSservice ::
  "('c, 'm) op_lib_scheme \<Rightarrow> Ksdns \<Rightarrow> 'c \<Rightarrow> (op_error option \<times> 'c) go" where
  "ensureCoreDNSservice K k c =
     (case coreDNSServiceSpec k of
        Panic \<Rightarrow> Panic
      | Ret (Inl e) \<Rightarrow> Ret (Some e, c)
      | Ret (Inr spec) \<Rightarrow>
          Ret (only_error (CreateOrUpdateWithRetries K
            (OService (object_meta (corednsName k) (ks_ns k) (makeLabels ''ksdns'' k))
               \<lparr>svSelector = Map.empty, svType = '''', svPorts = [], svClusterIP = ''''\<rparr>)
            (set_service K k spec) c)))"

definition ensureCoreDNS ::
  "('c, 'm) op_lib_scheme \<Rightarrow> Ksdns \<Rightarrow> 'c \<Rightarrow> (op_error option \<times> 'c) go" where
  "ensureCoreDNS K k c =
     (case ensureCoreDNSConfigMap K k c of
        (Some e, c1) \<Rightarrow> Ret (Some e, c1)
      | (None, c1) \<Rightarrow>
          (case ensureCoreDNSserviceaccount K k c1 of
             (Some e, c2) \<Rightarrow> Ret (Some e, c2)
           | (None, c2) \<Rightarrow>
               (case ensureCoreDNSservice K k c2 of
                  Panic \<Rightarrow> Panic
                | Ret (Some e, c3) \<Rightarrow> Ret (Some e, c3)
                | Ret (None, c3) \<Rightarrow>
                    Ret (only_error (CreateOrUpdateWithRetries K (coreDNSDeployment k) (oSetOwner K k) c3)))))"

subsection \<open>Properties\<close>

text \<open>
  The zones of a Corefile run together.  The template writes no separator between them, so
  the Corefile of two zones is the Corefile of one zone whose name is the first with its port
  followed by the second: the server does not serve either of the two.
\<close>

theorem corefile_zones_run_together:
  "renderCoreDNSCorefile (zs @ [a, b] @ zs') from debug =
   renderCoreDNSCorefile (zs @ [a @ '':1053'' @ b] @ zs') from debug"
  by (simp add: renderCoreDNSCorefile_def corefile_head_def)

text \<open>
  An error of the lookup of the secret is taken for a secret without data.  When no secret
  is named in the spec and the lookup fails with anything but "not found", no secret is
  created, and the TSIG configuration is written with an empty key name and an empty secret.
\<close>

lemma secret_error_writes_empty_key:
  assumes "ksSecret (ksSpec k) = None" and "oGetSecret K c (ks_ns k) (ks_name k) = Inl e" and "e \<noteq> KNotFound"
  shows "ensureCoreDNSSecret K ts k c = only_error (CreateOrUpdateWithRetries K
      (OSecret \<lparr>scMeta = object_meta (corednsName k) (ks_ns k) (makeLabels ''ksdns'' k),
         scStringData = Map.empty, scData = Map.empty\<rparr>)
      (set_tsig K k (text_lines [''key '' @ [dq, dq] @ '' {'', ''  secret '' @ [dq, dq] @ '';'', ''};''])) c)"
  using assms by (simp add: ensureCoreDNSSecret_def tsig_source_def empty_secret_def data_text_def
      renderCoreFileTsigSecret_def)

text \<open>
  A secret named by the user must have both fields.  When one is missing, the result is one
  error that names every missing field, and nothing is written to the cluster.
\<close>

theorem user_secret_is_checked:
  assumes "ksSecret (ksSpec k) = Some nm" and "oGetSecret K c (ks_ns k) nm = Inr s"
    and "scData s ''tsigKey'' = None \<or> scData s ''tsigSecret'' = None"
  shows "\<exists>errs. ensureCoreDNSSecret K ts k c = (Some (OpAggregate errs), c) \<and>
    length errs = (if scData s ''tsigKey'' = None then 1 else 0) + (if scData s ''tsigSecret'' = None then 1 else 0)"
  using assms by (auto simp: ensureCoreDNSSecret_def tsig_source_def)

subsection \<open>A small cluster\<close>

text \<open>A concrete client for the witnesses: a cluster is the list of the objects written.\<close>

definition sample_op :: "kobj list op_lib" where
  "sample_op = \<lparr>aFqdn = s_fqdn, aJoin = concat, aString = (\<lambda>rr. hName (Header rr)),
     oGetKsdns = (\<lambda>c ns nm. Inl KNotFound),
     oUpdateStatus = (\<lambda>c k. (None, c)),
     oGetSecret = (\<lambda>c ns nm. if nm = ''user'' then Inr empty_secret else Inl (KOther ''timeout'')),
     oCreateSecret = (\<lambda>c s. (Inr s, c @ [OSecret s])),
     oGetService = (\<lambda>c ns nm. Inl KNotFound),
     oListZones = (\<lambda>c ns. Inr []),
     oListPods = (\<lambda>c ns ls. Inr []),
     oCreateOrUpdate = (\<lambda>c obj f. case f obj of Inl e \<Rightarrow> (Inl e, c) | Inr x \<Rightarrow> (Inr ''created'', c @ [x])),
     oSetOwner = (\<lambda>k x. Inr x),
     oBackoff = polled 4\<rparr>"

definition ex_ksdns :: "string option \<Rightarrow> ExposeService option \<Rightarrow> Ksdns" where
  "ex_ksdns sec e = \<lparr>ksMeta = object_meta ''k'' ''d'' Map.empty,
     ksSpec = \<lparr>ksZones = [], ksCoreDNS = \<lparr>cdImage = ''i'', cdReplicas = 2\<rparr>, ksSecret = sec,
       ksExpose = \<lparr>exCoreDNS = e, exZupd = None\<rparr>\<rparr>,
     ksConditions = [''Available'']\<rparr>"

lemma secret_error_writes_empty_key_witness:
  "ensureCoreDNSSecret sample_op ''s3cret'' (ex_ksdns None None) [] =
     (None, [OSecret \<lparr>scMeta = object_meta ''k-coredns'' ''d'' (makeLabels ''ksdns'' (ex_ksdns None None)),
        scStringData = [''tsig.conf'' \<mapsto>
          text_lines [''key '' @ [dq, dq] @ '' {'', ''  secret '' @ [dq, dq] @ '';'', ''};'']],
        scData = Map.empty\<rparr>])"
proof -
  have a: "ksSecret (ksSpec (ex_ksdns None None)) = None" by (simp add: ex_ksdns_def)
  have b: "oGetSecret sample_op [] (ks_ns (ex_ksdns None None)) (ks_name (ex_ksdns None None)) = Inl (KOther ''timeout'')"
    by (simp add: sample_op_def ex_ksdns_def object_meta_def)
  have d: "KOther ''timeout'' \<noteq> KNotFound" by simp
  show ?thesis
    unfolding secret_error_writes_empty_key [OF a b d]
    by (simp add: CreateOrUpdateWithRetries_def retry_condition_def numeral_eq_Suc sample_op_def set_tsig_def
        only_error_def corednsName_def ex_ksdns_def object_meta_def)
qed

theorem user_secret_is_checked_witness:
  "\<exists>errs. ensureCoreDNSSecret sample_op ''s3cret'' (ex_ksdns (Some ''user'') None) [] = (Some (OpAggregate errs), []) \<and>
     length errs = 2"
proof -
  have a: "ksSecret (ksSpec (ex_ksdns (Some ''user'') None)) = Some ''user''" by (simp add: ex_ksdns_def)
  have b: "oGetSecret sample_op [] (ks_ns (ex_ksdns (Some ''user'') None)) ''user'' = Inr empty_secret"
    by (simp add: sample_op_def)
  have d: "scData empty_secret ''tsigKey'' = None \<or> scData empty_secret ''tsigSecret'' = None"
    by (simp add: empty_secret_def)
  have two: "(if scData empty_secret ''tsigKey'' = None then 1 else 0) +
      (if scData empty_secret ''tsigSecret'' = None then 1 else 0) = (2 :: nat)"
    by (simp add: empty_secret_def)
  from user_secret_is_checked [OF a b d, of "''s3cret''"] show ?thesis unfolding two .
qed

end
