(* ===== verification/KsdnsZupd.thy ===== *)
theory KsdnsZupd
  imports KsdnsCoreDNS
begin

text \<open>
  The objects of the update server (\<open>controllers/dns/zupd.go\<close>): service, service account, role
  and binding, Corefile and deployment.
\<close>

subsection \<open>Corefile, deployment, role\<close>

definition renderZupdDNSCorefile :: "string list \<Rightarrow> string list \<Rightarrow> string \<Rightarrow> bool \<Rightarrow> string" where
  "renderZupdDNSCorefile zones transferTo namespace debug =
     text_lines (corefile_head zones debug @
       [''  dynamicupdate '' @ namespace,
        ''  transfer {'',
        ''    to *'',
        ''    #'' @ concat (map (\<lambda>a. ''to '' @ a @ [nl] @ ''    #'') transferTo),
        ''  }'',
        ''}''])"

definition zupdDeployment :: "Ksdns \<Rightarrow> kobj" where
  "zupdDeployment k =
     ODeployment (object_meta (zupdName k) (ks_ns k) Map.empty)
       \<lparr>dpReplicas = 2,
        dpSelector = makeSelector ''zupd'' k,
        dpLabels = makeLabels ''zupd'' k,
        dpServiceAccount = zupdName k,
        dpContainers =
          [\<lparr>cnName = ''zupd'', cnImage = cdImage (ksCoreDNS (ksSpec k)),
            cnPorts = [(1053, ''TCP''), (1053, ''UDP'')],
            cnReadiness = Some (''/ready'', 8181), cnLiveness = Some (''/health'', 8080),
            cnArgs = [''run'', ''--conf'', ''/etc/coredns/config/Corefile'',
              ''--enable-leader-election'', ''--leader-election-namespace'', ks_ns k],
            cnMounts = server_mounts\<rparr>],
        dpVolumes =
          [(''config-volume'', ConfigMapVolume (zupdName k)),
           (''secret-volume'', SecretVolume (corednsName k))]\<rparr>"

definition all_verbs :: "string list" where
  "all_verbs = [''get'', ''list'', ''watch'', ''create'', ''update'', ''patch'', ''delete'']"

definition zupd_rules :: "PolicyRule list" where
  "zupd_rules =
     [\<lparr>prGroups = [''rfc1035.ksdns.io''], prResources = [''zones''], prVerbs = all_verbs\<rparr>,
      \<lparr>prGroups = [''coordination.k8s.io''], prResources = [''leases''], prVerbs = all_verbs\<rparr>,
      \<lparr>prGroups = [''''], prResources = [''events''], prVerbs = [''create'', ''patch'']\<rparr>]"

subsection \<open>Ensuring the objects\<close>

definition ensureZupdServiceAccount ::
  "('c, 'm) op_lib_scheme \<Rightarrow> Ksdns \<Rightarrow> 'c \<Rightarrow> op_error option \<times> 'c" where
  "ensureZupdServiceAccount K k c =
     only_error (CreateOrUpdateWithRetries K
       (OServiceAccount (object_meta (zupdName k) (ks_ns k) Map.empty)) (oSetOwner K k) c)"

definition ensureZupdNamespaceAdminRole ::
  "('c, 'm) op_lib_scheme \<Rightarrow> Ksdns \<Rightarrow> 'c \<Rightarrow> op_error option \<times> 'c" where
  "ensureZupdNamespaceAdminRole K k c =
     (let m = object_meta (zupdName k) (ks_ns k) Map.empty in
      case CreateOrUpdateWithRetries K (ORole m zupd_rules) (oSetOwner K k) c of
        (Inl e, c1) \<Rightarrow> (Some e, c1)
      | (Inr _, c1) \<Rightarrow>
          only_error (CreateOrUpdateWithRetries K
            (ORoleBinding m [(''ServiceAccount'', zupdName k, ks_ns k)]
               (''Role'', zupdName k, ''rbac.authorization.k8s.io''))
            (oSetOwner K k) c1))"

text \<open>The result of the client is dropped: the function returns nil.\<close>

definition zupd_service_spec :: "Ksdns \<Rightarrow> ServiceSpec" where
  "zupd_service_spec k =
     \<lparr>svSelector = makeSelector ''zupd'' k, svType = '''',
      svPorts =
        [\<lparr>spName = ''dns-tcp'', spPort = 1053, spTargetPort = 1053, spProtocol = ''TCP''\<rparr>,
         \<lparr>spName = ''dns-udp'', spPort = 1053, spTargetPort = 1053, spProtocol = ''UDP''\<rparr>],
      svClusterIP = ''''\<rparr>"

definition ensureZupdSvc :: "('c, 'm) op_lib_scheme \<Rightarrow> Ksdns \<Rightarrow> 'c \<Rightarrow> op_error option \<times> 'c" where
  "ensureZupdSvc K k c =
     (None, snd (CreateOrUpdateWithRetries K
        (OService (object_meta (zupdName k) (ks_ns k) (makeLabels ''zupd'' k))
           \<lparr>svSelector = Map.empty, svType = '''', svPorts = [], svClusterIP = ''''\<rparr>)
        (set_service K k (zupd_service_spec k)) c))"

definition ensureZupdConfigMap ::
  "('c, 'm) op_lib_scheme \<Rightarrow> Ksdns \<Rightarrow> 'c \<Rightarrow> op_error option \<times> 'c" where
  "ensureZupdConfigMap K k c =
     (case oListPods K c (ks_ns k) (makeLabels ''coredns'' k) of
        Inl e \<Rightarrow> (Some (OpKube e), c)
      | Inr pods \<Rightarrow>
          (let found = filter (\<lambda>a. a \<noteq> '''') (map snd pods);
               transferTo = (if length found = 0 then [''169.254.0.1''] else found) in
           case oListZones K c (ks_ns k) of
             Inl e \<Rightarrow> (Some (OpKube e), c)
           | Inr items \<Rightarrow>
               (None, snd (CreateOrUpdateWithRetries K
                  (OConfigMap (object_meta (zupdName k) (ks_ns k) (makeLabels ''zupd'' k)) Map.empty)
                  (set_config K k (renderZupdDNSCorefile (map (\<lambda>z. omName (zMeta z)) items) transferTo (ks_ns k) False))
                  c))))"

definition ensureZupd :: "('c, 'm) op_lib_scheme \<Rightarrow> Ksdns \<Rightarrow> 'c \<Rightarrow> op_error option \<times> 'c" where
  "ensureZupd K k c =
     (case ensureZupdSvc K k c of
        (Some e, c1) \<Rightarrow> (Some e, c1)
      | (None, c1) \<Rightarrow>
          (case ensureZupdServiceAccount K k c1 of
             (Some e, c2) \<Rightarrow> (Some e, c2)
           | (None, c2) \<Rightarrow>
               (case ensureZupdNamespaceAdminRole K k c2 of
                  (Some e, c3) \<Rightarrow> (Some e, c3)
                | (None, c3) \<Rightarrow>
                    (case ensureZupdConfigMap K k c3 of
                       (Some e, c4) \<Rightarrow> (Some e, c4)
                     | (None, c4) \<Rightarrow>
                         only_error (CreateOrUpdateWithRetries K (zupdDeployment k) (oSetOwner K k) c4)))))"

subsection \<open>What a role allows\<close>

text \<open>
  RBAC: a request is allowed when some rule lists its group, resource and verb, or a star.  The
  status of a resource is a resource of its own, named with a slash.
\<close>

definition rule_allows :: "PolicyRule \<Rightarrow> string \<Rightarrow> string \<Rightarrow> string \<Rightarrow> bool" where
  "rule_allows p grp resource verb \<longleftrightarrow>
     (grp \<in> set (prGroups p) \<or> ''*'' \<in> set (prGroups p)) \<and>
     (resource \<in> set (prResources p) \<or> ''*'' \<in> set (prResources p)) \<and>
     (verb \<in> set (prVerbs p) \<or> ''*'' \<in> set (prVerbs p))"

definition rules_allow :: "PolicyRule list \<Rightarrow> string \<Rightarrow> string \<Rightarrow> string \<Rightarrow> bool" where
  "rules_allow ps grp resource verb = list_ex (\<lambda>p. rule_allows p grp resource verb) ps"

subsection \<open>Properties\<close>

text \<open>
  The role of the update server does not allow what the plugin needs.  Its rules allow every
  verb on the Zone objects themselves, but not the update of their status, which is the write
  every dynamic update ends with.
\<close>

lemma zupd_role_lacks_zone_status:
  "rules_allow zupd_rules ''rfc1035.ksdns.io'' ''zones'' ''update'' \<and>
   \<not> rules_allow zupd_rules ''rfc1035.ksdns.io'' ''zones/status'' ''update'' \<and>
   \<not> rules_allow zupd_rules ''rfc1035.ksdns.io'' ''zones/status'' ''patch''"
  by (simp add: rules_allow_def rule_allows_def zupd_rules_def all_verbs_def)

end
