(* ===== verification/KsdnsController.thy ===== *)
theory KsdnsController
  imports KsdnsZupd
begin

text \<open>
  The reconciliation of a Ksdns resource (\<open>controllers/dns/controller.go\<close>): the first status
  condition, then the secret, the zones, the secondary server and the update server, in this
  order, stopping at the first error.
\<close>

text \<open>\<open>now\<close> is the time in seconds, \<open>ts\<close> the result of \<open>generateTsigSecret\<close>.\<close>

definition ensure_all ::
  "('c, 'm) op_lib_scheme \<Rightarrow> int \<Rightarrow> string \<Rightarrow> Ksdns \<Rightarrow> 'c \<Rightarrow> (op_error option \<times> 'c) go" where
  "ensure_all K now ts k c =
     (case ensureCoreDNSSecret K ts k c of
        (Some e, c1) \<Rightarrow> Ret (Some e, c1)
      | (None, c1) \<Rightarrow>
          (case ensureZones K now k c1 of
             (Some e, c2) \<Rightarrow> Ret (Some e, c2)
           | (None, c2) \<Rightarrow>
               (case ensureCoreDNS K k c2 of
                  Panic \<Rightarrow> Panic
                | Ret (Some e, c3) \<Rightarrow> Ret (Some e, c3)
                | Ret (None, c3) \<Rightarrow> Ret (ensureZupd K k c3))))"

definition Reconcile_Ksdns ::
  "('c, 'm) op_lib_scheme \<Rightarrow> int \<Rightarrow> string \<Rightarrow> string \<Rightarrow> string \<Rightarrow> 'c \<Rightarrow> (op_error option \<times> 'c) go" where
  "Reconcile_Ksdns K now ts ns nm c =
     (case oGetKsdns K c ns nm of
        Inl e \<Rightarrow> (if e = KNotFound then Ret (None, c) else Ret (Some (OpKube e), c))
      | Inr k \<Rightarrow>
          if length (ksConditions k) = 0 then
            (case oUpdateStatus K c (k\<lparr>ksConditions := [''Available'']\<rparr>) of
               (Some e, c1) \<Rightarrow> Ret (Some (OpKube e), c1)
             | (None, c1) \<Rightarrow>
                 (case oGetKsdns K c1 ns nm of
                    Inl e \<Rightarrow> Ret (Some (OpKube e), c1)
                  | Inr k1 \<Rightarrow> ensure_all K now ts k1 c1))
          else ensure_all K now ts k c)"

text \<open>
  The resource a run of \<open>Reconcile_Ksdns\<close> works on, and the cluster after its status is seen to: the
  first read, or, where there was no status condition, the read after one is stored.
\<close>

definition seen_resource ::
  "('c, 'm) op_lib_scheme \<Rightarrow> string \<Rightarrow> string \<Rightarrow> 'c \<Rightarrow> (Ksdns \<times> 'c) option" where
  "seen_resource K ns nm c =
     (case oGetKsdns K c ns nm of
        Inl e \<Rightarrow> None
      | Inr k \<Rightarrow>
          if ksConditions k \<noteq> [] then Some (k, c)
          else case oUpdateStatus K c (k\<lparr>ksConditions := [''Available'']\<rparr>) of
            (Some e, c1) \<Rightarrow> None
          | (None, c1) \<Rightarrow> (case oGetKsdns K c1 ns nm of Inl e \<Rightarrow> None | Inr k1 \<Rightarrow> Some (k1, c1)))"

lemma reconcile_seen:
  assumes "Reconcile_Ksdns K now ts ns nm c = Ret (None, c')" and "oGetKsdns K c ns nm \<noteq> Inl KNotFound"
  shows "\<exists>k c1. seen_resource K ns nm c = Some (k, c1) \<and> ensure_all K now ts k c1 = Ret (None, c')"
  using assms by (auto simp: Reconcile_Ksdns_def seen_resource_def split: sum.splits prod.splits option.splits if_splits)

lemma seen_reconcile:
  "seen_resource K ns nm c = Some (k, c1) \<Longrightarrow>
   Reconcile_Ksdns K now ts ns nm c = ensure_all K now ts k c1"
  by (auto simp: Reconcile_Ksdns_def seen_resource_def split: sum.splits prod.splits option.splits if_splits)

subsection \<open>Shape of the steps\<close>

lemma ensureZones_no_error [simp]: "fst (ensureZones K now k c) = None"
  by (simp add: ensureZones_def)

lemma ensure_all_panic:
  assumes "exCoreDNS (ksExpose (ksSpec k)) = None"
    and "ensureCoreDNSSecret K ts k c = (None, c1)"
    and "ensureCoreDNSConfigMap K k (snd (ensureZones K now k c1)) = (None, c2)"
    and "ensureCoreDNSserviceaccount K k c2 = (None, c3)"
  shows "ensure_all K now ts k c = Panic"
  using assms
  by (simp add: ensure_all_def ensureZones_def ensureCoreDNS_def ensureCoreDNSservice_def coreDNSServiceSpec_def)

subsection \<open>Properties\<close>

text \<open>
  A Ksdns resource without \<open>expose.coredns\<close> crashes the operator.  The field is optional, but
  the service's type is read through the nil pointer, so once the secret, the Corefile and the
  service account of the secondary server are written, the reconciliation panics; nothing of
  the update server is ever written.
\<close>

lemma missing_expose_panics:
  assumes "oGetKsdns K c ns nm = Inr k" and "ksConditions k \<noteq> []"
    and "exCoreDNS (ksExpose (ksSpec k)) = None"
    and "ensureCoreDNSSecret K ts k c = (None, c1)"
    and "ensureCoreDNSConfigMap K k (snd (ensureZones K now k c1)) = (None, c2)"
    and "ensureCoreDNSserviceaccount K k c2 = (None, c3)"
  shows "Reconcile_Ksdns K now ts ns nm c = Panic"
  using ensure_all_panic [OF assms(3-6)] assms(1,2) by (simp add: Reconcile_Ksdns_def)

definition sample_op2 :: "kobj list op_lib" where
  "sample_op2 = sample_op\<lparr>oGetKsdns := (\<lambda>c ns nm. Inr (ex_ksdns None None))\<rparr>"

lemma sample_write:
  "f obj = Inr x \<Longrightarrow> CreateOrUpdateWithRetries sample_op2 obj f c = (Inr ''created'', c @ [x])"
  by (simp add: CreateOrUpdateWithRetries_def retry_condition_def numeral_eq_Suc sample_op2_def sample_op_def)

lemma sample_op2_simps:
  "oSetOwner sample_op2 k x = Inr x" "oGetService sample_op2 c ns nm = Inl KNotFound"
  "oListZones sample_op2 c ns = Inr []" "oGetKsdns sample_op2 c ns nm = Inr (ex_ksdns None None)"
  "oGetSecret sample_op2 c ''d'' ''k'' = Inl (KOther ''timeout'')"
  by (simp_all add: sample_op2_def sample_op_def)

lemma missing_expose_panics_witness:
  "Reconcile_Ksdns sample_op2 9 ''s3cret'' ''d'' ''k'' [] = Panic"
proof -
  let ?k = "ex_ksdns None None"
  have k: "ks_ns ?k = ''d''" "ks_name ?k = ''k''" "ksSecret (ksSpec ?k) = None" "ksZones (ksSpec ?k) = []"
    by (simp_all add: ex_ksdns_def object_meta_def)
  have cond: "ksConditions ?k \<noteq> []" "exCoreDNS (ksExpose (ksSpec ?k)) = None" by (simp_all add: ex_ksdns_def)
  obtain c1 where 1: "ensureCoreDNSSecret sample_op2 ''s3cret'' ?k [] = (None, c1)"
    by (simp add: ensureCoreDNSSecret_def tsig_source_def k sample_op2_simps sample_write set_tsig_def only_error_def)
  obtain c2 where 2: "ensureCoreDNSConfigMap sample_op2 ?k (snd (ensureZones sample_op2 9 ?k c1)) = (None, c2)"
    by (simp add: ensureCoreDNSConfigMap_def getZupdIPs_def getZones_def sample_op2_simps sample_write
        set_config_def only_error_def)
  obtain c3 where 3: "ensureCoreDNSserviceaccount sample_op2 ?k c2 = (None, c3)"
    by (simp add: ensureCoreDNSserviceaccount_def sample_op2_simps sample_write only_error_def)
  show ?thesis by (rule missing_expose_panics [OF sample_op2_simps(4) cond 1 2 3])
qed

end
