(* ===== verification/ClusterWrites.thy ===== *)
theory ClusterWrites
  imports KsdnsController
begin

text \<open>
  The objects of the cluster under their kind, namespace and name, the documented behaviour of
  the Kubernetes client over a view of them (\<open>client_laws\<close>), and what a write with retries leaves.
\<close>

subsection \<open>Objects and their keys\<close>

type_synonym kkey = "string \<times> string \<times> string"

primrec obj_meta :: "kobj \<Rightarrow> ObjectMeta" where
  "obj_meta (OZone z) = zMeta z"
| "obj_meta (OConfigMap m d) = m"
| "obj_meta (OSecret s) = scMeta s"
| "obj_meta (OServiceAccount m) = m"
| "obj_meta (OService m s) = m"
| "obj_meta (ODeployment m d) = m"
| "obj_meta (ORole m rs) = m"
| "obj_meta (ORoleBinding m ss r) = m"

primrec obj_kind :: "kobj \<Rightarrow> string" where
  "obj_kind (OZone z) = ''Zone''"
| "obj_kind (OConfigMap m d) = ''ConfigMap''"
| "obj_kind (OSecret s) = ''Secret''"
| "obj_kind (OServiceAccount m) = ''ServiceAccount''"
| "obj_kind (OService m s) = ''Service''"
| "obj_kind (ODeployment m d) = ''Deployment''"
| "obj_kind (ORole m rs) = ''Role''"
| "obj_kind (ORoleBinding m ss r) = ''RoleBinding''"

definition obj_key :: "kobj \<Rightarrow> kkey" where
  "obj_key x = (obj_kind x, omNamespace (obj_meta x), omName (obj_meta x))"

definition no_meta :: ObjectMeta where
  "no_meta = object_meta '''' '''' Map.empty"

text \<open>The object without its metadata.\<close>

primrec body :: "kobj \<Rightarrow> kobj" where
  "body (OZone z) = OZone (z\<lparr>zMeta := no_meta\<rparr>)"
| "body (OConfigMap m d) = OConfigMap no_meta d"
| "body (OSecret s) = OSecret (s\<lparr>scMeta := no_meta\<rparr>)"
| "body (OServiceAccount m) = OServiceAccount no_meta"
| "body (OService m s) = OService no_meta s"
| "body (ODeployment m d) = ODeployment no_meta d"
| "body (ORole m rs) = ORole no_meta rs"
| "body (ORoleBinding m ss r) = ORoleBinding no_meta ss r"

lemma obj_key_simps [simp]:
  "obj_key (OZone z) = (''Zone'', omNamespace (zMeta z), omName (zMeta z))"
  "obj_key (OConfigMap m d) = (''ConfigMap'', omNamespace m, omName m)"
  "obj_key (OSecret s) = (''Secret'', omNamespace (scMeta s), omName (scMeta s))"
  "obj_key (OServiceAccount m) = (''ServiceAccount'', omNamespace m, omName m)"
  "obj_key (OService m sp) = (''Service'', omNamespace m, omName m)"
  "obj_key (ODeployment m dp) = (''Deployment'', omNamespace m, omName m)"
  "obj_key (ORole m rs) = (''Role'', omNamespace m, omName m)"
  "obj_key (ORoleBinding m ss r) = (''RoleBinding'', omNamespace m, omName m)"
  by (simp_all add: obj_key_def)

lemma object_meta_simps [simp]:
  "omName (object_meta n ns ls) = n" "omNamespace (object_meta n ns ls) = ns"
  by (simp_all add: object_meta_def)

lemma body_deployment: "body x = body (ODeployment m d) \<Longrightarrow> \<exists>m'. x = ODeployment m' d"
  by (cases x) auto

lemma body_zone: "body x = body (OZone z) \<Longrightarrow> \<exists>z'. x = OZone z' \<and> zSpec z' = zSpec z \<and> zStatus z' = zStatus z"
proof (cases x)
  case (OZone y)
  assume "body x = body (OZone z)"
  with OZone have "y\<lparr>zMeta := no_meta\<rparr> = z\<lparr>zMeta := no_meta\<rparr>" by simp
  then have "zSpec (y\<lparr>zMeta := no_meta\<rparr>) = zSpec (z\<lparr>zMeta := no_meta\<rparr>)"
    and "zStatus (y\<lparr>zMeta := no_meta\<rparr>) = zStatus (z\<lparr>zMeta := no_meta\<rparr>)" by simp_all
  with OZone show ?thesis by simp
qed simp_all

subsection \<open>The documented behaviour of the client\<close>

text \<open>
  What the API server stores when \<open>x\<close> is written over \<open>b\<close>: \<open>x'\<close> has the fields the operator sets,
  and its owner.
  The status of a Zone is the one sent or, where the status is a subresource, which a write of the
  object does not change, the one before; the \<open>stringData\<close> of a secret ends in its data.
\<close>

definition stored_as :: "kobj \<Rightarrow> kobj \<Rightarrow> kobj \<Rightarrow> bool" where
  "stored_as b x x' \<longleftrightarrow> obj_key x' = obj_key x \<and> omOwner (obj_meta x') = omOwner (obj_meta x) \<and>
     (case x of
        OZone z \<Rightarrow> (\<exists>z'. x' = OZone z' \<and> zSpec z' = zSpec z \<and>
          (zStatus z' = zStatus z \<or> (\<exists>z0. b = OZone z0 \<and> zStatus z' = zStatus z0)))
      | OConfigMap m d \<Rightarrow> body x' = body x
      | OSecret s \<Rightarrow> (\<exists>s'. x' = OSecret s' \<and> scStringData s \<subseteq>\<^sub>m scData s')
      | OServiceAccount m \<Rightarrow> body x' = body x
      | OService m sp \<Rightarrow> (\<exists>m' sp'. x' = OService m' sp' \<and> svSelector sp' = svSelector sp \<and> svPorts sp' = svPorts sp)
      | ODeployment m d \<Rightarrow> body x' = body x
      | ORole m rs \<Rightarrow> body x' = body x
      | ORoleBinding m ss r \<Rightarrow> body x' = body x)"

text \<open>
  \<open>view c key\<close> is the object the cluster holds under a key.  \<open>CreateOrUpdate\<close> applies the mutating
  function to the object of the cluster, or to the given one if there is none, and stores the
  result; it writes no other object, and nothing at all when it ends in a conflict.  Setting the
  owner only changes metadata.  Writes are retried by a backoff of some number of steps.  Other
  writers do not interfere while the operator runs.
\<close>

definition current :: "('c \<Rightarrow> kkey \<Rightarrow> kobj option) \<Rightarrow> 'c \<Rightarrow> kobj \<Rightarrow> kobj" where
  "current view c obj = (case view c (obj_key obj) of None \<Rightarrow> obj | Some x \<Rightarrow> x)"

definition write_law ::
  "('c, 'm) op_lib_scheme \<Rightarrow> ('c \<Rightarrow> kkey \<Rightarrow> kobj option) \<Rightarrow> bool" where
  "write_law K view \<longleftrightarrow>
    (\<forall>c obj f op c'. oCreateOrUpdate K c obj f = (Inr op, c') \<longrightarrow>
       (\<exists>x x'. f (current view c obj) = Inr x \<and> obj_key x = obj_key obj \<and>
          stored_as (current view c obj) x x' \<and> view c' (obj_key obj) = Some x')) \<and>
    (\<forall>c obj f j. j \<noteq> obj_key obj \<longrightarrow> view (snd (oCreateOrUpdate K c obj f)) j = view c j) \<and>
    (\<forall>c obj f. fst (oCreateOrUpdate K c obj f) = Inl KConflict \<longrightarrow>
       view (snd (oCreateOrUpdate K c obj f)) = view c)"

definition client_laws ::
  "('c, 'm) op_lib_scheme \<Rightarrow> ('c \<Rightarrow> kkey \<Rightarrow> kobj option) \<Rightarrow> bool" where
  "client_laws K view \<longleftrightarrow>
    write_law K view \<and> (\<exists>n. backoff_law n K) \<and>
    (\<forall>c key x. view c key = Some x \<longrightarrow> obj_key x = key) \<and>
    (\<forall>k x y. oSetOwner K k x = Inr y \<longrightarrow> obj_key y = obj_key x \<and> body y = body x \<and>
       omOwner (obj_meta y) = Some (''Ksdns'', ks_name k)) \<and>
    (\<forall>c k. view (snd (oUpdateStatus K c k)) = view c) \<and>
    (\<forall>c s j. j \<noteq> obj_key (OSecret s) \<longrightarrow> view (snd (oCreateSecret K c s)) j = view c j)"

lemma client_write: "client_laws K view \<Longrightarrow> write_law K view"
  by (simp add: client_laws_def)

lemma client_retries:
  "client_laws K view \<Longrightarrow>
   \<exists>n. \<forall>obj f c. CreateOrUpdateWithRetries K obj f c = attempts n (\<lambda>c. oCreateOrUpdate K c obj f) c"
  by (auto simp: client_laws_def retries_attempts)

lemma client_key: "client_laws K view \<Longrightarrow> view c key = Some x \<Longrightarrow> obj_key x = key"
  unfolding client_laws_def by blast

lemma client_owner:
  "client_laws K view \<Longrightarrow> oSetOwner K k x = Inr y \<Longrightarrow> obj_key y = obj_key x \<and> body y = body x \<and>
   omOwner (obj_meta y) = Some (''Ksdns'', ks_name k)"
  unfolding client_laws_def by blast

lemma seen_view:
  assumes "client_laws K view" and "seen_resource K ns nm c = Some (k, c1)"
  shows "view c1 = view c"
proof -
  have "view (snd (oUpdateStatus K c k)) = view c" for k using assms(1) unfolding client_laws_def by blast
  with assms(2) show ?thesis
    by (auto simp: seen_resource_def split: sum.splits prod.splits option.splits if_splits) (metis snd_conv)+
qed

lemma client_create_secret:
  "client_laws K view \<Longrightarrow> oCreateSecret K c s = (res, c') \<Longrightarrow> j \<noteq> obj_key (OSecret s) \<Longrightarrow> view c' j = view c j"
  unfolding client_laws_def by (metis snd_conv)

subsection \<open>Writing with retries\<close>

lemma retries_frame:
  assumes "write_law K view" and "j \<noteq> obj_key obj"
  shows "view (snd (attempts n (\<lambda>c. oCreateOrUpdate K c obj f) c)) j = view c j"
proof (induction n arbitrary: c)
  case 0
  then show ?case by simp
next
  case (Suc n)
  obtain res c1 where a: "oCreateOrUpdate K c obj f = (res, c1)" by (metis prod.exhaust)
  have "view c1 j = view c j" using assms a unfolding write_law_def by (metis snd_conv)
  with Suc.IH [of c1] a show ?case by (auto split: sum.splits)
qed

lemma retries_stored:
  assumes "write_law K view" and "attempts n (\<lambda>c. oCreateOrUpdate K c obj f) c = (Inr op, c')"
  shows "\<exists>x x'. f (current view c obj) = Inr x \<and> obj_key x = obj_key obj \<and>
    stored_as (current view c obj) x x' \<and> view c' (obj_key obj) = Some x'"
  using assms(2)
proof (induction n arbitrary: c)
  case 0
  then show ?case by simp
next
  case (Suc n)
  obtain res c1 where a: "oCreateOrUpdate K c obj f = (res, c1)" by (metis prod.exhaust)
  show ?case
  proof (cases res)
    case (Inr op1)
    with a Suc.prems have "c1 = c'" by simp
    with a Inr assms(1) show ?thesis unfolding write_law_def by blast
  next
    case (Inl e)
    with a Suc.prems have e: "e = KConflict" and n: "attempts n (\<lambda>c. oCreateOrUpdate K c obj f) c1 = (Inr op, c')"
      by (auto split: if_splits)
    have "view c1 = view c" using assms(1) a Inl e unfolding write_law_def by (metis fst_conv snd_conv)
    then have "current view c1 obj = current view c obj" by (simp add: current_def)
    with Suc.IH [OF n] show ?thesis by simp
  qed
qed

lemma only_error_eq_None: "only_error r = (None, c') \<longleftrightarrow> (\<exists>op. r = (Inr op, c'))"
  by (cases r) (auto simp: only_error_def split: sum.splits)

lemma snd_only_error [simp]: "snd (only_error r) = snd r"
  by (cases r) (simp add: only_error_def split: sum.splits)

text \<open>The objects outside \<open>S\<close> are as they were.\<close>

definition touches :: "('c \<Rightarrow> kkey \<Rightarrow> kobj option) \<Rightarrow> kkey set \<Rightarrow> 'c \<Rightarrow> 'c \<Rightarrow> bool" where
  "touches view S c c' \<longleftrightarrow> (\<forall>j. j \<notin> S \<longrightarrow> view c' j = view c j)"

lemma touches_refl [simp]: "touches view S c c"
  by (simp add: touches_def)

lemma touches_trans: "touches view S c c1 \<Longrightarrow> touches view T c1 c2 \<Longrightarrow> touches view (S \<union> T) c c2"
  by (simp add: touches_def)

lemma touchesD: "touches view S c c' \<Longrightarrow> j \<notin> S \<Longrightarrow> view c' j = view c j"
  unfolding touches_def by blast

lemma write_touches:
  assumes "client_laws K view"
  shows "touches view {obj_key obj} c (snd (CreateOrUpdateWithRetries K obj f c))"
proof -
  obtain n where "CreateOrUpdateWithRetries K obj f c = attempts n (\<lambda>c. oCreateOrUpdate K c obj f) c"
    using client_retries [OF assms] by metis
  then show ?thesis using retries_frame [OF client_write [OF assms]] by (simp add: touches_def)
qed

lemma write_stored:
  assumes "client_laws K view" and "CreateOrUpdateWithRetries K obj f c = (Inr op, c')"
  shows "\<exists>x x'. f (current view c obj) = Inr x \<and> obj_key x = obj_key obj \<and>
    stored_as (current view c obj) x x' \<and> view c' (obj_key obj) = Some x'"
proof -
  obtain n where "CreateOrUpdateWithRetries K obj f c = attempts n (\<lambda>c. oCreateOrUpdate K c obj f) c"
    using client_retries [OF assms(1)] by metis
  with assms(2) have "attempts n (\<lambda>c. oCreateOrUpdate K c obj f) c = (Inr op, c')" by simp
  then show ?thesis by (rule retries_stored [OF client_write [OF assms(1)]])
qed

lemma write_stored_only:
  assumes "client_laws K view" and "only_error (CreateOrUpdateWithRetries K obj f c) = (None, c')"
  shows "\<exists>x x'. f (current view c obj) = Inr x \<and> obj_key x = obj_key obj \<and>
    stored_as (current view c obj) x x' \<and> view c' (obj_key obj) = Some x'"
proof -
  obtain op where "CreateOrUpdateWithRetries K obj f c = (Inr op, c')"
    using assms(2) by (auto simp: only_error_eq_None)
  then show ?thesis by (rule write_stored [OF assms(1)])
qed

lemma write_ok:
  assumes "client_laws K view" and "only_error (CreateOrUpdateWithRetries K obj f c) = (None, c')"
  shows "touches view {obj_key obj} c c'" and "view c' (obj_key obj) \<noteq> None"
proof -
  have "c' = snd (CreateOrUpdateWithRetries K obj f c)"
    using assms(2) by (metis snd_conv snd_only_error)
  then show "touches view {obj_key obj} c c'" using write_touches [OF assms(1)] by simp
  show "view c' (obj_key obj) \<noteq> None" using write_stored_only [OF assms] by auto
qed

text \<open>
  A deployment is written by a function that sets the owner and nothing else: an existing one
  keeps its spec, and only a new one gets the spec of the resource.
\<close>

lemma deployment_write:
  assumes laws: "client_laws K view"
    and ok: "only_error (CreateOrUpdateWithRetries K (ODeployment m d) (oSetOwner K k) c) = (None, c')"
  shows "\<exists>m'. view c' (obj_key (ODeployment m d)) =
    Some (ODeployment m' (case view c (obj_key (ODeployment m d)) of Some (ODeployment _ d0) \<Rightarrow> d0 | _ \<Rightarrow> d))"
proof -
  let ?o = "ODeployment m d"
  obtain x x' where x: "oSetOwner K k (current view c ?o) = Inr x" "obj_key x = obj_key ?o"
    "stored_as (current view c ?o) x x'" "view c' (obj_key ?o) = Some x'"
    using write_stored_only [OF laws ok] by blast
  have bx: "body x = body (current view c ?o)" using client_owner [OF laws x(1)] by simp
  have cur: "\<exists>m0. current view c ?o =
      ODeployment m0 (case view c (obj_key ?o) of Some (ODeployment _ d0) \<Rightarrow> d0 | _ \<Rightarrow> d)"
  proof (cases "view c (obj_key ?o)")
    case None
    then show ?thesis by (simp add: current_def)
  next
    case (Some y)
    then have "obj_key y = obj_key ?o" by (rule client_key [OF laws])
    with Some show ?thesis by (cases y) (simp_all add: current_def)
  qed
  let ?d = "case view c (obj_key ?o) of Some (ODeployment _ d0) \<Rightarrow> d0 | _ \<Rightarrow> d"
  obtain m0 where "current view c ?o = ODeployment m0 ?d" using cur by blast
  with bx obtain m1 where m1: "x = ODeployment m1 ?d"
    using body_deployment [of x m0 ?d] by auto
  then have "body x' = body (ODeployment m1 ?d)" using x(3) by (simp add: stored_as_def)
  then obtain m2 where "x' = ODeployment m2 ?d" by (blast dest: body_deployment)
  with x(4) show ?thesis by blast
qed

text \<open>The spec of the deployment under a key.\<close>

definition dep_spec :: "kobj \<Rightarrow> DeploymentSpec option" where
  "dep_spec x = (case x of ODeployment m d \<Rightarrow> Some d | _ \<Rightarrow> None)"

definition deployed :: "('c \<Rightarrow> kkey \<Rightarrow> kobj option) \<Rightarrow> 'c \<Rightarrow> kkey \<Rightarrow> DeploymentSpec option" where
  "deployed view c key = Option.bind (view c key) dep_spec"

lemma touches_deployed: "touches view S c c' \<Longrightarrow> j \<notin> S \<Longrightarrow> deployed view c' j = deployed view c j"
  by (simp add: deployed_def touchesD)

lemma deployment_keeps_spec:
  assumes laws: "client_laws K view" and o: "dep = ODeployment m d"
    and ok: "only_error (CreateOrUpdateWithRetries K dep (oSetOwner K k) c) = (None, c')"
  shows "deployed view c' (obj_key dep) =
    (case deployed view c (obj_key dep) of Some d0 \<Rightarrow> Some d0 | None \<Rightarrow> dep_spec dep)"
proof -
  obtain m' where m': "view c' (obj_key dep) =
    Some (ODeployment m' (case view c (obj_key dep) of Some (ODeployment _ d0) \<Rightarrow> d0 | _ \<Rightarrow> d))"
    using deployment_write [OF laws ok [unfolded o]] o by blast
  show ?thesis
  proof (cases "view c (obj_key dep)")
    case None
    with m' o show ?thesis by (simp add: deployed_def dep_spec_def)
  next
    case (Some y)
    then have "obj_key y = obj_key dep" by (rule client_key [OF laws])
    with m' o Some show ?thesis by (cases y) (simp_all add: deployed_def dep_spec_def)
  qed
qed

end
