(* ===== verification/ClusterSteps.thy ===== *)
theory ClusterSteps
  imports ClusterWrites
begin

text \<open>
  The writes of each step of the operator, and of a whole reconciliation: which keys they touch,
  which objects they leave, and what becomes of deployments and of zone files that exist.
\<close>

subsection \<open>The steps\<close>

lemma coredns_not_own [simp]: "corednsName k \<noteq> ks_name k" "ks_name k \<noteq> corednsName k"
  by (simp_all add: corednsName_def)

lemma coredns_not_zupd [simp]: "corednsName k \<noteq> zupdName k" "zupdName k \<noteq> corednsName k"
  by (simp_all add: corednsName_def zupdName_def)

lemma tsig_source_touches:
  assumes laws: "client_laws K view" and run: "tsig_source K ts k c = (res, c1)"
  shows "touches view {(''Secret'', ks_ns k, ks_name k)} c c1"
proof (cases "ksSecret (ksSpec k) = None \<and> oGetSecret K c (ks_ns k) (ks_name k) = Inl KNotFound")
  case False
  then have "c1 = c"
    using run by (auto simp: tsig_source_def Let_def split: option.splits sum.splits if_splits)
  then show ?thesis by simp
next
  case True
  let ?s = "\<lparr>scMeta = object_meta (ks_name k) (ks_ns k) (makeLabels ''ksdns'' k),
    scStringData = [''tsigKey'' \<mapsto> tsigKey, ''tsigSecret'' \<mapsto> ts], scData = Map.empty\<rparr>"
  show ?thesis
  proof (cases "\<exists>s. oSetOwner K k (OSecret ?s) = Inr (OSecret s)")
    case False
    then have "c1 = c"
      using run True by (auto simp: tsig_source_def Let_def split: sum.splits kobj.splits)
    then show ?thesis by simp
  next
    case s: True
    then obtain s where s: "oSetOwner K k (OSecret ?s) = Inr (OSecret s)" by blast
    have key: "obj_key (OSecret s) = (''Secret'', ks_ns k, ks_name k)"
      using client_owner [OF laws s] by simp
    obtain r c2 where r: "oCreateSecret K c s = (r, c2)" by (metis prod.exhaust)
    then have "c1 = c2" using run True s by (auto simp: tsig_source_def Let_def split: sum.splits)
    then show ?thesis
      using client_create_secret [OF laws r] unfolding touches_def key by blast
  qed
qed

lemma secret_step:
  assumes laws: "client_laws K view" and run: "ensureCoreDNSSecret K ts k c = (None, c')"
  shows "touches view {(''Secret'', ks_ns k, ks_name k), (''Secret'', ks_ns k, corednsName k)} c c'"
    and "view c' (''Secret'', ks_ns k, corednsName k) \<noteq> None"
proof -
  obtain res c1 where t: "tsig_source K ts k c = (res, c1)" by (metis prod.exhaust)
  then obtain s where "res = Inr s" using run by (cases res) (auto simp: ensureCoreDNSSecret_def)
  with run t have w: "only_error (CreateOrUpdateWithRetries K
      (OSecret \<lparr>scMeta = object_meta (corednsName k) (ks_ns k) (makeLabels ''ksdns'' k),
         scStringData = Map.empty, scData = Map.empty\<rparr>)
      (set_tsig K k (renderCoreFileTsigSecret (data_text s ''tsigKey'') (data_text s ''tsigSecret''))) c1) = (None, c')"
    by (simp add: ensureCoreDNSSecret_def)
  note ok = write_ok [OF laws w]
  show "view c' (''Secret'', ks_ns k, corednsName k) \<noteq> None" using ok(2) by simp
  show "touches view {(''Secret'', ks_ns k, ks_name k), (''Secret'', ks_ns k, corednsName k)} c c'"
    using touches_trans [OF tsig_source_touches [OF laws t] ok(1)] by (simp add: insert_commute)
qed

lemma zone_step_touches:
  assumes "client_laws K view"
  shows "touches view {(''Zone'', ks_ns k, kzOrigin z)} c (ensure_zone K now k z c)"
  using write_touches [OF assms, of "OZone \<lparr>zMeta = object_meta (kzOrigin z) (ks_ns k) (makeLabels ''zone'' k),
     zSpec = \<lparr>spZone = ''''\<rparr>, zStatus = \<lparr>DynamicRRs = [], Serial = 0\<rparr>\<rparr>"]
  by (auto simp: ensure_zone_def split: sum.splits)

definition zone_keys :: "string \<Rightarrow> KZone list \<Rightarrow> kkey set" where
  "zone_keys ns zs = (\<lambda>z. (''Zone'', ns, kzOrigin z)) ` set zs"

lemma zones_fold_touches:
  assumes laws: "client_laws K view"
  shows "touches view (zone_keys (ks_ns k) zs) c (fold (ensure_zone K now k) zs c)"
proof (induction zs arbitrary: c)
  case Nil
  then show ?case by simp
next
  case (Cons z zs)
  show ?case
    using touches_trans [OF zone_step_touches [OF laws, of k z c now] Cons.IH [of "ensure_zone K now k z c"]]
    by (simp add: zone_keys_def)
qed

lemma zones_touches:
  "client_laws K view \<Longrightarrow> ensureZones K now k c = (r, c') \<Longrightarrow>
   touches view (zone_keys (ks_ns k) (ksZones (ksSpec k))) c c'"
  using zones_fold_touches [of K view k "ksZones (ksSpec k)" c now] by (auto simp: ensureZones_def)

text \<open>The objects of the two servers, by the name they share.\<close>

definition keys_of :: "string list \<Rightarrow> string \<Rightarrow> string \<Rightarrow> kkey set" where
  "keys_of kinds ns name = (\<lambda>kd. (kd, ns, name)) ` set kinds"

lemma keys_of_simps [simp]:
  "keys_of [] ns name = {}"
  "keys_of (kd # kds) ns name = insert (kd, ns, name) (keys_of kds ns name)"
  by (simp_all add: keys_of_def)

definition coredns_kinds :: "string list" where
  "coredns_kinds = [''ConfigMap'', ''ServiceAccount'', ''Service'', ''Deployment'']"

definition zupd_kinds :: "string list" where
  "zupd_kinds = [''Service'', ''ServiceAccount'', ''Role'', ''RoleBinding'', ''ConfigMap'', ''Deployment'']"

abbreviation coredns_deployment :: "Ksdns \<Rightarrow> kkey" where
  "coredns_deployment k \<equiv> (''Deployment'', ks_ns k, corednsName k)"

abbreviation zupd_deployment :: "Ksdns \<Rightarrow> kkey" where
  "zupd_deployment k \<equiv> (''Deployment'', ks_ns k, zupdName k)"

text \<open>A spec that is there stays, otherwise it is the one of the new object.\<close>

definition kept_or :: "'a option \<Rightarrow> 'a option \<Rightarrow> 'a option" where
  "kept_or old new = (case old of Some d \<Rightarrow> Some d | None \<Rightarrow> new)"

lemma config_step:
  assumes laws: "client_laws K view" and run: "ensureCoreDNSConfigMap K k c = (None, c')"
  shows "touches view {(''ConfigMap'', ks_ns k, corednsName k)} c c'"
    and "view c' (''ConfigMap'', ks_ns k, corednsName k) \<noteq> None"
proof -
  obtain zones ips where w: "only_error (CreateOrUpdateWithRetries K
      (OConfigMap (object_meta (corednsName k) (ks_ns k) (makeLabels ''coredns'' k)) Map.empty)
      (set_config K k (renderCoreDNSCorefile zones ips False)) c) = (None, c')"
    using run by (auto simp: ensureCoreDNSConfigMap_def split: sum.splits)
  show "touches view {(''ConfigMap'', ks_ns k, corednsName k)} c c'"
    using write_ok(1) [OF laws w] by simp
  show "view c' (''ConfigMap'', ks_ns k, corednsName k) \<noteq> None"
    using write_ok(2) [OF laws w] by simp
qed

lemma account_step:
  assumes laws: "client_laws K view" and run: "ensureCoreDNSserviceaccount K k c = (None, c')"
  shows "touches view {(''ServiceAccount'', ks_ns k, corednsName k)} c c'"
    and "view c' (''ServiceAccount'', ks_ns k, corednsName k) \<noteq> None"
  using write_ok [OF laws run [unfolded ensureCoreDNSserviceaccount_def]] by simp_all

lemma service_step:
  assumes laws: "client_laws K view" and run: "ensureCoreDNSservice K k c = Ret (None, c')"
  shows "touches view {(''Service'', ks_ns k, corednsName k)} c c'"
    and "view c' (''Service'', ks_ns k, corednsName k) \<noteq> None"
proof -
  obtain spec where w: "only_error (CreateOrUpdateWithRetries K
      (OService (object_meta (corednsName k) (ks_ns k) (makeLabels ''ksdns'' k))
         \<lparr>svSelector = Map.empty, svType = '''', svPorts = [], svClusterIP = ''''\<rparr>)
      (set_service K k spec) c) = (None, c')"
    using run by (auto simp: ensureCoreDNSservice_def split: go.splits sum.splits)
  show "touches view {(''Service'', ks_ns k, corednsName k)} c c'"
    using write_ok(1) [OF laws w] by simp
  show "view c' (''Service'', ks_ns k, corednsName k) \<noteq> None"
    using write_ok(2) [OF laws w] by simp
qed

lemma coredns_step:
  assumes laws: "client_laws K view" and run: "ensureCoreDNS K k c = Ret (None, c')"
  shows "touches view (keys_of coredns_kinds (ks_ns k) (corednsName k)) c c'"
    and "\<forall>key \<in> keys_of coredns_kinds (ks_ns k) (corednsName k). view c' key \<noteq> None"
    and "deployed view c' (coredns_deployment k) =
      kept_or (deployed view c (coredns_deployment k)) (dep_spec (coreDNSDeployment k))"
proof -
  obtain c1 c2 c3 where 1: "ensureCoreDNSConfigMap K k c = (None, c1)"
    and 2: "ensureCoreDNSserviceaccount K k c1 = (None, c2)"
    and 3: "ensureCoreDNSservice K k c2 = Ret (None, c3)"
    and 4: "only_error (CreateOrUpdateWithRetries K (coreDNSDeployment k) (oSetOwner K k) c3) = (None, c')"
    using run by (auto simp: ensureCoreDNS_def split: prod.splits option.splits go.splits)
  note t1 = config_step [OF laws 1] and t2 = account_step [OF laws 2] and t3 = service_step [OF laws 3]
  obtain m d where dep: "coreDNSDeployment k = ODeployment m d"
    "m = object_meta (corednsName k) (ks_ns k) Map.empty"
    by (simp add: coreDNSDeployment_def)
  then have key: "obj_key (coreDNSDeployment k) = coredns_deployment k" by simp
  note t4 = write_ok [OF laws 4, unfolded key]
  have t123: "touches view {(''ConfigMap'', ks_ns k, corednsName k), (''ServiceAccount'', ks_ns k, corednsName k),
      (''Service'', ks_ns k, corednsName k)} c c3"
    using touches_trans [OF touches_trans [OF t1(1) t2(1)] t3(1)] by (simp add: insert_commute)
  show "touches view (keys_of coredns_kinds (ks_ns k) (corednsName k)) c c'"
    using touches_trans [OF t123 t4(1)] by (simp add: coredns_kinds_def insert_commute)
  show "\<forall>key \<in> keys_of coredns_kinds (ks_ns k) (corednsName k). view c' key \<noteq> None"
    using t1(2) t2(2) t3(2) t4(2) touchesD [OF t2(1)] touchesD [OF t3(1)] touchesD [OF t4(1)]
    by (simp add: coredns_kinds_def)
  show "deployed view c' (coredns_deployment k) =
      kept_or (deployed view c (coredns_deployment k)) (dep_spec (coreDNSDeployment k))"
    using deployment_keeps_spec [OF laws dep(1) 4, unfolded key]
      touches_deployed [OF t123, of "coredns_deployment k"]
    by (simp add: kept_or_def)
qed

lemma zupd_service_step:
  assumes laws: "client_laws K view" and run: "ensureZupdSvc K k c = (r, c')"
  shows "touches view {(''Service'', ks_ns k, zupdName k)} c c'"
  using run write_touches [OF laws, of "OService (object_meta (zupdName k) (ks_ns k) (makeLabels ''zupd'' k))
      \<lparr>svSelector = Map.empty, svType = '''', svPorts = [], svClusterIP = ''''\<rparr>"]
  by (auto simp: ensureZupdSvc_def)

lemma zupd_account_step:
  assumes laws: "client_laws K view" and run: "ensureZupdServiceAccount K k c = (None, c')"
  shows "touches view {(''ServiceAccount'', ks_ns k, zupdName k)} c c'"
    and "view c' (''ServiceAccount'', ks_ns k, zupdName k) \<noteq> None"
  using write_ok [OF laws run [unfolded ensureZupdServiceAccount_def]] by simp_all

lemma role_step:
  assumes laws: "client_laws K view" and run: "ensureZupdNamespaceAdminRole K k c = (None, c')"
  shows "touches view {(''Role'', ks_ns k, zupdName k), (''RoleBinding'', ks_ns k, zupdName k)} c c'"
    and "view c' (''Role'', ks_ns k, zupdName k) \<noteq> None"
    and "view c' (''RoleBinding'', ks_ns k, zupdName k) \<noteq> None"
proof -
  let ?m = "object_meta (zupdName k) (ks_ns k) Map.empty"
  obtain c1 where 1: "only_error (CreateOrUpdateWithRetries K (ORole ?m zupd_rules) (oSetOwner K k) c) = (None, c1)"
    and 2: "only_error (CreateOrUpdateWithRetries K (ORoleBinding ?m [(''ServiceAccount'', zupdName k, ks_ns k)]
        (''Role'', zupdName k, ''rbac.authorization.k8s.io'')) (oSetOwner K k) c1) = (None, c')"
    using run by (auto simp: ensureZupdNamespaceAdminRole_def Let_def only_error_eq_None
        split: prod.splits sum.splits)
  note w1 = write_ok [OF laws 1, simplified] and w2 = write_ok [OF laws 2, simplified]
  show "touches view {(''Role'', ks_ns k, zupdName k), (''RoleBinding'', ks_ns k, zupdName k)} c c'"
    using touches_trans [OF w1(1) w2(1)] by (simp add: insert_commute)
  show "view c' (''Role'', ks_ns k, zupdName k) \<noteq> None"
    using w1(2) touchesD [OF w2(1), of "(''Role'', ks_ns k, zupdName k)"] by simp
  show "view c' (''RoleBinding'', ks_ns k, zupdName k) \<noteq> None"
    using w2(2) by simp
qed

lemma zupd_config_step:
  assumes laws: "client_laws K view" and run: "ensureZupdConfigMap K k c = (r, c')"
  shows "touches view {(''ConfigMap'', ks_ns k, zupdName k)} c c'"
  using run write_touches [OF laws, of "OConfigMap (object_meta (zupdName k) (ks_ns k) (makeLabels ''zupd'' k)) Map.empty"]
  by (auto simp: ensureZupdConfigMap_def Let_def split: sum.splits)

lemma zupd_step:
  assumes laws: "client_laws K view" and run: "ensureZupd K k c = (None, c')"
  shows "touches view (keys_of zupd_kinds (ks_ns k) (zupdName k)) c c'"
    and "\<forall>key \<in> keys_of [''ServiceAccount'', ''Role'', ''RoleBinding'', ''Deployment''] (ks_ns k) (zupdName k).
      view c' key \<noteq> None"
    and "deployed view c' (zupd_deployment k) =
      kept_or (deployed view c (zupd_deployment k)) (dep_spec (zupdDeployment k))"
proof -
  obtain c1 c2 c3 c4 where 1: "ensureZupdSvc K k c = (None, c1)"
    and 2: "ensureZupdServiceAccount K k c1 = (None, c2)"
    and 3: "ensureZupdNamespaceAdminRole K k c2 = (None, c3)"
    and 4: "ensureZupdConfigMap K k c3 = (None, c4)"
    and 5: "only_error (CreateOrUpdateWithRetries K (zupdDeployment k) (oSetOwner K k) c4) = (None, c')"
    using run by (auto simp: ensureZupd_def split: prod.splits option.splits)
  note t1 = zupd_service_step [OF laws 1] and t2 = zupd_account_step [OF laws 2]
    and t3 = role_step [OF laws 3] and t4 = zupd_config_step [OF laws 4]
  obtain m d where dep: "zupdDeployment k = ODeployment m d" "m = object_meta (zupdName k) (ks_ns k) Map.empty"
    by (simp add: zupdDeployment_def)
  then have key: "obj_key (zupdDeployment k) = zupd_deployment k" by simp
  note t5 = write_ok [OF laws 5, unfolded key]
  have t: "touches view {(''Service'', ks_ns k, zupdName k), (''ServiceAccount'', ks_ns k, zupdName k),
      (''Role'', ks_ns k, zupdName k), (''RoleBinding'', ks_ns k, zupdName k), (''ConfigMap'', ks_ns k, zupdName k)} c c4"
    using touches_trans [OF touches_trans [OF touches_trans [OF t1 t2(1)] t3(1)] t4]
    by (simp add: insert_commute)
  show "touches view (keys_of zupd_kinds (ks_ns k) (zupdName k)) c c'"
    using touches_trans [OF t t5(1)] by (simp add: zupd_kinds_def insert_commute)
  show "\<forall>key \<in> keys_of [''ServiceAccount'', ''Role'', ''RoleBinding'', ''Deployment''] (ks_ns k) (zupdName k).
      view c' key \<noteq> None"
    using t2(2) t3(2,3) t5(2) touchesD [OF t3(1)] touchesD [OF t4] touchesD [OF t5(1)] by simp
  show "deployed view c' (zupd_deployment k) =
      kept_or (deployed view c (zupd_deployment k)) (dep_spec (zupdDeployment k))"
    using deployment_keeps_spec [OF laws dep(1) 5, unfolded key]
      touches_deployed [OF t, of "zupd_deployment k"]
    by (simp add: kept_or_def)
qed

subsection \<open>A whole reconciliation\<close>

text \<open>Every key the operator writes for a resource.\<close>

definition written_keys :: "Ksdns \<Rightarrow> kkey set" where
  "written_keys k =
     {(''Secret'', ks_ns k, ks_name k), (''Secret'', ks_ns k, corednsName k)} \<union>
     zone_keys (ks_ns k) (ksZones (ksSpec k)) \<union>
     keys_of coredns_kinds (ks_ns k) (corednsName k) \<union> keys_of zupd_kinds (ks_ns k) (zupdName k)"

text \<open>The objects a successful reconciliation is sure to leave.\<close>

definition sure_keys :: "Ksdns \<Rightarrow> kkey set" where
  "sure_keys k =
     insert (''Secret'', ks_ns k, corednsName k)
       (keys_of coredns_kinds (ks_ns k) (corednsName k) \<union>
        keys_of [''ServiceAccount'', ''Role'', ''RoleBinding'', ''Deployment''] (ks_ns k) (zupdName k))"

lemma zone_keys_kind: "kd \<noteq> ''Zone'' \<Longrightarrow> (kd, ns, nm) \<notin> zone_keys ns' zs"
  by (auto simp: zone_keys_def)

lemma ensure_all_split:
  assumes "ensure_all K now ts k c = Ret (None, c')"
  obtains c1 c2 c3 where "ensureCoreDNSSecret K ts k c = (None, c1)"
    and "ensureZones K now k c1 = (None, c2)" and "ensureCoreDNS K k c2 = Ret (None, c3)"
    and "ensureZupd K k c3 = (None, c')"
  using assms by (auto simp: ensure_all_def split: prod.splits option.splits go.splits)

lemma ensure_all_step:
  assumes laws: "client_laws K view" and run: "ensure_all K now ts k c = Ret (None, c')"
  shows "touches view (written_keys k) c c'"
    and "\<forall>key \<in> sure_keys k. view c' key \<noteq> None"
    and "deployed view c' (coredns_deployment k) =
      kept_or (deployed view c (coredns_deployment k)) (dep_spec (coreDNSDeployment k))"
    and "deployed view c' (zupd_deployment k) =
      kept_or (deployed view c (zupd_deployment k)) (dep_spec (zupdDeployment k))"
proof -
  obtain c1 c2 c3 where 1: "ensureCoreDNSSecret K ts k c = (None, c1)"
    and 2: "ensureZones K now k c1 = (None, c2)" and 3: "ensureCoreDNS K k c2 = Ret (None, c3)"
    and 4: "ensureZupd K k c3 = (None, c')"
    using ensure_all_split [OF run] .
  note t1 = secret_step [OF laws 1] and t2 = zones_touches [OF laws 2]
    and t3 = coredns_step [OF laws 3] and t4 = zupd_step [OF laws 4]
  have t13: "touches view ({(''Secret'', ks_ns k, ks_name k), (''Secret'', ks_ns k, corednsName k)} \<union>
      zone_keys (ks_ns k) (ksZones (ksSpec k)) \<union> keys_of coredns_kinds (ks_ns k) (corednsName k)) c c3"
    using touches_trans [OF touches_trans [OF t1(1) t2] t3(1)] .
  show "touches view (written_keys k) c c'"
    using touches_trans [OF t13 t4(1)] by (simp add: written_keys_def)
  have s: "view c' (''Secret'', ks_ns k, corednsName k) \<noteq> None"
    using t1(2) touchesD [OF t2 zone_keys_kind, of "''Secret''"] touchesD [OF t3(1)] touchesD [OF t4(1)]
    by (simp add: coredns_kinds_def zupd_kinds_def)
  have d: "\<forall>key \<in> keys_of coredns_kinds (ks_ns k) (corednsName k). view c' key \<noteq> None"
    using t3(2) touchesD [OF t4(1)] by (simp add: coredns_kinds_def zupd_kinds_def)
  show "\<forall>key \<in> sure_keys k. view c' key \<noteq> None"
    unfolding sure_keys_def using s d t4(2) by blast
  have dep: "deployed view c2 (''Deployment'', a, b) = deployed view c (''Deployment'', a, b)" for a b
    using touches_deployed [OF touches_trans [OF t1(1) t2], of "(''Deployment'', a, b)"]
      zone_keys_kind [of "''Deployment''" a b] by simp
  show "deployed view c' (coredns_deployment k) =
      kept_or (deployed view c (coredns_deployment k)) (dep_spec (coreDNSDeployment k))"
    using t3(3) dep touches_deployed [OF t4(1), of "coredns_deployment k"] by (simp add: zupd_kinds_def)
  show "deployed view c' (zupd_deployment k) =
      kept_or (deployed view c (zupd_deployment k)) (dep_spec (zupdDeployment k))"
    using t4(3) dep touches_deployed [OF t3(1), of "zupd_deployment k"] by (simp add: coredns_kinds_def)
qed

subsection \<open>Rewriting a zone file\<close>

text \<open>The status of the Zone under a key, empty where there is none.\<close>

definition status_at :: "('c \<Rightarrow> kkey \<Rightarrow> kobj option) \<Rightarrow> 'c \<Rightarrow> kkey \<Rightarrow> ZoneStatus" where
  "status_at view c key =
     (case view c key of Some (OZone z0) \<Rightarrow> zStatus z0 | _ \<Rightarrow> \<lparr>DynamicRRs = [], Serial = 0\<rparr>)"

text \<open>
  The operation by which a reconciliation writes the Zone object of \<open>z\<close>, where it does so without an
  error: of the zones of the resource, those in \<open>pre\<close> come before it.  \<open>ensureZones\<close> drops this
  result.
\<close>

abbreviation new_zone :: "Ksdns \<Rightarrow> KZone \<Rightarrow> Zone" where
  "new_zone k z \<equiv> \<lparr>zMeta = object_meta (kzOrigin z) (ks_ns k) (makeLabels ''zone'' k),
     zSpec = \<lparr>spZone = ''''\<rparr>, zStatus = \<lparr>DynamicRRs = [], Serial = 0\<rparr>\<rparr>"

definition zone_write ::
  "('c, 'm) op_lib_scheme \<Rightarrow> int \<Rightarrow> string \<Rightarrow> Ksdns \<Rightarrow> KZone list \<Rightarrow> KZone \<Rightarrow> 'c \<Rightarrow> string option" where
  "zone_write K now ts k pre z c =
     (case ToRfc1035Zone K now z (Some [10, 0, 0, 10]) of
        Inl e \<Rightarrow> None
      | Inr spec \<Rightarrow>
          (case fst (CreateOrUpdateWithRetries K (OZone (new_zone k z)) (set_zone_spec K k spec)
              (fold (ensure_zone K now k) pre (snd (ensureCoreDNSSecret K ts k c)))) of
             Inl e \<Rightarrow> None
           | Inr op \<Rightarrow> Some op))"

lemma zone_written:
  assumes laws: "client_laws K view"
    and spec: "ToRfc1035Zone K now z (Some [10, 0, 0, 10]) = Inr spec"
    and key: "key = (''Zone'', ks_ns k, kzOrigin z)"
    and ok: "fst (CreateOrUpdateWithRetries K (OZone (new_zone k z)) (set_zone_spec K k spec) c) = Inr op"
  shows "\<exists>zo. view (ensure_zone K now k z c) key = Some (OZone zo) \<and> zSpec zo = spec \<and>
    zStatus zo = status_at view c key \<and> omOwner (zMeta zo) = Some (''Ksdns'', ks_name k)"
proof -
  let ?new = "new_zone k z"
  have new: "obj_key (OZone ?new) = key" using key by simp
  obtain c' where w: "CreateOrUpdateWithRetries K (OZone ?new) (set_zone_spec K k spec) c = (Inr op, c')"
    using ok by (metis prod.collapse)
  obtain z0 where z0: "current view c (OZone ?new) = OZone z0" "zStatus z0 = status_at view c key"
    "obj_key (OZone z0) = key"
  proof (cases "view c key")
    case None
    then show ?thesis using that [of ?new] key by (simp add: current_def status_at_def)
  next
    case (Some x)
    then have "obj_key x = key" by (rule client_key [OF laws])
    with Some that key show ?thesis by (cases x) (simp_all add: current_def status_at_def)
  qed
  obtain y y' where y: "set_zone_spec K k spec (OZone z0) = Inr y" "stored_as (OZone z0) y y'"
    "view c' key = Some y'"
    using write_stored [OF laws w] z0(1) new by auto
  then have "oSetOwner K k (OZone (z0\<lparr>zSpec := spec\<rparr>)) = Inr y" by (simp add: set_zone_spec_def)
  then have "body y = body (OZone (z0\<lparr>zSpec := spec\<rparr>))" and yo: "omOwner (obj_meta y) = Some (''Ksdns'', ks_name k)"
    using client_owner [OF laws] by blast+
  then obtain z1 where z1: "y = OZone z1" "zSpec z1 = spec" "zStatus z1 = zStatus z0"
    using body_zone [of y] by fastforce
  have "\<exists>zo. view c' key = Some (OZone zo) \<and> zSpec zo = spec \<and> zStatus zo = zStatus z0 \<and>
      omOwner (zMeta zo) = Some (''Ksdns'', ks_name k)"
    using y(2,3) yo z1 by (auto simp: stored_as_def)
  then show ?thesis using w spec z0(2) by (simp add: ensure_zone_def)
qed

text \<open>A zone of the resource after a reconciliation in which its object was written.\<close>

lemma reconciled_zone:
  assumes laws: "client_laws K view" and seen: "seen_resource K ns nm c = Some (k, c0)"
    and run: "Reconcile_Ksdns K now ts ns nm c = Ret (None, c')"
    and zs: "ksZones (ksSpec k) = pre @ z # post" and only: "kzOrigin z \<notin> kzOrigin ` set (pre @ post)"
    and spec: "ToRfc1035Zone K now z (Some [10, 0, 0, 10]) = Inr spec"
    and ok: "zone_write K now ts k pre z c0 = Some op"
    and key: "key = (''Zone'', ks_ns k, kzOrigin z)"
  shows "\<exists>zo. view c' key = Some (OZone zo) \<and> zSpec zo = spec \<and> zStatus zo = status_at view c key \<and>
    omOwner (zMeta zo) = Some (''Ksdns'', ks_name k)"
proof -
  have "ensure_all K now ts k c0 = Ret (None, c')" using run seen_reconcile [OF seen] by simp
  then obtain c1 c2 c3 where 1: "ensureCoreDNSSecret K ts k c0 = (None, c1)"
    and 2: "ensureZones K now k c1 = (None, c2)" and 3: "ensureCoreDNS K k c2 = Ret (None, c3)"
    and 4: "ensureZupd K k c3 = (None, c')"
    by (rule ensure_all_split)
  have out: "key \<notin> zone_keys (ks_ns k) pre" "key \<notin> zone_keys (ks_ns k) post"
    using only key by (auto simp: zone_keys_def)
  let ?cp = "fold (ensure_zone K now k) pre c1"
  have "view ?cp key = view c1 key" by (rule touchesD [OF zones_fold_touches [OF laws] out(1)])
  also have "\<dots> = view c key"
    using touchesD [OF secret_step(1) [OF laws 1], of key] seen_view [OF laws seen] key by simp
  finally have st: "status_at view ?cp key = status_at view c key" by (simp add: status_at_def)
  have "view c' key = view c2 key"
    using touchesD [OF coredns_step(1) [OF laws 3], of key] touchesD [OF zupd_step(1) [OF laws 4], of key] key
    by (simp add: coredns_kinds_def zupd_kinds_def)
  also have "\<dots> = view (ensure_zone K now k z ?cp) key"
    using touchesD [OF zones_fold_touches [OF laws] out(2), of now "ensure_zone K now k z ?cp"] 2 zs
    by (simp add: ensureZones_def)
  finally show ?thesis
    using zone_written [OF laws spec key, of ?cp op] ok 1 st spec by (simp add: zone_write_def split: sum.splits)
qed

end
