(* ===== verification/ClusterStore.thy ===== *)
theory ClusterStore
  imports ClusterSteps
begin

text \<open>
  A concrete cluster and client on which the laws hold, and a reconciliation on it.
\<close>

subsection \<open>A cluster that keeps what it is given\<close>

text \<open>
  A concrete client on which the laws hold: the cluster is a map from keys to objects.
\<close>

definition store_view :: "(kkey \<rightharpoonup> kobj) \<Rightarrow> kkey \<Rightarrow> kobj option" where
  "store_view c key = (case c key of Some x \<Rightarrow> if obj_key x = key then Some x else None | None \<Rightarrow> None)"

definition with_data :: "Secret \<Rightarrow> Secret" where
  "with_data s = s\<lparr>scData := scData s ++ scStringData s, scStringData := Map.empty\<rparr>"

text \<open>Setting the owner, as \<open>ctrl.SetControllerReference\<close> does where there is no other.\<close>

definition owned_meta :: "Ksdns \<Rightarrow> ObjectMeta \<Rightarrow> ObjectMeta" where
  "owned_meta k m = m\<lparr>omOwner := Some (''Ksdns'', ks_name k)\<rparr>"

primrec owned :: "Ksdns \<Rightarrow> kobj \<Rightarrow> kobj" where
  "owned k (OZone z) = OZone (z\<lparr>zMeta := owned_meta k (zMeta z)\<rparr>)"
| "owned k (OConfigMap m d) = OConfigMap (owned_meta k m) d"
| "owned k (OSecret s) = OSecret (s\<lparr>scMeta := owned_meta k (scMeta s)\<rparr>)"
| "owned k (OServiceAccount m) = OServiceAccount (owned_meta k m)"
| "owned k (OService m s) = OService (owned_meta k m) s"
| "owned k (ODeployment m d) = ODeployment (owned_meta k m) d"
| "owned k (ORole m rs) = ORole (owned_meta k m) rs"
| "owned k (ORoleBinding m ss r) = ORoleBinding (owned_meta k m) ss r"

lemma owned_law: "obj_key (owned k x) = obj_key x" "body (owned k x) = body x"
    "omOwner (obj_meta (owned k x)) = Some (''Ksdns'', ks_name k)"
  by (cases x; simp add: owned_meta_def)+

definition admit :: "kobj \<Rightarrow> kobj \<Rightarrow> kobj" where
  "admit b x =
     (case x of
        OZone z \<Rightarrow> OZone (case b of OZone z0 \<Rightarrow> z\<lparr>zStatus := zStatus z0\<rparr> | _ \<Rightarrow> z)
      | OSecret s \<Rightarrow> OSecret (with_data s)
      | _ \<Rightarrow> x)"

definition store_write ::
  "(kkey \<rightharpoonup> kobj) \<Rightarrow> kobj \<Rightarrow> (kobj \<Rightarrow> kerr + kobj) \<Rightarrow> (kerr + string) \<times> (kkey \<rightharpoonup> kobj)" where
  "store_write c obj f =
     (let b = current store_view c obj in
      case f b of
        Inl e \<Rightarrow> (Inl e, c)
      | Inr x \<Rightarrow> if obj_key x = obj_key obj then (Inr ''updated'', c(obj_key obj \<mapsto> admit b x))
                else (Inl (KOther ''key changed''), c))"

definition store_secret :: "(kkey \<rightharpoonup> kobj) \<Rightarrow> string \<Rightarrow> string \<Rightarrow> kerr + Secret" where
  "store_secret c ns nm = (case store_view c (''Secret'', ns, nm) of Some (OSecret s) \<Rightarrow> Inr s | _ \<Rightarrow> Inl KNotFound)"

definition store_zone :: KZone where
  "store_zone = \<lparr>kzOrigin = ''a.org'', kzRecords = [ex_record ''A'' ''10.0.0.10'']\<rparr>"

definition store_ksdns :: Ksdns where
  "store_ksdns = \<lparr>ksMeta = object_meta ''k'' ''d'' Map.empty,
     ksSpec = \<lparr>ksZones = [store_zone],
       ksCoreDNS = \<lparr>cdImage = ''new'', cdReplicas = 3\<rparr>, ksSecret = None,
       ksExpose = \<lparr>exCoreDNS = Some \<lparr>exType = ''ClusterIP'', exExternalIPs = [], exLoadBalancerIP = '''',
         exProvider = '''', exAnnotations = Map.empty\<rparr>, exZupd = None\<rparr>\<rparr>,
     ksConditions = [''Available'']\<rparr>"

text \<open>The text of a record: its name, for an SOA with the serial in unary.\<close>

definition store_text :: "orr \<Rightarrow> string" where
  "store_text rr = hName (Header rr) @
     (case rr of RR_SOA h d \<Rightarrow> replicate (unat (soaSerial d)) (CHR ''1'') | _ \<Rightarrow> [])"

text \<open>
  The resource has its first condition once its status was updated, which leaves a mark under a
  key that no object has (the mark is not in the view of the cluster).
\<close>

definition status_mark :: kkey where
  "status_mark = (''Ksdns'', ''d'', ''k'')"

definition store_op :: "(kkey \<rightharpoonup> kobj) op_lib" where
  "store_op = \<lparr>aFqdn = s_fqdn, aJoin = concat, aString = store_text,
     oGetKsdns = (\<lambda>c ns nm. Inr (if c status_mark = None then store_ksdns\<lparr>ksConditions := []\<rparr> else store_ksdns)),
     oUpdateStatus = (\<lambda>c k. (None, c(status_mark \<mapsto> OServiceAccount no_meta))),
     oGetSecret = store_secret,
     oCreateSecret = (\<lambda>c s. (Inr (with_data s), c(obj_key (OSecret s) \<mapsto> OSecret (with_data s)))),
     oGetService = (\<lambda>c ns nm. case store_view c (''Service'', ns, nm) of Some (OService m s) \<Rightarrow> Inr s | _ \<Rightarrow> Inl KNotFound),
     oListZones = (\<lambda>c ns. Inr []),
     oListPods = (\<lambda>c ns ls. Inr []),
     oCreateOrUpdate = store_write,
     oSetOwner = (\<lambda>k x. Inr (owned k x)),
     oBackoff = polled 4\<rparr>"

lemma store_op_simps [simp]:
  "oCreateOrUpdate store_op = store_write" "oSetOwner store_op k x = Inr (owned k x)"
  "oGetSecret store_op = store_secret" "oListZones store_op c ns = Inr []" "oListPods store_op c ns ls = Inr []"
  "oGetKsdns store_op c ns nm = Inr (if c status_mark = None then store_ksdns\<lparr>ksConditions := []\<rparr> else store_ksdns)"
  "oUpdateStatus store_op c k = (None, c(status_mark \<mapsto> OServiceAccount no_meta))"
  "oBackoff store_op = polled 4"
  "oCreateSecret store_op c s = (Inr (with_data s), c(obj_key (OSecret s) \<mapsto> OSecret (with_data s)))"
  by (simp_all add: store_op_def)

lemma admit_stored: "stored_as b x (admit b x)" and admit_key: "obj_key (admit b x) = obj_key x"
  by (cases x; cases b; auto simp: stored_as_def admit_def with_data_def map_le_def)+

lemma store_view_upd: "obj_key y = key \<Longrightarrow> store_view (c(key \<mapsto> y)) key = Some y"
  by (simp add: store_view_def)

lemma store_write_law: "write_law store_op store_view"
proof -
  have 1: "\<exists>x x'. f (current store_view c obj) = Inr x \<and> obj_key x = obj_key obj \<and>
      stored_as (current store_view c obj) x x' \<and> store_view c' (obj_key obj) = Some x'"
    if run: "store_write c obj f = (Inr op, c')" for c obj f op c'
  proof -
    obtain x where x: "f (current store_view c obj) = Inr x" "obj_key x = obj_key obj"
      "c' = c(obj_key obj \<mapsto> admit (current store_view c obj) x)"
      using run by (auto simp: store_write_def Let_def split: sum.splits if_splits)
    have "store_view c' (obj_key obj) = Some (admit (current store_view c obj) x)"
      unfolding x(3) by (rule store_view_upd) (simp add: admit_key x(2))
    with x(1,2) admit_stored show ?thesis by blast
  qed
  have 2: "store_view (snd (store_write c obj f)) j = store_view c j" if "j \<noteq> obj_key obj" for c obj f j
    using that by (simp add: store_write_def store_view_def Let_def split: sum.splits)
  have 3: "store_view (snd (store_write c obj f)) = store_view c"
    if "fst (store_write c obj f) = Inl KConflict" for c obj f
    using that by (simp add: store_write_def Let_def split: sum.splits if_splits)
  show ?thesis unfolding write_law_def using 1 2 3 by simp
qed

lemma store_view_mark: "store_view (c(status_mark \<mapsto> OServiceAccount no_meta)) j =
    (if j = status_mark then None else store_view c j)"
  by (simp add: store_view_def status_mark_def)

lemma store_view_no_mark: "store_view c status_mark = None"
proof (cases "c status_mark")
  case (Some x)
  then show ?thesis by (cases x) (simp_all add: store_view_def status_mark_def)
qed (simp add: store_view_def)

lemma store_laws: "client_laws store_op store_view"
proof -
  have "backoff_law 4 store_op" by (simp add: backoff_law_def)
  moreover have "store_view (c(status_mark \<mapsto> OServiceAccount no_meta)) = store_view c" for c
    by (simp add: fun_eq_iff store_view_mark store_view_no_mark)
  ultimately show ?thesis
    using store_write_law by (auto simp: client_laws_def store_view_def owned_law split: option.splits if_splits)
qed

lemma store_write_ok:
  assumes "f (current store_view c obj) = Inr x" and "obj_key x = obj_key obj"
  shows "\<exists>c'. CreateOrUpdateWithRetries store_op obj f c = (Inr ''updated'', c')"
  using assms
  by (simp add: CreateOrUpdateWithRetries_def retry_condition_def store_write_def Let_def numeral_eq_Suc)

lemma store_current: "obj_key (current store_view c obj) = obj_key obj"
  by (auto simp: current_def store_view_def split: option.splits if_splits)

lemma store_step:
  assumes "\<And>b. obj_key b = obj_key obj \<Longrightarrow> \<exists>x. f b = Inr x \<and> obj_key x = obj_key b"
  shows "\<exists>c'. only_error (CreateOrUpdateWithRetries store_op obj f c) = (None, c')"
proof -
  obtain x where "f (current store_view c obj) = Inr x" "obj_key x = obj_key obj"
    using assms [OF store_current] store_current by metis
  then show ?thesis using store_write_ok by (fastforce simp: only_error_eq_None)
qed

lemma setters_store:
  "\<exists>x. set_tsig store_op k t b = Inr x \<and> obj_key x = obj_key b"
  "\<exists>x. set_config store_op k t b = Inr x \<and> obj_key x = obj_key b"
  "\<exists>x. set_service store_op k sp b = Inr x \<and> obj_key x = obj_key b"
  by (cases b; simp add: set_tsig_def set_config_def set_service_def owned_law owned_meta_def)+

lemma store_owner: "\<exists>c'. only_error (CreateOrUpdateWithRetries store_op obj (oSetOwner store_op k) c) = (None, c')"
  by (rule store_step) (simp add: owned_law)

lemma store_ksdns_simps [simp]:
  "ks_ns store_ksdns = ''d''" "ks_name store_ksdns = ''k''" "ksConditions store_ksdns \<noteq> []"
  "ksSecret (ksSpec store_ksdns) = None" "ksZones (ksSpec store_ksdns) = [store_zone]"
  by (simp_all add: store_ksdns_def)

lemma store_zone_simps [simp]:
  "kzOrigin store_zone = ''a.org''" "kzRecords store_zone = [ex_record ''A'' ''10.0.0.10'']"
  "supported_type (rcType (ex_record ''A'' t))"
  by (simp_all add: store_zone_def ex_record_def supported_type_def)

lemma store_zone_file:
  "ToRfc1035Zone A now store_zone ip = Inr \<lparr>spZone = zone_text A (zone_rrs A now store_zone ip)\<rparr>"
  by (rule ToRfc1035Zone_text) simp_all

lemma store_seen:
  "seen_resource store_op ns nm c =
     Some (store_ksdns, if c status_mark = None then c(status_mark \<mapsto> OServiceAccount no_meta) else c)"
  by (simp add: seen_resource_def)

text \<open>On this cluster every reconciliation succeeds.\<close>

lemma store_ensures: "\<exists>c'. ensure_all store_op now ts store_ksdns c = Ret (None, c')"
proof -
  let ?k = store_ksdns
  have "\<exists>s c1. tsig_source store_op ts ?k c = (Inr s, c1)"
    by (cases "store_secret c ''d'' ''k''")
      (auto simp: tsig_source_def Let_def store_secret_def split: option.splits kobj.splits)
  then obtain s c0 where "tsig_source store_op ts ?k c = (Inr s, c0)" by blast
  then obtain c1 where 1: "ensureCoreDNSSecret store_op ts ?k c = (None, c1)"
    using store_step [OF setters_store(1)] by (fastforce simp: ensureCoreDNSSecret_def)
  obtain c2 where 2: "ensureZones store_op now ?k c1 = (None, c2)" by (simp add: ensureZones_def)
  have "\<exists>ips. getZupdIPs store_op ?k c2 = Inr ips"
    by (cases "store_view c2 (''Service'', ks_ns ?k, zupdName ?k)")
      (auto simp: getZupdIPs_def store_op_def split: kobj.splits)
  then obtain ips where ips: "getZupdIPs store_op ?k c2 = Inr ips" by blast
  obtain c3 where 3: "ensureCoreDNSConfigMap store_op ?k c2 = (None, c3)"
    using store_step [OF setters_store(2)] ips by (fastforce simp: ensureCoreDNSConfigMap_def getZones_def)
  obtain c4 where 4: "ensureCoreDNSserviceaccount store_op ?k c3 = (None, c4)"
    using store_owner unfolding ensureCoreDNSserviceaccount_def by blast
  obtain spec where "coreDNSServiceSpec ?k = Ret (Inr spec)" by (simp add: coreDNSServiceSpec_def store_ksdns_def)
  then obtain c5 where 5: "ensureCoreDNSservice store_op ?k c4 = Ret (None, c5)"
    using store_step [OF setters_store(3)] by (fastforce simp: ensureCoreDNSservice_def)
  obtain c6 where "only_error (CreateOrUpdateWithRetries store_op (coreDNSDeployment ?k) (oSetOwner store_op ?k) c5) = (None, c6)"
    using store_owner by blast
  with 3 4 5 have 6: "ensureCoreDNS store_op ?k c2 = Ret (None, c6)" by (simp add: ensureCoreDNS_def)
  obtain c7 where 7: "ensureZupdSvc store_op ?k c6 = (None, c7)" by (simp add: ensureZupdSvc_def)
  obtain c8 where 8: "ensureZupdServiceAccount store_op ?k c7 = (None, c8)"
    using store_owner unfolding ensureZupdServiceAccount_def by blast
  obtain c9 where "only_error (CreateOrUpdateWithRetries store_op
      (ORole (object_meta (zupdName ?k) (ks_ns ?k) Map.empty) zupd_rules) (oSetOwner store_op ?k) c8) = (None, c9)"
    using store_owner by blast
  then obtain c10 where 9: "ensureZupdNamespaceAdminRole store_op ?k c8 = (None, c10)"
    using store_owner
    by (fastforce simp: ensureZupdNamespaceAdminRole_def Let_def only_error_eq_None)
  obtain c11 where 10: "ensureZupdConfigMap store_op ?k c10 = (None, c11)"
    by (simp add: ensureZupdConfigMap_def Let_def)
  obtain c12 where "only_error (CreateOrUpdateWithRetries store_op (zupdDeployment ?k) (oSetOwner store_op ?k) c11) = (None, c12)"
    using store_owner by blast
  with 7 8 9 10 have "ensureZupd store_op ?k c6 = (None, c12)" by (simp add: ensureZupd_def)
  with 1 2 6 show ?thesis by (simp add: ensure_all_def)
qed

lemma store_reconciles: "\<exists>c'. Reconcile_Ksdns store_op now ts ns nm c = Ret (None, c')"
  using store_ensures by (simp add: seen_reconcile [OF store_seen])

lemma store_zone_written: "zone_write store_op now ts store_ksdns pre store_zone c = Some ''updated''"
proof -
  let ?c = "fold (ensure_zone store_op now store_ksdns) pre (snd (ensureCoreDNSSecret store_op ts store_ksdns c))"
  let ?new = "OZone (new_zone store_ksdns store_zone)"
  have key: "obj_key (current store_view ?c ?new) = obj_key ?new" by (rule store_current)
  then have "\<exists>x. set_zone_spec store_op store_ksdns spec (current store_view ?c ?new) = Inr x \<and>
      obj_key x = obj_key ?new" for spec
    by (cases "current store_view ?c ?new") (simp_all add: set_zone_spec_def owned_law owned_meta_def)
  then have "fst (CreateOrUpdateWithRetries store_op ?new (set_zone_spec store_op store_ksdns spec) ?c) = Inr ''updated''" for spec
    using store_write_ok by (metis fst_conv)
  then show ?thesis by (simp add: zone_write_def store_zone_file)
qed

end
