(* ===== verification/KsdnsCluster.thy ===== *)
theory KsdnsCluster
  imports ClusterStore
begin

text \<open>
  What the operator leaves in the cluster: which objects a successful reconciliation leaves, what
  happens to objects that exist already, and that rewriting a zone file keeps the dynamic records
  stored in the status.  All of it holds for the first reconciliation of a resource too, the one
  that stores its first status condition and then reads it again: \<open>seen_resource\<close> is the resource
  as the run works on it.
\<close>

subsection \<open>Properties\<close>

text \<open>
  C16: a successful reconciliation leaves the objects it stands for.  When it returns no error and the
  resource was there, the run went on to the end, also when it was the first one: the
  cluster holds the TSIG configuration, everything of the secondary server, and the accounts,
  role, binding and deployment of the update server; objects under other keys than those of
  the resource, its two servers and its zones are not touched.  (The Zones, and the service
  and Corefile of the update server, are not among the sure ones: their errors are dropped.)
\<close>

theorem reconcile_leaves_objects:
  assumes "client_laws K view" and "oGetKsdns K c ns nm \<noteq> Inl KNotFound"
    and "Reconcile_Ksdns K now ts ns nm c = Ret (None, c')"
  shows "\<exists>k c1. seen_resource K ns nm c = Some (k, c1) \<and>
    (\<forall>key \<in> sure_keys k. view c' key \<noteq> None) \<and>
    (\<forall>key. key \<notin> written_keys k \<longrightarrow> view c' key = view c key)"
proof -
  obtain k c1 where k: "seen_resource K ns nm c = Some (k, c1)" "ensure_all K now ts k c1 = Ret (None, c')"
    using reconcile_seen [OF assms(3,2)] by blast
  then show ?thesis
    using ensure_all_step(1,2) [OF assms(1) k(2)] seen_view [OF assms(1) k(1)] unfolding touches_def by force
qed

text \<open>
  C17: a reconciliation never changes an existing deployment.  The function the client applies to
  the object of the cluster only sets the owner, so the replicas, images and arguments of both
  servers are those of the reconciliation that created them, whatever the resource says now; only
  a deployment that is missing, as in the first reconciliation, is created from the resource.
\<close>

theorem deployments_are_never_updated:
  assumes "client_laws K view" and "oGetKsdns K c ns nm \<noteq> Inl KNotFound"
    and "Reconcile_Ksdns K now ts ns nm c = Ret (None, c')"
  shows "\<exists>k c1. seen_resource K ns nm c = Some (k, c1) \<and>
    deployed view c' (coredns_deployment k) =
      (case deployed view c (coredns_deployment k) of Some d \<Rightarrow> Some d | None \<Rightarrow> dep_spec (coreDNSDeployment k)) \<and>
    deployed view c' (zupd_deployment k) =
      (case deployed view c (zupd_deployment k) of Some d \<Rightarrow> Some d | None \<Rightarrow> dep_spec (zupdDeployment k))"
proof -
  obtain k c1 where k: "seen_resource K ns nm c = Some (k, c1)" "ensure_all K now ts k c1 = Ret (None, c')"
    using reconcile_seen [OF assms(3,2)] by blast
  have "deployed view c1 = deployed view c" by (simp add: deployed_def seen_view [OF assms(1) k(1)] fun_eq_iff)
  then show ?thesis using ensure_all_step(3,4) [OF assms(1) k(2)] k(1) by (simp add: kept_or_def)
qed

text \<open>
  C15: rewriting a zone keeps its dynamic records.  Take a zone of the resource, the only one with
  its origin, whose file can be rendered, and a reconciliation that returns no error and in which
  the write of the Zone object of this zone, whose error would be dropped, succeeds.  The object
  then has exactly that file as its spec, and the status, which holds the records of the dynamic
  updates, is the one it had before, also where the API server takes the status that is sent; a
  new object has an empty status.
\<close>

theorem operator_keeps_dynamic_records:
  assumes "client_laws K view" and "seen_resource K ns nm c = Some (k, c0)"
    and "Reconcile_Ksdns K now ts ns nm c = Ret (None, c')"
    and "ksZones (ksSpec k) = pre @ z # post" and "kzOrigin z \<notin> kzOrigin ` set (pre @ post)"
    and "ToRfc1035Zone K now z (Some [10, 0, 0, 10]) = Inr spec"
    and "zone_write K now ts k pre z c0 = Some op"
    and "key = (''Zone'', ks_ns k, kzOrigin z)"
  shows "\<exists>zo. view c' key = Some (OZone zo) \<and> zSpec zo = spec \<and> zStatus zo = status_at view c key"
  using reconciled_zone [OF assms] by blast

subsection \<open>Witnesses\<close>

text \<open>The first reconciliation, on an empty cluster.\<close>

theorem reconcile_leaves_objects_witness:
  "\<exists>c'. Reconcile_Ksdns store_op 9 ''s3cret'' ''d'' ''k'' Map.empty = Ret (None, c') \<and>
    store_view c' (''Role'', ''d'', ''k-zupd'') \<noteq> None \<and> store_view c' (''Role'', ''e'', ''k-zupd'') = None"
proof -
  obtain c' where run: "Reconcile_Ksdns store_op 9 ''s3cret'' ''d'' ''k'' Map.empty = Ret (None, c')"
    using store_reconciles by blast
  have found: "oGetKsdns store_op Map.empty ''d'' ''k'' \<noteq> Inl KNotFound" by simp
  have "store_view c' (''Role'', ''d'', ''k-zupd'') \<noteq> None"
    and "store_view c' (''Role'', ''e'', ''k-zupd'') = store_view Map.empty (''Role'', ''e'', ''k-zupd'')"
    using reconcile_leaves_objects [OF store_laws found run]
    by (auto simp: store_seen sure_keys_def written_keys_def zone_keys_def coredns_kinds_def zupd_kinds_def
        zupdName_def corednsName_def)
  with run show ?thesis by (simp add: store_view_def)
qed

text \<open>An old deployment of the update server, with an image the resource does not name any more.\<close>

definition old_spec :: DeploymentSpec where
  "old_spec = \<lparr>dpReplicas = 1, dpSelector = Map.empty, dpLabels = Map.empty, dpServiceAccount = '''',
     dpContainers = [\<lparr>cnName = ''zupd'', cnImage = ''old'', cnPorts = [], cnReadiness = None, cnLiveness = None,
       cnArgs = [], cnMounts = []\<rparr>], dpVolumes = []\<rparr>"

theorem deployments_are_never_updated_witness:
  "\<exists>c'. Reconcile_Ksdns store_op 9 ''s3cret'' ''d'' ''k''
      [(''Deployment'', ''d'', ''k-zupd'') \<mapsto> ODeployment (object_meta ''k-zupd'' ''d'' Map.empty) old_spec] = Ret (None, c') \<and>
    deployed store_view c' (''Deployment'', ''d'', ''k-zupd'') = Some old_spec \<and>
    deployed store_view c' (''Deployment'', ''d'', ''k-coredns'') = dep_spec (coreDNSDeployment store_ksdns)"
proof -
  let ?c = "[(''Deployment'', ''d'', ''k-zupd'') \<mapsto> ODeployment (object_meta ''k-zupd'' ''d'' Map.empty) old_spec]"
  obtain c' where run: "Reconcile_Ksdns store_op 9 ''s3cret'' ''d'' ''k'' ?c = Ret (None, c')"
    using store_reconciles by blast
  have found: "oGetKsdns store_op ?c ''d'' ''k'' \<noteq> Inl KNotFound" by simp
  have old: "deployed store_view ?c (''Deployment'', ''d'', ''k-zupd'') = Some old_spec"
    "deployed store_view ?c (''Deployment'', ''d'', ''k-coredns'') = None"
    by (simp_all add: deployed_def store_view_def dep_spec_def)
  from deployments_are_never_updated [OF store_laws found run] run old
  show ?thesis by (simp add: store_seen corednsName_def zupdName_def)
qed

text \<open>A Zone object with a stored dynamic record, before the operator rewrites its file.\<close>

definition old_zone :: Zone where
  "old_zone = \<lparr>zMeta = object_meta ''a.org'' ''d'' Map.empty, zSpec = \<lparr>spZone = ''old''\<rparr>,
     zStatus = \<lparr>DynamicRRs = [\<lparr>RR = ''www''\<rparr>], Serial = 7\<rparr>\<rparr>"

theorem operator_keeps_dynamic_records_witness:
  "\<exists>c' zo. Reconcile_Ksdns store_op 9 ''s3cret'' ''d'' ''k''
      [(''Zone'', ''d'', ''a.org'') \<mapsto> OZone old_zone] = Ret (None, c') \<and>
    store_view c' (''Zone'', ''d'', ''a.org'') = Some (OZone zo) \<and>
    spZone (zSpec zo) = ''a.org.111111111'' @ [nl] @ ''a.org.'' @ [nl] @ ''ns.dnsa.org.'' @ [nl] @ ''www'' @ [nl] \<and>
    zStatus zo = \<lparr>DynamicRRs = [\<lparr>RR = ''www''\<rparr>], Serial = 7\<rparr>"
proof -
  let ?c = "[(''Zone'', ''d'', ''a.org'') \<mapsto> OZone old_zone]"
  obtain c' where run: "Reconcile_Ksdns store_op 9 ''s3cret'' ''d'' ''k'' ?c = Ret (None, c')"
    using store_reconciles by blast
  have zs: "ksZones (ksSpec store_ksdns) = [] @ store_zone # []"
    "kzOrigin store_zone \<notin> kzOrigin ` set ([] @ [])" by simp_all
  have nine: "replicate 9 (CHR ''1'') = ''111111111''" by (simp add: numeral_eq_Suc)
  have spec: "ToRfc1035Zone store_op 9 store_zone (Some [10, 0, 0, 10]) =
      Inr \<lparr>spZone = ''a.org.111111111'' @ [nl] @ ''a.org.'' @ [nl] @ ''ns.dnsa.org.'' @ [nl] @ ''www'' @ [nl]\<rparr>"
    by (simp add: store_zone_file zone_text_def zone_rrs_def user_rr_def user_header_def ex_record_def Let_def
        store_op_def s_fqdn_def nsName_def store_text_def serial_of_s_def nine)
  have "(''Zone'', ''d'', ''a.org'') = (''Zone'', ks_ns store_ksdns, kzOrigin store_zone)" by simp
  from operator_keeps_dynamic_records [OF store_laws store_seen run zs spec store_zone_written this] run
  show ?thesis by (auto simp: status_at_def store_view_def old_zone_def)
qed

end
