(* ===== verification/Base64.thy ===== *)
theory Base64
  imports Prelude
begin

text \<open>
  Go's \<open>base64.StdEncoding\<close> (RFC 4648, section 4), which the operator uses for the TSIG secret:
  three octets are a number of 24 bits, written as four digits of 6 bits; a rest of one or two
  octets is padded.  Decoding gives the octets back, so different keys have different texts.
\<close>

type_synonym byte = "8 word"

subsection \<open>Digits\<close>

definition alphabet64 :: string where
  "alphabet64 = ''ABCDEFGHIJKLMNOPQRSTUVWXYZabcdefghijklmnopqrstuvwxyz0123456789+/''"

definition digit64 :: "nat \<Rightarrow> char" where
  "digit64 n = alphabet64 ! (n mod 64)"

fun position :: "'a \<Rightarrow> 'a list \<Rightarrow> nat option" where
  "position x [] = None"
| "position x (y # ys) = (if x = y then Some 0 else map_option Suc (position x ys))"

definition value64 :: "char \<Rightarrow> nat option" where
  "value64 c = position c alphabet64"

lemma length_alphabet64: "length alphabet64 = 64"
  by (simp add: alphabet64_def)

lemma distinct_alphabet64: "distinct alphabet64"
  by (simp add: alphabet64_def)

lemma position_nth: "distinct xs \<Longrightarrow> n < length xs \<Longrightarrow> position (xs ! n) xs = Some n"
proof (induction xs arbitrary: n)
  case Nil
  then show ?case by simp
next
  case (Cons x xs)
  then show ?case by (cases n) auto
qed

lemma value_digit [simp]: "value64 (digit64 n) = Some (n mod 64)"
  using position_nth [OF distinct_alphabet64] by (simp add: value64_def digit64_def length_alphabet64)

lemma digit_in_alphabet [simp]: "digit64 n \<in> set alphabet64"
  by (simp add: digit64_def length_alphabet64)

lemma pad_not_in_alphabet: "CHR ''='' \<notin> set alphabet64"
  by (simp add: alphabet64_def)

lemma digit_not_pad [simp]: "digit64 n \<noteq> CHR ''=''"
  using digit_in_alphabet [of n] pad_not_in_alphabet by metis

subsection \<open>Encoding and decoding\<close>

definition quantum :: "byte \<Rightarrow> byte \<Rightarrow> byte \<Rightarrow> nat" where
  "quantum a b c = unat a * 65536 + unat b * 256 + unat c"

fun encode64 :: "byte list \<Rightarrow> string" where
  "encode64 [] = []"
| "encode64 [a] =
     (let v = quantum a 0 0 in [digit64 (v div 262144), digit64 (v div 4096), CHR ''='', CHR ''=''])"
| "encode64 [a, b] =
     (let v = quantum a b 0 in
      [digit64 (v div 262144), digit64 (v div 4096), digit64 (v div 64), CHR ''=''])"
| "encode64 (a # b # c # rest) =
     (let v = quantum a b c in
      [digit64 (v div 262144), digit64 (v div 4096), digit64 (v div 64), digit64 v] @ encode64 rest)"

text \<open>The number four digits stand for; the padding counts as zero.\<close>

definition number64 :: "nat \<Rightarrow> nat \<Rightarrow> nat \<Rightarrow> nat \<Rightarrow> nat" where
  "number64 p q r s = p * 262144 + q * 4096 + r * 64 + s"

definition octets :: "nat \<Rightarrow> byte list" where
  "octets v = [of_nat (v div 65536), of_nat (v div 256), of_nat v]"

fun decode64 :: "string \<Rightarrow> byte list option" where
  "decode64 [] = Some []"
| "decode64 (w # x # y # z # rest) =
     (case (value64 w, value64 x) of
        (Some p, Some q) \<Rightarrow>
          if y = CHR ''='' \<and> z = CHR ''='' \<and> rest = [] then Some (take 1 (octets (number64 p q 0 0)))
          else (case value64 y of
                  None \<Rightarrow> None
                | Some r \<Rightarrow>
                    if z = CHR ''='' \<and> rest = [] then Some (take 2 (octets (number64 p q r 0)))
                    else (case (value64 z, decode64 rest) of
                            (Some s, Some bs) \<Rightarrow> Some (octets (number64 p q r s) @ bs)
                          | _ \<Rightarrow> None))
      | _ \<Rightarrow> None)"
| "decode64 _ = None"

subsection \<open>Round trip\<close>

lemma byte_bound: "unat (a :: byte) < 256"
  using unsigned_less [where w = a and 'a = nat] by simp

lemma quantum_bound: "quantum a b c < 16777216"
  using byte_bound [of a] byte_bound [of b] byte_bound [of c] by (simp add: quantum_def)

lemma number_of_digits:
  assumes "v < 16777216"
  shows "number64 (v div 262144 mod 64) (v div 4096 mod 64) (v div 64 mod 64) (v mod 64) = v"
proof -
  have "v div 262144 mod 64 = v div 262144" using assms by simp
  moreover have "v div 4096 = v div 262144 * 64 + v div 4096 mod 64"
    using div_mult_mod_eq [of "v div 4096" 64] by (simp add: div_mult2_eq [symmetric])
  moreover have "v div 64 = v div 4096 * 64 + v div 64 mod 64"
    using div_mult_mod_eq [of "v div 64" 64] by (simp add: div_mult2_eq [symmetric])
  moreover have "v = v div 64 * 64 + v mod 64" by simp
  ultimately show ?thesis unfolding number64_def by linarith
qed

lemma octets_quantum: "octets (quantum a b c) = [a, b, c]"
proof -
  have "quantum a b c div 65536 = unat a" and "quantum a b c div 256 = unat a * 256 + unat b"
    using byte_bound [of b] byte_bound [of c] by (simp_all add: quantum_def)
  moreover have z: "(256 :: byte) = 0" "(65536 :: byte) = 0" by (simp_all add: word_unat_eq_iff)
  have "x * 256 = 0" and "x * 65536 = 0" for x :: byte
    unfolding z by (rule mult_zero_right)+
  ultimately show ?thesis by (simp add: octets_def quantum_def)
qed

text \<open>A rest of one or two octets leaves the last digits of the number zero.\<close>

lemma quantum_pad:
  "quantum a b 0 mod 64 = 0" "quantum a 0 0 div 64 mod 64 = 0" "quantum a 0 0 mod 64 = 0"
  by (simp_all add: quantum_def)

lemma decode_encode: "decode64 (encode64 bs) = Some bs"
proof (induction bs rule: encode64.induct)
  case 1
  then show ?case by simp
next
  case (2 a)
  have "number64 (quantum a 0 0 div 262144 mod 64) (quantum a 0 0 div 4096 mod 64) 0 0 = quantum a 0 0"
    using number_of_digits [OF quantum_bound, of a 0 0] quantum_pad by simp
  then show ?case using octets_quantum [of a 0 0] by (simp add: Let_def)
next
  case (3 a b)
  have "number64 (quantum a b 0 div 262144 mod 64) (quantum a b 0 div 4096 mod 64) (quantum a b 0 div 64 mod 64) 0
      = quantum a b 0"
    using number_of_digits [OF quantum_bound, of a b 0] quantum_pad by simp
  then show ?case using octets_quantum [of a b 0] by (simp add: Let_def)
next
  case (4 a b c rest)
  then show ?case
    using number_of_digits [OF quantum_bound, of a b c] octets_quantum [of a b c] by (simp add: Let_def)
qed

lemma encode_length: "length (encode64 bs) = 4 * ((length bs + 2) div 3)"
proof (induction bs rule: encode64.induct)
  case (4 a b c rest)
  have "(length (a # b # c # rest) + 2) div 3 = (length rest + 2) div 3 + 1" by simp
  with 4 show ?case by (simp add: Let_def)
qed (simp_all add: Let_def)

lemma encode_alphabet: "set (encode64 bs) \<subseteq> insert (CHR ''='') (set alphabet64)"
  by (induction bs rule: encode64.induct) (auto simp: Let_def)

end
