(* ===== verification/KsdnsTsig.thy ===== *)
theory KsdnsTsig
  imports KsdnsCluster Base64
begin

text \<open>
  The TSIG secret of a resource that names none (\<open>generateTsigSecret\<close> in
  \<open>controllers/dns/coredns.go\<close>): 32 random octets in base64, written to a secret of the resource
  and from there into the configuration both servers mount.
\<close>

text \<open>
  \<open>rand.Read\<close> is a parameter: given the slice to fill it returns an error or the slice filled.  The
  slice is made with 32 zero octets; an error panics.
\<close>

definition generateTsigSecret :: "(byte list \<Rightarrow> string + byte list) \<Rightarrow> string go" where
  "generateTsigSecret read =
     (let key = replicate 32 0 in
      case read key of
        Inl err \<Rightarrow> Panic
      | Inr key' \<Rightarrow> Ret (encode64 key'))"

text \<open>Its documented behaviour: without an error it fills the whole slice.\<close>

definition read_law :: "(byte list \<Rightarrow> string + byte list) \<Rightarrow> bool" where
  "read_law read \<longleftrightarrow> (\<forall>buf key. read buf = Inr key \<longrightarrow> length key = length buf)"

lemma encode_no_quote: "dq \<notin> set (encode64 bs)"
  using encode_alphabet [of bs] by (auto simp: alphabet64_def dq_def)

text \<open>The secret a resource gets when it names none and has none.\<close>

definition own_secret :: "Ksdns \<Rightarrow> string \<Rightarrow> Secret" where
  "own_secret k ts = \<lparr>scMeta = object_meta (ks_name k) (ks_ns k) (makeLabels ''ksdns'' k),
     scStringData = [''tsigKey'' \<mapsto> tsigKey, ''tsigSecret'' \<mapsto> ts], scData = Map.empty\<rparr>"

lemma body_secret:
  assumes "body x = body (OSecret s)"
  shows "\<exists>s'. x = OSecret s' \<and> scStringData s' = scStringData s"
proof (cases x)
  case (OSecret y)
  with assms have "y\<lparr>scMeta := no_meta\<rparr> = s\<lparr>scMeta := no_meta\<rparr>" by simp
  then have "scStringData (y\<lparr>scMeta := no_meta\<rparr>) = scStringData (s\<lparr>scMeta := no_meta\<rparr>)" by simp
  with OSecret show ?thesis by simp
qed (use assms in simp_all)

text \<open>A client that creates the secret, with the text it is given as its data.\<close>

definition creates_secret :: "('c, 'm) op_lib_scheme \<Rightarrow> Ksdns \<Rightarrow> 'c \<Rightarrow> bool" where
  "creates_secret K k c \<longleftrightarrow>
     (\<forall>s. obj_key (OSecret s) = (''Secret'', ks_ns k, ks_name k) \<longrightarrow>
       (\<exists>s' c1. oCreateSecret K c s = (Inr s', c1) \<and> scStringData s \<subseteq>\<^sub>m scData s'))"

lemma tsig_source_creates:
  assumes laws: "client_laws K view" and none: "ksSecret (ksSpec k) = None"
    and get: "oGetSecret K c (ks_ns k) (ks_name k) = Inl KNotFound"
    and owner: "oSetOwner K k (OSecret (own_secret k ts)) = Inr x" and create: "creates_secret K k c"
  shows "\<exists>s' c1. tsig_source K ts k c = (Inr s', c1) \<and>
    data_text s' ''tsigKey'' = tsigKey \<and> data_text s' ''tsigSecret'' = ts"
proof -
  have x: "body x = body (OSecret (own_secret k ts))" "obj_key x = (''Secret'', ks_ns k, ks_name k)"
    using client_owner [OF laws owner] by (simp_all add: own_secret_def)
  then obtain s where s: "x = OSecret s" "scStringData s = [''tsigKey'' \<mapsto> tsigKey, ''tsigSecret'' \<mapsto> ts]"
    using body_secret [OF x(1)] by (auto simp: own_secret_def)
  obtain s' c1 where s': "oCreateSecret K c s = (Inr s', c1)" "scStringData s \<subseteq>\<^sub>m scData s'"
    using create x(2) s(1) unfolding creates_secret_def by blast
  have "scData s' i = scStringData s i" if "i \<in> {''tsigKey'', ''tsigSecret''}" for i
    using s'(2) s(2) that unfolding map_le_def by auto
  then have "data_text s' ''tsigKey'' = tsigKey" "data_text s' ''tsigSecret'' = ts"
    by (simp_all add: data_text_def s(2))
  moreover have "tsig_source K ts k c = (Inr s', c1)"
    using none get owner s(1) s'(1) by (simp add: tsig_source_def own_secret_def Let_def)
  ultimately show ?thesis by blast
qed

subsection \<open>Properties\<close>

text \<open>
  C36: the generated TSIG secret is the random key.  Let \<open>rand.Read\<close> fill the slice it is given, as
  documented, and let \<open>generateTsigSecret\<close> return (it panics on an error of \<open>rand.Read\<close>).  Its text has
  44 characters, none of them a quote, and decodes to 32 octets, those that were drawn.  A resource that names no secret
  and has none, and whose new secret the client owns and creates, gets a secret with this text, and
  the configuration both servers read is written with the key's name and this very text.
\<close>

theorem generated_secret_is_used:
  assumes "client_laws K view" and "ksSecret (ksSpec k) = None"
    and "oGetSecret K c (ks_ns k) (ks_name k) = Inl KNotFound"
    and "read_law read" and "generateTsigSecret read = Ret ts"
    and "oSetOwner K k (OSecret (own_secret k ts)) = Inr x" and "creates_secret K k c"
  shows "length ts = 44 \<and> dq \<notin> set ts \<and>
    (\<exists>buf key. read buf = Inr key \<and> decode64 ts = Some key \<and> length key = 32) \<and>
    (\<exists>c1. ensureCoreDNSSecret K ts k c = only_error (CreateOrUpdateWithRetries K
      (OSecret \<lparr>scMeta = object_meta (corednsName k) (ks_ns k) (makeLabels ''ksdns'' k),
         scStringData = Map.empty, scData = Map.empty\<rparr>)
      (set_tsig K k (renderCoreFileTsigSecret tsigKey ts)) c1))"
proof -
  obtain key where key: "read (replicate 32 0) = Inr key" and ts: "ts = encode64 key"
    using assms(5) by (auto simp: generateTsigSecret_def Let_def split: sum.splits)
  then have "length key = 32" using assms(4) unfolding read_law_def by fastforce
  moreover have "\<exists>c1. ensureCoreDNSSecret K ts k c = only_error (CreateOrUpdateWithRetries K
      (OSecret \<lparr>scMeta = object_meta (corednsName k) (ks_ns k) (makeLabels ''ksdns'' k),
         scStringData = Map.empty, scData = Map.empty\<rparr>)
      (set_tsig K k (renderCoreFileTsigSecret tsigKey ts)) c1)"
    using tsig_source_creates [OF assms(1-3,6,7)] by (auto simp: ensureCoreDNSSecret_def)
  ultimately show ?thesis
    using key by (auto simp: ts encode_length decode_encode encode_no_quote)
qed

text \<open>A source of octets that are all 7.\<close>

theorem generated_secret_is_used_witness:
  "\<exists>ts. generateTsigSecret (\<lambda>buf. Inr (map (\<lambda>b. 7) buf)) = Ret ts \<and>
   length ts = 44 \<and> decode64 ts = Some (replicate 32 7) \<and>
   (\<exists>c1. ensureCoreDNSSecret store_op ts store_ksdns Map.empty =
     only_error (CreateOrUpdateWithRetries store_op
       (OSecret \<lparr>scMeta = object_meta ''k-coredns'' ''d'' (makeLabels ''ksdns'' store_ksdns),
          scStringData = Map.empty, scData = Map.empty\<rparr>)
       (set_tsig store_op store_ksdns (renderCoreFileTsigSecret tsigKey ts)) c1))"
proof -
  let ?read = "\<lambda>buf :: byte list. Inr (map (\<lambda>b. 7) buf) :: string + byte list"
  have get: "oGetSecret store_op Map.empty (ks_ns store_ksdns) (ks_name store_ksdns) = Inl KNotFound"
    by (simp add: store_secret_def store_view_def)
  have gen: "generateTsigSecret ?read = Ret (encode64 (replicate 32 7))"
    by (simp add: generateTsigSecret_def)
  have create: "creates_secret store_op store_ksdns Map.empty"
    by (simp add: creates_secret_def with_data_def)
  have law: "read_law ?read" by (simp add: read_law_def)
  from generated_secret_is_used [OF store_laws store_ksdns_simps(4) get law gen _ create] gen
  show ?thesis by (auto simp: corednsName_def decode_encode)
qed

end
