(* ===== verification/KsdnsObjects.thy ===== *)
theory KsdnsObjects
  imports KsdnsTsig
begin

text \<open>
  How the objects the operator writes fit together: the API server's conditions on a deployment,
  services that reach the pods, and files that are where the programs look for them.
\<close>

subsection \<open>Well-formed deployments and services\<close>

text \<open>
  A deployment selects its own pods, and every mount of a container names a volume, each volume
  once and each path once.
\<close>

definition container_ok :: "(string \<times> volume) list \<Rightarrow> Container \<Rightarrow> bool" where
  "container_ok vols c \<longleftrightarrow>
     list_all (\<lambda>m. fst m \<in> set (map fst vols)) (cnMounts c) \<and> distinct (map snd (cnMounts c))"

definition deployment_ok :: "DeploymentSpec \<Rightarrow> bool" where
  "deployment_ok d \<longleftrightarrow>
     dpSelector d \<subseteq>\<^sub>m dpLabels d \<and> distinct (map fst (dpVolumes d)) \<and>
     dpContainers d \<noteq> [] \<and> list_all (container_ok (dpVolumes d)) (dpContainers d)"

text \<open>A service reaches a deployment: it selects the pods, and targets ports their container opens.\<close>

definition service_fits :: "ServiceSpec \<Rightarrow> DeploymentSpec \<Rightarrow> bool" where
  "service_fits sp d \<longleftrightarrow>
     svSelector sp \<subseteq>\<^sub>m dpLabels d \<and> distinct (map spName (svPorts sp)) \<and>
     list_all (\<lambda>p. list_ex (\<lambda>c. (spTargetPort p, spProtocol p) \<in> set (cnPorts c)) (dpContainers d)) (svPorts sp)"

text \<open>The volume a container sees under a path.\<close>

definition mounted_at :: "DeploymentSpec \<Rightarrow> Container \<Rightarrow> string \<Rightarrow> volume list" where
  "mounted_at d c path =
     [v. m \<leftarrow> cnMounts c, snd m = path, w \<leftarrow> dpVolumes d, fst w = fst m, v \<leftarrow> [snd w]]"

text \<open>The value of a flag in an argument list.\<close>

fun flag_value :: "string \<Rightarrow> string list \<Rightarrow> string option" where
  "flag_value f (a # b # as) = (if a = f then Some b else flag_value f (b # as))"
| "flag_value f _ = None"

text \<open>The pods read their Corefile from a config map, and the TSIG file from a secret.\<close>

definition reads_from :: "DeploymentSpec \<Rightarrow> string \<Rightarrow> string \<Rightarrow> bool" where
  "reads_from d cm sec \<longleftrightarrow>
     list_all (\<lambda>c. flag_value ''--conf'' (cnArgs c) = Some (''/etc/coredns/config'' @ ''/Corefile'') \<and>
         mounted_at d c ''/etc/coredns/config'' = [ConfigMapVolume cm] \<and>
         mounted_at d c ''/etc/coredns/secret'' = [SecretVolume sec]) (dpContainers d)"

lemma selector_of_labels: "makeSelector name k \<subseteq>\<^sub>m makeLabels name k"
  by (auto simp: makeSelector_def makeLabels_def map_le_def)

lemmas server_defs = deployment_ok_def container_ok_def service_fits_def reads_from_def mounted_at_def
  server_mounts_def dep_spec_def selector_of_labels

lemma coredns_dep:
  "\<exists>d. dep_spec (coreDNSDeployment k) = Some d \<and> deployment_ok d \<and>
     reads_from d (corednsName k) (corednsName k) \<and>
     (\<forall>sp. coreDNSServiceSpec k = Ret (Inr sp) \<longrightarrow> service_fits sp d)"
  by (auto simp: coreDNSDeployment_def coreDNSServiceSpec_def server_defs split: option.splits if_splits)

lemma zupd_dep:
  "\<exists>d. dep_spec (zupdDeployment k) = Some d \<and> deployment_ok d \<and>
     reads_from d (zupdName k) (corednsName k) \<and> service_fits (zupd_service_spec k) d \<and>
     list_all (\<lambda>c. flag_value ''--leader-election-namespace'' (cnArgs c) = Some (ks_ns k)) (dpContainers d)"
  by (auto simp: zupdDeployment_def zupd_service_spec_def server_defs)

subsection \<open>Properties\<close>

text \<open>
  C39: the objects of the two servers fit together.  Both deployments are well formed; each service
  selects the pods of its deployment and targets ports they open; the pods read their Corefile
  from the config map of their server under the path \<open>--conf\<close> names, and the TSIG file from the
  one secret both share, under the path the Corefile names; and the servers elect their leader
  in the namespace of the resource.
\<close>

theorem server_objects_fit:
  "\<exists>d e. dep_spec (coreDNSDeployment k) = Some d \<and> dep_spec (zupdDeployment k) = Some e \<and>
     deployment_ok d \<and> deployment_ok e \<and>
     reads_from d (corednsName k) (corednsName k) \<and> reads_from e (zupdName k) (corednsName k) \<and>
     service_fits (zupd_service_spec k) e \<and>
     (\<forall>sp. coreDNSServiceSpec k = Ret (Inr sp) \<longrightarrow> service_fits sp d) \<and>
     list_all (\<lambda>c. flag_value ''--leader-election-namespace'' (cnArgs c) = Some (ks_ns k)) (dpContainers e) \<and>
     (\<forall>zones debug. [tab] @ ''secrets /etc/coredns/secret'' @ ''/tsig.conf'' \<in> set (corefile_head zones debug))"
  using coredns_dep [of k] zupd_dep [of k] by (auto simp: corefile_head_def)

theorem server_objects_fit_witness:
  "\<exists>d sp. dep_spec (coreDNSDeployment store_ksdns) = Some d \<and> coreDNSServiceSpec store_ksdns = Ret (Inr sp) \<and>
     service_fits sp d \<and> svPorts sp \<noteq> []"
proof -
  obtain sp where sp: "coreDNSServiceSpec store_ksdns = Ret (Inr sp)" "svPorts sp \<noteq> []"
    by (simp add: coreDNSServiceSpec_def store_ksdns_def)
  with server_objects_fit [of store_ksdns] show ?thesis by blast
qed

end
