(* ===== verification/Setup.thy ===== *)
theory Setup
  imports PluginMachine
begin

text \<open>
  The registration of the plugin (\<open>setup\<close> in \<open>setup.go\<close>) and the controller manager it builds
  (\<open>manager.go\<close>): the client, the zones, the manager and its flags, and the callbacks the server
  runs when it starts, stops, or fails to restart.  The lemmas show in which order they act, and
  that the plugin that serves after start-up is \<open>start_plugin\<close>.
\<close>

subsection \<open>The manager\<close>

text \<open>
  A configuration value of viper: \<open>Get\<close> returns nil or a value of any type.
\<close>

datatype vval = VBool bool | VString string | VNumber int

record mgr_options =
  moNamespaces :: "string list"
  moMetricsBindAddress :: string
  moPort :: int
  moHealthProbeBindAddress :: string
  moLeaderElection :: bool
  moLeaderElectionID :: string
  moLeaderElectionNamespace :: string

text \<open>
  The functions of controller-runtime, each with its error: making a manager, completing the
  controller of the Zone objects, adding the two checks.
\<close>

record mgr_lib =
  mNew :: "mgr_options \<Rightarrow> string option"
  mController :: "string option"
  mHealthz :: "string option"
  mReadyz :: "string option"

text \<open>The type assertions \<open>election.(bool)\<close> and \<open>electionNamespace.(string)\<close> panic on other types.\<close>

definition bool_setting :: "vval option \<Rightarrow> bool go" where
  "bool_setting v = (case v of None \<Rightarrow> Ret False | Some (VBool b) \<Rightarrow> Ret b | Some _ \<Rightarrow> Panic)"

definition string_setting :: "vval option \<Rightarrow> string go" where
  "string_setting v = (case v of None \<Rightarrow> Ret '''' | Some (VString s) \<Rightarrow> Ret s | Some _ \<Rightarrow> Panic)"

definition manager_options :: "string list \<Rightarrow> bool \<Rightarrow> string \<Rightarrow> mgr_options" where
  "manager_options nss election ns =
     \<lparr>moNamespaces = nss, moMetricsBindAddress = ''0'', moPort = 0, moHealthProbeBindAddress = ''0'',
      moLeaderElection = election, moLeaderElectionID = ''3deb8c7a.ksdns.io'',
      moLeaderElectionNamespace = ns\<rparr>"

definition first_error :: "string option list \<Rightarrow> string option" where
  "first_error es = fst (for_each (\<lambda>e s. (e, s)) es ())"

text \<open>
  \<open>NewManager\<close>: an error, or the options of the manager that \<open>d.mgr\<close> is set to.
\<close>

definition NewManager :: "mgr_lib \<Rightarrow> (string \<Rightarrow> vval option) \<Rightarrow> string list \<Rightarrow> (string + mgr_options) go" where
  "NewManager M viper nss =
     go_bind (bool_setting (viper ''enable-leader-election'')) (\<lambda>election.
     go_bind (string_setting (viper ''leader-election-namespace'')) (\<lambda>ns.
       let opts = manager_options nss election ns in
       case first_error [mNew M opts, mController M, mHealthz M, mReadyz M] of
         Some e \<Rightarrow> Ret (Inl e)
       | None \<Rightarrow> Ret (Inr opts)))"

subsection \<open>Callbacks\<close>

text \<open>
  The callbacks of \<open>setup\<close>: finding the two plugins it needs, starting and stopping the manager,
  stopping the zones, notifying the secondaries of every zone, doing so after a failed restart
  if there is a transfer plugin, and the first reload of a zone.  The last one captures the
  pointer of its own zone, but the variable of the loop, which all iterations share: when it
  runs, that is the last name.
\<close>

datatype callback =
  FindPlugins
| RunManager
| StopManager
| StopZones
| NotifyZones
| NotifyAfterFailure
| FirstReload "string option" string

datatype setup_error = ClientError string | InitError init_error | ManagerError string | PluginRequired string

text \<open>
  The server around the plugin: \<open>svPlugin\<close> is \<open>d\<close>, \<open>svMetrics\<close> says whether \<open>d.metrics\<close> is set,
  \<open>svRunning\<close> and \<open>svCancelled\<close> whether the manager was started and its context cancelled,
  \<open>svOnce\<close> lists the zones whose \<open>StartupOnce\<close> is used up and \<open>svReloads\<close> the calls of \<open>Reload\<close>.
\<close>

record ('z, 'c) server =
  svPlugin :: "('z, 'c) plugin"
  svManager :: mgr_options
  svMetrics :: bool
  svRunning :: bool
  svCancelled :: bool
  svOnce :: "string list"
  svReloads :: "string list"
  svOnStartup :: "callback list"
  svOnShutdown :: "callback list"
  svOnRestartFailed :: "callback list"

definition first_reloads :: "'z Zones \<Rightarrow> callback list" where
  "first_reloads zs =
     map (\<lambda>n. FirstReload (if ptr_at (Z zs) n = None then None else Some n) (last (Names zs))) (Names zs)"

text \<open>
  \<open>setup\<close>.  \<open>dial\<close> is the error of \<open>client.New\<close>; the zones and \<open>d.Zones\<close> are the same object.
\<close>

definition new_server :: "string list \<Rightarrow> 'z Zones \<Rightarrow> serials \<Rightarrow> 'c \<Rightarrow> mgr_options \<Rightarrow> ('z, 'c) server" where
  "new_server nss zs h c opts =
     \<lparr>svPlugin = \<lparr>dZones = zs, dNamespaces = nss, dTransfer = False, wSerials = h, wCluster = c, wTrace = []\<rparr>,
      svManager = opts, svMetrics = False, svRunning = False, svCancelled = False,
      svOnce = [], svReloads = [],
      svOnStartup = [FindPlugins, RunManager, NotifyZones] @ first_reloads zs,
      svOnShutdown = [StopManager, StopZones],
      svOnRestartFailed = [NotifyAfterFailure]\<rparr>"

definition plugin_setup ::
  "('z, 'e, 'c, 'm) plugin_lib_scheme \<Rightarrow> mgr_lib \<Rightarrow> (string \<Rightarrow> vval option) \<Rightarrow> string option \<Rightarrow>
   string list list \<Rightarrow> 'c \<Rightarrow> serials \<Rightarrow> (setup_error + ('z, 'c) server) go" where
  "plugin_setup L M viper dial lines c h =
     (case dial of
        Some e \<Rightarrow> Ret (Inl (ClientError e))
      | None \<Rightarrow>
          (case initialize L lines c h of
             (Panic, _, _) \<Rightarrow> Panic
           | (Ret (Inl e), _, _) \<Rightarrow> Ret (Inl (InitError e))
           | (Ret (Inr zs), nss, h') \<Rightarrow>
               (case NewManager M viper nss of
                  Panic \<Rightarrow> Panic
                | Ret (Inl e) \<Rightarrow> Ret (Inl (ManagerError e))
                | Ret (Inr opts) \<Rightarrow> Ret (Inr (new_server nss zs h' c opts)))))"

text \<open>
  One callback.  \<open>has\<close> says which plugins the server's configuration has.  An early return is
  the error of the callback, or a panic.  The goroutines of the notifies and of the manager
  are taken to run at once; \<open>Reload\<close>'s result is dropped.
\<close>

definition notify_all :: "('z, 'c) server \<Rightarrow> ('z, 'c) server" where
  "notify_all s = s\<lparr>svPlugin := emit (map ENotify (Names (dZones (svPlugin s)))) (svPlugin s)\<rparr>"

fun run_callback ::
  "(string \<Rightarrow> bool) \<Rightarrow> callback \<Rightarrow> ('z, 'c) server \<Rightarrow> setup_error go option \<times> ('z, 'c) server" where
  "run_callback has FindPlugins s =
     (if \<not> has ''prometheus'' then (Some (Ret (PluginRequired ''prometheus'')), s)
      else let s1 = s\<lparr>svMetrics := True\<rparr> in
        if \<not> has ''transfer'' then (Some (Ret (PluginRequired ''transfer'')), s1)
        else (None, s1\<lparr>svPlugin := (svPlugin s1)\<lparr>dTransfer := True\<rparr>\<rparr>))"
| "run_callback has RunManager s = (None, s\<lparr>svRunning := True\<rparr>)"
| "run_callback has StopManager s = (None, s\<lparr>svCancelled := True\<rparr>)"
| "run_callback has StopZones s = (None, s)"
| "run_callback has NotifyZones s = (None, notify_all s)"
| "run_callback has NotifyAfterFailure s = (None, if has ''transfer'' then notify_all s else s)"
| "run_callback has (FirstReload None n) s = (Some Panic, s)"
| "run_callback has (FirstReload (Some z) n) s =
     (if z \<in> set (svOnce s) then (None, s)
      else (None, s\<lparr>svOnce := svOnce s @ [z], svReloads := svReloads s @ [n]\<rparr>))"

definition run_callbacks ::
  "(string \<Rightarrow> bool) \<Rightarrow> callback list \<Rightarrow> ('z, 'c) server \<Rightarrow> setup_error go option \<times> ('z, 'c) server" where
  "run_callbacks has cbs s = for_each (run_callback has) cbs s"

definition start_server :: "(string \<Rightarrow> bool) \<Rightarrow> ('z, 'c) server \<Rightarrow> setup_error go option \<times> ('z, 'c) server" where
  "start_server has s = run_callbacks has (svOnStartup s) s"

definition stop_server :: "(string \<Rightarrow> bool) \<Rightarrow> ('z, 'c) server \<Rightarrow> setup_error go option \<times> ('z, 'c) server" where
  "stop_server has s = run_callbacks has (svOnShutdown s) s"

text \<open>The manager's controllers run while it is started and its context is not cancelled.\<close>

definition manager_runs :: "('z, 'c) server \<Rightarrow> bool" where
  "manager_runs s \<longleftrightarrow> svRunning s \<and> \<not> svCancelled s"

subsection \<open>Start-up and shutdown\<close>

lemma run_callbacks_append:
  "run_callbacks has (xs @ ys) s =
     (case run_callbacks has xs s of (Some r, s') \<Rightarrow> (Some r, s') | (None, s') \<Rightarrow> run_callbacks has ys s')"
  by (simp add: run_callbacks_def for_each_append split: prod.splits option.splits)

text \<open>The first reloads of distinct zones: each uses up its zone's \<open>Once\<close>, and reloads the last name.\<close>

lemma run_reloads:
  assumes "distinct ns" and "set ns \<inter> set (svOnce s) = {}"
  shows "run_callbacks has (map (\<lambda>n. FirstReload (Some n) l) ns) s =
    (None, s\<lparr>svOnce := svOnce s @ ns, svReloads := svReloads s @ replicate (length ns) l\<rparr>)"
  using assms
proof (induction ns arbitrary: s)
  case Nil
  then show ?case by (simp add: run_callbacks_def)
next
  case (Cons n ns)
  let ?s = "s\<lparr>svOnce := svOnce s @ [n], svReloads := svReloads s @ [l]\<rparr>"
  have "set ns \<inter> set (svOnce ?s) = {}" using Cons.prems by auto
  from Cons.IH [OF _ this] Cons.prems show ?case by (simp add: run_callbacks_def)
qed

text \<open>Run again, they do nothing: every \<open>Once\<close> is used up.\<close>

lemma rerun_reloads:
  "set ns \<subseteq> set (svOnce s) \<Longrightarrow> run_callbacks has (map (\<lambda>n. FirstReload (Some n) l) ns) s = (None, s)"
  by (induction ns) (simp_all add: run_callbacks_def)

lemma first_reloads_known:
  assumes "zones_ok origin zs"
  shows "first_reloads zs = map (\<lambda>n. FirstReload (Some n) (last (Names zs))) (Names zs)"
  unfolding first_reloads_def using known_pointers(1) [OF assms] by simp

text \<open>What a successful set-up registers.\<close>

lemma setup_success:
  assumes "plugin_setup L M viper dial lines c h = Ret (Inr s)"
  obtains zs nss h' opts where "initialize L lines c h = (Ret (Inr zs), nss, h')"
    and "NewManager M viper nss = Ret (Inr opts)" and "s = new_server nss zs h' c opts"
  using assms by (auto simp: plugin_setup_def split: option.splits prod.splits go.splits sum.splits)

text \<open>
  A setting of another type, such as a quoted \<open>true\<close> in the configuration file, panics.
\<close>

lemma wrong_setting_panics:
  assumes "viper ''enable-leader-election'' = Some (VString t)"
  shows "NewManager M viper nss = Panic"
  using assms by (simp add: NewManager_def bool_setting_def)

text \<open>Shutting down cancels the manager; starting again reloads no zone a second time.\<close>

lemma stop_after_start:
  "plugin_setup L M viper dial lines c h = Ret (Inr s) \<Longrightarrow> svOnShutdown s' = svOnShutdown s \<Longrightarrow>
   stop_server has s' = (None, s'\<lparr>svCancelled := True\<rparr>)"
  by (rule setup_success, assumption) (simp add: stop_server_def run_callbacks_def new_server_def)

subsection \<open>Properties\<close>

text \<open>
  C24: set-up and start-up give the serving plugin.  When the server has the prometheus and the
  transfer plugin, starting it after a successful set-up runs every callback without an
  error or a panic; after that the plugin is the one \<open>initialize\<close> built, with the
  transfer plugin found and the secondaries of every zone notified once, and the manager
  runs.  The first reload of every zone is called, but each time with the name of the last
  one, because the closures share the variable of the loop.
\<close>

theorem setup_then_startup:
  assumes "lib_ok L origin norm intree" and "plugin_setup L M viper dial lines c h = Ret (Inr s)"
    and "has ''prometheus''" and "has ''transfer''"
  shows "\<exists>zs nss h' s'. initialize L lines c h = (Ret (Inr zs), nss, h') \<and>
    start_server has s = (None, s') \<and>
    svPlugin s' = emit (map ENotify (Names zs)) (start_plugin nss zs h' c) \<and>
    svMetrics s' \<and> manager_runs s' \<and>
    svReloads s' = replicate (length (Names zs)) (last (Names zs))"
proof -
  obtain zs nss h' opts where i: "initialize L lines c h = (Ret (Inr zs), nss, h')"
    and s: "s = new_server nss zs h' c opts"
    by (rule setup_success [OF assms(2)])
  have "file_laws L origin norm intree" "alloc_laws L origin" using assms(1) by (auto simp: lib_ok_def)
  then have ok: "zones_ok origin zs" by (rule initialize_inv [OF _ _ i])
  then have dist: "distinct (Names zs)" by (simp add: zones_ok_def)
  let ?s1 = "s\<lparr>svMetrics := True, svRunning := True,
    svPlugin := emit (map ENotify (Names zs)) (start_plugin nss zs h' c)\<rparr>"
  have 1: "run_callbacks has [FindPlugins, RunManager, NotifyZones] s = (None, ?s1)"
    using assms(3,4) by (simp add: run_callbacks_def s new_server_def notify_all_def start_plugin_def emit_def)
  have "set (Names zs) \<inter> set (svOnce ?s1) = {}" by (simp add: s new_server_def)
  note 2 = run_reloads [OF dist this, of has "last (Names zs)"]
  have "svOnStartup s = [FindPlugins, RunManager, NotifyZones] @ first_reloads zs"
    by (simp add: s new_server_def)
  then have "start_server has s = (None, ?s1\<lparr>svOnce := svOnce ?s1 @ Names zs,
      svReloads := svReloads ?s1 @ replicate (length (Names zs)) (last (Names zs))\<rparr>)"
    unfolding start_server_def first_reloads_known [OF ok] using 2 by (simp add: run_callbacks_append 1 del: append.simps)
  with i show ?thesis by (auto simp: s new_server_def manager_runs_def)
qed

text \<open>
  Without the prometheus or the transfer plugin nothing starts.  The first callback fails with
  an error that names the missing plugin, and the callbacks after it do not run: the manager is
  not started, no secondary is notified, and no zone is reloaded.
\<close>

lemma startup_needs_plugins:
  assumes "plugin_setup L M viper dial lines c h = Ret (Inr s)"
    and "\<not> has ''prometheus'' \<or> \<not> has ''transfer''"
  shows "\<exists>p s'. start_server has s = (Some (Ret (PluginRequired p)), s') \<and> \<not> has p \<and>
    svPlugin s' = svPlugin s \<and> \<not> manager_runs s' \<and> svReloads s' = []"
proof -
  obtain zs nss h' opts where s: "s = new_server nss zs h' c opts"
    by (rule setup_success [OF assms(1)])
  obtain cbs where cbs: "svOnStartup s = FindPlugins # cbs" by (simp add: s new_server_def)
  show ?thesis
    using assms(2) unfolding start_server_def cbs run_callbacks_def
    by (cases "has ''prometheus''") (auto simp: s new_server_def manager_runs_def Let_def)
qed

subsection \<open>A small server\<close>

definition quiet_mgr :: mgr_lib where
  "quiet_mgr = \<lparr>mNew = (\<lambda>opts. None), mController = None, mHealthz = None, mReadyz = None\<rparr>"

lemma quiet_NewManager: "NewManager quiet_mgr Map.empty nss = Ret (Inr (manager_options nss False ''''))"
  by (simp add: NewManager_def bool_setting_def string_setting_def first_error_def quiet_mgr_def Let_def)

lemma sample_setup:
  "\<exists>s. plugin_setup sample quiet_mgr Map.empty None [[''d'']] [ex_obj] Map.empty = Ret (Inr s)"
proof -
  have "\<exists>zs h'. initialize sample [[''d'']] [ex_obj] Map.empty = (Ret (Inr zs), [''d''], h') \<and>
      zones_ok szOrigin zs \<and> soas_ok sample zs h'"
    by (rule initialize_safe [OF sample_file_laws sample_alloc_laws]) (auto simp: s_list_def ex_obj_def)
  then show ?thesis by (auto simp: plugin_setup_def quiet_NewManager)
qed

theorem setup_then_startup_witness:
  "\<exists>s zs nss h' s'. plugin_setup sample quiet_mgr Map.empty None [[''d'']] [ex_obj] Map.empty = Ret (Inr s) \<and>
     initialize sample [[''d'']] [ex_obj] Map.empty = (Ret (Inr zs), nss, h') \<and>
     start_server (\<lambda>p. True) s = (None, s') \<and> manager_runs s' \<and>
     svPlugin s' = emit (map ENotify (Names zs)) (start_plugin nss zs h' [ex_obj])"
proof -
  obtain s where s: "plugin_setup sample quiet_mgr Map.empty None [[''d'']] [ex_obj] Map.empty = Ret (Inr s)"
    using sample_setup by blast
  have lib: "lib_ok sample szOrigin (\<lambda>r. r) s_intree"
    by (simp add: lib_ok_def sample_file_laws sample_alloc_laws sample_match_laws)
  from setup_then_startup [OF lib s, of "\<lambda>p. True"] s show ?thesis by blast
qed

lemma startup_needs_plugins_witness:
  "\<exists>s p s'. plugin_setup sample quiet_mgr Map.empty None [[''d'']] [ex_obj] Map.empty = Ret (Inr s) \<and>
     start_server (\<lambda>p. p = ''prometheus'') s = (Some (Ret (PluginRequired p)), s') \<and> p \<noteq> ''prometheus'' \<and>
     \<not> manager_runs s'"
proof -
  obtain s where s: "plugin_setup sample quiet_mgr Map.empty None [[''d'']] [ex_obj] Map.empty = Ret (Inr s)"
    using sample_setup by blast
  from startup_needs_plugins [OF s, of "\<lambda>p. p = ''prometheus''"] s show ?thesis by auto
qed

end
