(* ===== verification/ZupdCommand.thy ===== *)
theory ZupdCommand
  imports KsdnsObjects Setup
begin

text \<open>
  The command line of the update server (\<open>src/cmd/zupd/cmd/run.go\<close>): flags, the loaders of the
  Corefile, the version, the order of the directives, and the run of the server; and the main
  function of the operator (\<open>src/main.go\<close>).  The file system, caddy's loader and its start are
  parameters; \<open>filepath.Clean\<close> of the standard library is modelled.
\<close>

subsection \<open>Flags and directives\<close>

record run_flags =
  fConf :: string
  fPlugins :: bool
  fPidFile :: string
  fVersion :: bool
  fQuiet :: bool
  fEnableLeaderElection :: bool
  fLeaderElectionNamespace :: string

definition default_flags :: run_flags where
  "default_flags = \<lparr>fConf = '''', fPlugins = False, fPidFile = '''', fVersion = False, fQuiet = True,
     fEnableLeaderElection = False, fLeaderElectionNamespace = ''default''\<rparr>"

definition flag_names :: "string list" where
  "flag_names = [''conf'', ''plugins'', ''pidfile'', ''version'', ''quiet'', ''enable-leader-election'',
     ''leader-election-namespace'']"

definition Directives :: "string list" where
  "Directives =
     [''metadata'', ''geoip'', ''cancel'', ''tls'', ''reload'', ''nsid'', ''bufsize'', ''root'', ''bind'',
      ''debug'', ''trace'', ''ready'', ''health'', ''pprof'', ''prometheus'', ''errors'', ''log'',
      ''dnstap'', ''local'', ''dns64'', ''acl'', ''any'', ''chaos'', ''loadbalance'', ''tsig'', ''cache'',
      ''rewrite'', ''header'', ''dnssec'', ''autopath'', ''minimal'', ''template'', ''transfer'', ''hosts'',
      ''route53'', ''azure'', ''clouddns'', ''k8s_external'', ''kubernetes'', ''file'', ''dynamicupdate'',
      ''auto'', ''secondary'', ''etcd'', ''loop'', ''forward'', ''grpc'', ''erratic'', ''whoami'', ''on'',
      ''sign'', ''view'', ''kubeapi'']"

text \<open>
  The packages of plugins linked into the server (\<open>src/pkg/zupd/core/plugin/zplugin.go\<close>), by the last
  part of their paths, and the directive each registers: its own name, but for two of them.
\<close>

definition linked_plugins :: "string list" where
  "linked_plugins =
     [''onevent'', ''acl'', ''any'', ''auto'', ''autopath'', ''azure'', ''bind'', ''bufsize'', ''cache'',
      ''cancel'', ''chaos'', ''clouddns'', ''debug'', ''dns64'', ''dnssec'', ''dnstap'', ''erratic'',
      ''errors'', ''etcd'', ''file'', ''forward'', ''geoip'', ''grpc'', ''header'', ''health'', ''hosts'',
      ''k8s_external'', ''kubernetes'', ''loadbalance'', ''local'', ''log'', ''loop'', ''metadata'',
      ''metrics'', ''minimal'', ''nsid'', ''pprof'', ''ready'', ''reload'', ''rewrite'', ''root'',
      ''route53'', ''secondary'', ''sign'', ''template'', ''tls'', ''trace'', ''transfer'', ''tsig'',
      ''view'', ''whoami'', ''dynamicupdate'', ''kubeapi'']"

definition registered_directive :: "string \<Rightarrow> string" where
  "registered_directive p =
     (if p = ''metrics'' then ''prometheus'' else if p = ''onevent'' then ''on'' else p)"

text \<open>Every directive has its place in the order exactly once, and its plugin is linked.\<close>

lemma Directives_linked:
  "set Directives = registered_directive ` set linked_plugins" and "distinct Directives"
  unfolding Directives_def linked_plugins_def by (simp add: registered_directive_def insert_commute, simp)

subsection \<open>The version\<close>

text \<open>\<open>strings.TrimPrefix\<close>.\<close>

definition trim_prefix :: "string \<Rightarrow> string \<Rightarrow> string" where
  "trim_prefix s p = (if take (length p) s = p then drop (length p) s else s)"

definition CoreVersion :: string where "CoreVersion = ''1.10.0''"
definition coreName :: string where "coreName = ''CoreDNS''"

text \<open>The variables set by the linker.\<close>

record build_info =
  buildDate :: string
  gitTag :: string
  gitNearestTag :: string
  gitShortStat :: string
  gitFilesModified :: string
  GitCommit :: string

text \<open>\<open>setVersion\<close>: the values of \<open>appVersion\<close> and \<open>devBuild\<close>.\<close>

definition setVersion :: "build_info \<Rightarrow> string \<times> bool" where
  "setVersion b =
     (let devBuild = (gitTag b = '''' \<or> gitShortStat b \<noteq> '''');
          appVersion = ''(untracked dev build)'' in
      if gitNearestTag b \<noteq> '''' \<or> gitTag b \<noteq> '''' then
        if devBuild \<and> gitNearestTag b \<noteq> '''' then
          (trim_prefix (gitNearestTag b) ''v'' @ '' (+'' @ GitCommit b @ '' '' @ buildDate b @ '')'', devBuild)
        else if gitTag b \<noteq> '''' then (trim_prefix (gitTag b) ''v'', devBuild)
        else (appVersion, devBuild)
      else (appVersion, devBuild))"

definition versionString :: "string \<Rightarrow> string \<Rightarrow> string" where
  "versionString app ver = app @ ''-'' @ ver @ [nl]"

record go_runtime =
  GOOS :: string
  GOARCH :: string
  goVersion :: string

definition releaseString :: "go_runtime \<Rightarrow> build_info \<Rightarrow> string" where
  "releaseString g b = GOOS g @ ''/'' @ GOARCH g @ '', '' @ goVersion g @ '', '' @ GitCommit b @ [nl]"

text \<open>\<open>showVersion\<close>: what it prints.  \<open>caddy.AppName\<close> and \<open>caddy.AppVersion\<close> are the two constants.\<close>

definition showVersion :: "go_runtime \<Rightarrow> build_info \<Rightarrow> string" where
  "showVersion g b =
     versionString coreName CoreVersion @ releaseString g b @
     (if snd (setVersion b) \<and> gitShortStat b \<noteq> ''''
      then gitShortStat b @ [nl] @ gitFilesModified b @ [nl] else '''')"

subsection \<open>Loading the Corefile\<close>

text \<open>\<open>filepath.Clean\<close> on a path with slashes.\<close>

fun split_on :: "'a \<Rightarrow> 'a list \<Rightarrow> 'a list list" where
  "split_on x [] = [[]]"
| "split_on x (y # ys) =
     (if y = x then [] # split_on x ys
      else case split_on x ys of [] \<Rightarrow> [[y]] | w # ws \<Rightarrow> (y # w) # ws)"

fun join_with :: "'a list \<Rightarrow> 'a list list \<Rightarrow> 'a list" where
  "join_with sep [] = []"
| "join_with sep [w] = w"
| "join_with sep (w # ws) = w @ sep @ join_with sep ws"

text \<open>One component, over the components kept so far, the last one first.\<close>

definition clean_step :: "bool \<Rightarrow> string \<Rightarrow> string list \<Rightarrow> string list" where
  "clean_step rooted w acc =
     (if w = '''' \<or> w = ''.'' then acc
      else if w = ''..'' then
        (case acc of
           [] \<Rightarrow> if rooted then [] else [w]
         | v # vs \<Rightarrow> if v = ''..'' then w # acc else vs)
      else w # acc)"

definition Clean :: "string \<Rightarrow> string" where
  "Clean path =
     (let rooted = (path \<noteq> '''' \<and> hd path = CHR ''/'');
          ws = rev (fold (clean_step rooted) (split_on (CHR ''/'') path) []);
          out = (if rooted then ''/'' else '''') @ join_with ''/'' ws
      in if out = '''' then ''.'' else out)"

datatype file_error = NotExist | FileError string

record caddy_input =
  ciContents :: string
  ciFilepath :: string
  ciServerTypeName :: string

text \<open>
  The world of the command: reading a file, caddy's reading of the Corefile from the standard
  input, the choice of the input among what the loaders return (\<open>caddy.LoadCaddyfile\<close>), and the
  error of starting the server.
\<close>

record cmd_lib =
  cReadFile :: "string \<Rightarrow> file_error + string"
  cFromPipe :: "string \<Rightarrow> file_error + caddy_input option"
  cLoad :: "file_error + caddy_input option \<Rightarrow> file_error + caddy_input option \<Rightarrow> string + caddy_input"
  cStart :: "caddy_input \<Rightarrow> string option"
  cPlugins :: string

definition confLoader :: "cmd_lib \<Rightarrow> run_flags \<Rightarrow> string \<Rightarrow> file_error + caddy_input option" where
  "confLoader W f serverType =
     (if fConf f = '''' then Inr None
      else if fConf f = ''stdin'' then cFromPipe W serverType
      else case cReadFile W (Clean (fConf f)) of
        Inl e \<Rightarrow> Inl e
      | Inr contents \<Rightarrow>
          Inr (Some \<lparr>ciContents = contents, ciFilepath = fConf f, ciServerTypeName = serverType\<rparr>))"

definition DefaultConfigFile :: string where
  "DefaultConfigFile = ''Corefile''"

definition defaultLoader :: "cmd_lib \<Rightarrow> string \<Rightarrow> file_error + caddy_input option" where
  "defaultLoader W serverType =
     (case cReadFile W DefaultConfigFile of
        Inl e \<Rightarrow> (if e = NotExist then Inr None else Inl e)
      | Inr contents \<Rightarrow>
          Inr (Some \<lparr>ciContents = contents, ciFilepath = DefaultConfigFile, ciServerTypeName = serverType\<rparr>))"

subsection \<open>Running the server\<close>

text \<open>How \<open>Run\<close> ends: with an exit code, or waiting for the server; and what it has printed.\<close>

datatype run_end = Exit nat | Serving caddy_input

definition Run ::
  "cmd_lib \<Rightarrow> go_runtime \<Rightarrow> build_info \<Rightarrow> run_flags \<Rightarrow> run_end \<times> string list" where
  "Run W g b f =
     (if fVersion f then (Exit 0, [showVersion g b])
      else if fPlugins f then (Exit 0, [cPlugins W @ [nl]])
      else case cLoad W (confLoader W f ''dns'') (defaultLoader W ''dns'') of
        Inl e \<Rightarrow> (Exit 1, [e])
      | Inr corefile \<Rightarrow>
          (case cStart W corefile of
             Some e \<Rightarrow> (Exit 1, [e])
           | None \<Rightarrow> (Serving corefile, if \<not> fQuiet f then [showVersion g b] else [])))"

subsection \<open>The root command\<close>

text \<open>
  \<open>initConfig\<close> (\<open>src/cmd/zupd/cmd/root.go\<close>): where viper looks for its settings.  \<open>read\<close> is
  \<open>viper.ReadInConfig\<close> with the file it used; its error is ignored and leaves the settings
  \<open>unset\<close>.  An error of \<open>os.UserHomeDir\<close> ends the program (\<open>cobra.CheckErr\<close>).
\<close>

datatype config_place = ConfigFile string | ConfigSearch string string string

definition config_place_of :: "string \<Rightarrow> string + string \<Rightarrow> string + config_place" where
  "config_place_of cfgFile home =
     (if cfgFile \<noteq> '''' then Inr (ConfigFile cfgFile)
      else case home of Inl e \<Rightarrow> Inl e | Inr h \<Rightarrow> Inr (ConfigSearch h ''yaml'' ''.ksdns''))"

definition initConfig ::
  "(config_place \<Rightarrow> string + 'v \<times> string) \<Rightarrow> 'v \<Rightarrow> string \<Rightarrow> string + string \<Rightarrow> string + 'v \<times> string list" where
  "initConfig read unset cfgFile home =
     (case config_place_of cfgFile home of
        Inl e \<Rightarrow> Inl e
      | Inr place \<Rightarrow>
          (case read place of
             Inl _ \<Rightarrow> Inr (unset, [])
           | Inr (v, used) \<Rightarrow> Inr (v, [''Using config file: '' @ used @ [nl]])))"

text \<open>
  \<open>Execute\<close>, called by the main function: \<open>parsed\<close> is cobra's reading of the command line, an
  error, the help text where no command is given, or the flags of \<open>run\<close> with that of \<open>--config\<close>.
  The initialisation runs before the command.
\<close>

datatype zupd_args = ArgsError string | ArgsHelp string | ArgsRun string run_flags

definition Execute ::
  "(config_place \<Rightarrow> string + 'v \<times> string) \<Rightarrow> 'v \<Rightarrow> string + string \<Rightarrow> ('v \<Rightarrow> cmd_lib) \<Rightarrow> go_runtime \<Rightarrow>
   build_info \<Rightarrow> zupd_args \<Rightarrow> run_end \<times> string list" where
  "Execute read unset home W g b parsed =
     (case parsed of
        ArgsError e \<Rightarrow> (Exit 1, [e])
      | ArgsHelp t \<Rightarrow> (Exit 0, [t])
      | ArgsRun cfgFile f \<Rightarrow>
          (case initConfig read unset cfgFile home of
             Inl e \<Rightarrow> (Exit 1, [e])
           | Inr (v, out) \<Rightarrow> (case Run (W v) g b f of (end, out') \<Rightarrow> (end, out @ out'))))"

text \<open>
  With \<open>--config\<close> the home directory does not matter; a configuration that cannot be read is as
  none; without a home directory and without the flag nothing runs.
\<close>

lemma initConfig_flag: "cfgFile \<noteq> '''' \<Longrightarrow> initConfig read unset cfgFile home = initConfig read unset cfgFile home'"
  by (simp add: initConfig_def config_place_of_def)

lemma initConfig_unread:
  "config_place_of cfgFile home = Inr place \<Longrightarrow> read place = Inl e \<Longrightarrow>
   initConfig read unset cfgFile home = Inr (unset, [])"
  by (simp add: initConfig_def)

lemma Execute_no_home:
  "Execute read unset (Inl e) W g b (ArgsRun '''' f) = (Exit 1, [e])"
  by (simp add: Execute_def initConfig_def config_place_of_def)

text \<open>A server that serves was started with the settings of the initialisation.\<close>

lemma Execute_serves:
  "fst (Execute read unset home W g b (ArgsRun cfgFile f)) = Serving i \<Longrightarrow>
   \<exists>v out. initConfig read unset cfgFile home = Inr (v, out) \<and> fst (Run (W v) g b f) = Serving i"
  by (auto simp: Execute_def split: sum.splits prod.splits)

subsection \<open>The directives of a Corefile\<close>

text \<open>
  The directives of a server block are the first words of the lines indented by two spaces.
\<close>

definition is_lower :: "char \<Rightarrow> bool" where
  "is_lower c \<longleftrightarrow> 97 \<le> (of_char c :: nat) \<and> (of_char c :: nat) \<le> 122"

fun directive_of :: "string \<Rightarrow> string list" where
  "directive_of (a # b # c # cs) =
     (if a = CHR '' '' \<and> b = CHR '' '' \<and> is_lower c then [takeWhile (\<lambda>x. x \<noteq> CHR '' '') (c # cs)] else [])"
| "directive_of _ = []"

definition directives_of :: "string \<Rightarrow> string list" where
  "directives_of txt = concat (map directive_of (split_on nl txt))"

lemma split_on_not_Nil: "split_on x ys \<noteq> []"
  by (induction ys) (auto split: list.splits)

lemma split_on_line: "x \<notin> set l \<Longrightarrow> split_on x (l @ x # rest) = l # split_on x rest"
  using split_on_not_Nil [of x rest] by (induction l) (auto split: list.splits)

lemma directives_Nil [simp]: "directives_of '''' = []"
  by (simp add: directives_of_def)

lemma directives_line: "nl \<notin> set l \<Longrightarrow> directives_of (l @ nl # rest) = directive_of l @ directives_of rest"
  by (simp add: directives_of_def split_on_line)

lemma directives_lines:
  "list_all (\<lambda>l. nl \<notin> set l) ls \<Longrightarrow>
   directives_of (text_lines ls @ rest) = concat (map directive_of ls) @ directives_of rest"
proof (induction ls)
  case Nil
  then show ?case by (simp add: text_lines_def)
next
  case (Cons l ls)
  then show ?case using directives_line [of l "text_lines ls @ rest"] by (simp add: text_lines_def)
qed

text \<open>A name without spaces and newlines, as the names and addresses of Kubernetes are.\<close>

definition plain :: "string \<Rightarrow> bool" where
  "plain s \<longleftrightarrow> nl \<notin> set s \<and> CHR '' '' \<notin> set s"

lemma nl_other [simp]: "nl \<noteq> CHR '' ''" "nl \<noteq> tab" "nl \<noteq> CHR '':''"
  by (simp_all add: nl_def tab_def)

lemma directive_of_other: "a \<noteq> CHR '' '' \<Longrightarrow> directive_of (a # l) = []"
  by (cases "a # l" rule: directive_of.cases) auto

lemma zones_line:
  assumes "list_all plain zones"
  shows "nl \<notin> set (concat (map (\<lambda>z. z @ '':1053'') zones) @ '' {'')"
    and "directive_of (concat (map (\<lambda>z. z @ '':1053'') zones) @ '' {'') = []"
proof -
  let ?h = "concat (map (\<lambda>z. z @ '':1053'') zones)"
  have h: "nl \<notin> set ?h" "CHR '' '' \<notin> set ?h"
    using assms by (auto simp: list_all_iff plain_def nl_def)
  then show "nl \<notin> set (?h @ '' {'')" by (simp add: nl_def)
  show "directive_of (?h @ '' {'') = []"
  proof (cases "?h")
    case Nil
    then show ?thesis by simp
  next
    case (Cons a as)
    then have "a \<noteq> CHR '' ''" using h(2) by auto
    with Cons show ?thesis by (simp add: directive_of_other)
  qed
qed

lemma head_lines:
  assumes "list_all plain zones"
  shows "list_all (\<lambda>l. nl \<notin> set l) (corefile_head zones False)"
    and "concat (map directive_of (corefile_head zones False)) =
      [''reload'', ''ready'', ''health'', ''prometheus'', ''tsig'']"
  using zones_line [OF assms] by (simp_all add: corefile_head_def nl_def tab_def is_lower_def)

lemma coredns_directives:
  assumes "list_all plain zones" and "list_all plain ips"
  shows "directives_of (renderCoreDNSCorefile zones ips False) =
    [''reload'', ''ready'', ''health'', ''prometheus'', ''tsig'', ''secondary'']"
proof -
  have ips: "nl \<notin> set (concat (map (\<lambda>a. a @ '':1053 '') ips))"
    using assms(2) by (auto simp: list_all_iff plain_def nl_def)
  let ?t = "[''  secondary {'', [tab] @ ''transfer from '' @ concat (map (\<lambda>a. a @ '':1053 '') ips), ''  }'', ''}'']"
  have t: "list_all (\<lambda>l. nl \<notin> set l) ?t" using ips by (simp add: nl_def tab_def)
  have d: "concat (map directive_of ?t) = [''secondary'']" by (simp add: is_lower_def tab_def)
  have "list_all (\<lambda>l. nl \<notin> set l) (corefile_head zones False @ ?t)"
    using head_lines(1) [OF assms(1)] t by simp
  from directives_lines [OF this, of "''''"] show ?thesis
    using head_lines(2) [OF assms(1)] d by (simp add: renderCoreDNSCorefile_def del: directive_of.simps)
qed

text \<open>The commented lines of the transfer block hold no directive.\<close>

lemma transfer_lines:
  assumes "list_all plain ips"
  shows "directives_of (''    #'' @ concat (map (\<lambda>a. ''to '' @ a @ [nl] @ ''    #'') ips) @ nl # rest) = directives_of rest"
  using assms
proof (induction ips)
  case Nil
  then show ?case using directives_line [of "''    #''" rest] by (simp add: nl_def is_lower_def)
next
  case (Cons a ips)
  then have "nl \<notin> set (''    #to '' @ a)" by (simp add: plain_def nl_def)
  from directives_line [OF this] Cons show ?case by (simp add: is_lower_def)
qed

lemma zupd_directives:
  assumes "list_all plain zones" and "list_all plain ips" and "plain ns"
  shows "directives_of (renderZupdDNSCorefile zones ips ns False) =
    [''reload'', ''ready'', ''health'', ''prometheus'', ''tsig'', ''dynamicupdate'', ''transfer'']"
proof -
  let ?t = "[''  dynamicupdate '' @ ns, ''  transfer {'', ''    to *'']"
  let ?c = "''    #'' @ concat (map (\<lambda>a. ''to '' @ a @ [nl] @ ''    #'') ips)"
  have t: "list_all (\<lambda>l. nl \<notin> set l) (corefile_head zones False @ ?t)"
    using head_lines(1) [OF assms(1)] assms(3) by (simp add: nl_def plain_def)
  have d: "concat (map directive_of ?t) = [''dynamicupdate'', ''transfer'']"
    by (simp add: is_lower_def takeWhile_append)
  have e: "directives_of (text_lines [''  }'', ''}'']) = []"
    using directives_lines [of "[''  }'', ''}'']" "''''"] by (simp add: nl_def is_lower_def)
  have "renderZupdDNSCorefile zones ips ns False =
      text_lines (corefile_head zones False @ ?t) @ ?c @ nl # text_lines [''  }'', ''}'']"
    by (simp add: renderZupdDNSCorefile_def text_lines_def)
  then show ?thesis
    using directives_lines [OF t] transfer_lines [OF assms(2)] e head_lines(2) [OF assms(1)] d
    by (simp del: directive_of.simps)
qed

definition comes_before :: "string \<Rightarrow> string \<Rightarrow> string list \<Rightarrow> bool" where
  "comes_before x y ds \<longleftrightarrow> (case (position x ds, position y ds) of (Some i, Some j) \<Rightarrow> i < j | _ \<Rightarrow> False)"

lemma Directives_facts:
  "set [''reload'', ''ready'', ''health'', ''prometheus'', ''tsig'', ''secondary'', ''dynamicupdate'', ''transfer'']
     \<subseteq> set Directives"
  "comes_before ''tsig'' ''dynamicupdate'' Directives"
  by (simp_all add: Directives_def comes_before_def)

lemma Clean_corefile: "Clean ''/etc/coredns/config/Corefile'' = ''/etc/coredns/config/Corefile''"
  by (simp add: Clean_def clean_step_def Let_def)

text \<open>The choice of \<open>caddy.LoadCaddyfile\<close>: what a loader returns comes before the default.\<close>

definition load_law :: "cmd_lib \<Rightarrow> bool" where
  "load_law W \<longleftrightarrow> (\<forall>i d. cLoad W (Inr (Some i)) d = Inr i)"

lemma Run_conf:
  assumes "\<not> fVersion f" and "\<not> fPlugins f" and "fConf f \<noteq> ''''" and "fConf f \<noteq> ''stdin''"
    and "cReadFile W (Clean (fConf f)) = Inr txt" and "load_law W"
  shows "Run W g b f =
    (let i = \<lparr>ciContents = txt, ciFilepath = fConf f, ciServerTypeName = ''dns''\<rparr> in
     case cStart W i of
       Some e \<Rightarrow> (Exit 1, [e])
     | None \<Rightarrow> (Serving i, if \<not> fQuiet f then [showVersion g b] else []))"
  using assms by (simp add: Run_def confLoader_def load_law_def Let_def)

text \<open>Asking for the version or the plugins starts nothing, and exits without an error.\<close>

lemma Run_info: "fVersion f \<or> fPlugins f \<Longrightarrow> fst (Run W g b f) = Exit 0"
  by (auto simp: Run_def)

subsection \<open>Properties\<close>

text \<open>
  C40: the update server runs the Corefile the operator writes for it.  A container of its
  deployment, which finds the text of the config map under the mounted path, is started
  with a \<open>--conf\<close> flag that makes \<open>Run\<close> serve exactly this text; for plain names every directive
  of the text is one the server orders and whose plugin is linked, the plugin, with the prometheus and the transfer plugin
  it requires, is among them, and TSIG is checked before an update reaches the plugin.
\<close>

theorem server_runs_operator_corefile:
  assumes "dep_spec (zupdDeployment k) = Some d" and "c \<in> set (dpContainers d)"
    and "flag_value ''--conf'' (cnArgs c) = Some (fConf f)"
    and "\<not> fVersion f" and "\<not> fPlugins f" and "fQuiet f"
    and "cReadFile W ''/etc/coredns/config/Corefile'' = Inr (renderZupdDNSCorefile zones ips (ks_ns k) False)"
    and "load_law W" and "\<forall>i. cStart W i = None"
    and "list_all plain zones" and "list_all plain ips" and "plain (ks_ns k)"
  shows "\<exists>i. Run W g b f = (Serving i, []) \<and> ciContents i = renderZupdDNSCorefile zones ips (ks_ns k) False \<and>
    set (directives_of (ciContents i)) \<subseteq> set Directives \<inter> registered_directive ` set linked_plugins \<and>
    {''dynamicupdate'', ''prometheus'', ''transfer'', ''tsig''} \<subseteq> set (directives_of (ciContents i)) \<and>
    comes_before ''tsig'' ''dynamicupdate'' Directives"
proof -
  have "list_all (\<lambda>c. flag_value ''--conf'' (cnArgs c) = Some (''/etc/coredns/config'' @ ''/Corefile'')) (dpContainers d)"
    using zupd_dep [of k] assms(1) by (auto simp: reads_from_def list_all_iff)
  then have conf: "fConf f = ''/etc/coredns/config/Corefile''" using assms(2,3) by (auto simp: list_all_iff)
  have "Run W g b f = (Serving \<lparr>ciContents = renderZupdDNSCorefile zones ips (ks_ns k) False,
      ciFilepath = fConf f, ciServerTypeName = ''dns''\<rparr>, [])"
    using Run_conf [of f W _ g b] assms(4-9) by (simp add: conf Clean_corefile)
  moreover note zupd_directives [OF assms(10-12)]
  ultimately show ?thesis using Directives_facts Directives_linked(1) by auto
qed

definition quiet_cmd :: "string \<Rightarrow> cmd_lib" where
  "quiet_cmd txt = \<lparr>cReadFile = (\<lambda>p. if p = ''/etc/coredns/config/Corefile'' then Inr txt else Inl NotExist),
     cFromPipe = (\<lambda>t. Inr None),
     cLoad = (\<lambda>a d. case a of Inr (Some i) \<Rightarrow> Inr i | _ \<Rightarrow>
       (case d of Inr (Some i) \<Rightarrow> Inr i | _ \<Rightarrow> Inl ''no input'')),
     cStart = (\<lambda>i. None), cPlugins = ''''\<rparr>"

definition ex_runtime :: go_runtime where
  "ex_runtime = \<lparr>GOOS = ''linux'', GOARCH = ''amd64'', goVersion = ''go1.19''\<rparr>"

definition ex_build :: build_info where
  "ex_build = \<lparr>buildDate = '''', gitTag = '''', gitNearestTag = '''', gitShortStat = '''',
     gitFilesModified = '''', GitCommit = ''a6d2d7b5''\<rparr>"

theorem server_runs_operator_corefile_witness:
  "\<exists>i. Run (quiet_cmd (renderZupdDNSCorefile [''a.org''] [''10.0.0.1''] ''d'' False)) ex_runtime ex_build
      (default_flags\<lparr>fConf := ''/etc/coredns/config/Corefile''\<rparr>) = (Serving i, []) \<and>
    ''dynamicupdate'' \<in> set (directives_of (ciContents i))"
proof -
  let ?txt = "renderZupdDNSCorefile [''a.org''] [''10.0.0.1''] (ks_ns store_ksdns) False"
  let ?f = "default_flags\<lparr>fConf := ''/etc/coredns/config/Corefile''\<rparr>"
  obtain d where d: "dep_spec (zupdDeployment store_ksdns) = Some d" "deployment_ok d"
    "reads_from d (zupdName store_ksdns) (corednsName store_ksdns)"
    using zupd_dep [of store_ksdns] by blast
  obtain c where c: "c \<in> set (dpContainers d)" using d(2) by (cases "dpContainers d") (auto simp: deployment_ok_def)
  have conf: "flag_value ''--conf'' (cnArgs c) = Some (fConf ?f)"
    using d(3) c by (auto simp: reads_from_def list_all_iff)
  have f: "\<not> fVersion ?f" "\<not> fPlugins ?f" "fQuiet ?f" by (simp_all add: default_flags_def)
  have W: "cReadFile (quiet_cmd ?txt) ''/etc/coredns/config/Corefile'' = Inr ?txt" "load_law (quiet_cmd ?txt)"
    "\<forall>i. cStart (quiet_cmd ?txt) i = None"
    by (simp_all add: quiet_cmd_def load_law_def)
  have p: "list_all plain [''a.org'']" "list_all plain [''10.0.0.1'']" "plain (ks_ns store_ksdns)"
    by (simp_all add: plain_def nl_def)
  from server_runs_operator_corefile [OF d(1) c conf f W p, of ex_runtime ex_build] show ?thesis by auto
qed

subsection \<open>The version of a release\<close>

text \<open>
  A build at a tag without changes is no development build and is named by its tag; any other
  build is one.
\<close>

lemma setVersion_release:
  "gitTag b = ''v'' @ t \<Longrightarrow> gitShortStat b = '''' \<Longrightarrow> setVersion b = (t, False)"
  by (simp add: setVersion_def trim_prefix_def)

lemma setVersion_dev: "gitTag b = '''' \<or> gitShortStat b \<noteq> '''' \<Longrightarrow> snd (setVersion b)"
  by (auto simp: setVersion_def Let_def)

text \<open>
  The version that is shown does not depend on it: it is the constant of CoreDNS.
\<close>

lemma showVersion_constant: "\<exists>rest. showVersion g b = ''CoreDNS-1.10.0'' @ [nl] @ rest"
  by (simp add: showVersion_def versionString_def coreName_def CoreVersion_def)

subsection \<open>The main function of the operator\<close>

record main_flags =
  mfMetricsAddr :: string
  mfLeaderElection :: bool
  mfProbeAddr :: string

definition default_main_flags :: main_flags where
  "default_main_flags = \<lparr>mfMetricsAddr = '':8080'', mfLeaderElection = False, mfProbeAddr = '':8081''\<rparr>"

definition operator_options :: "main_flags \<Rightarrow> mgr_options" where
  "operator_options f =
     \<lparr>moNamespaces = [], moMetricsBindAddress = mfMetricsAddr f, moPort = 9443,
      moHealthProbeBindAddress = mfProbeAddr f, moLeaderElection = mfLeaderElection f,
      moLeaderElectionID = ''3deb8c7a.ksdns.io'', moLeaderElectionNamespace = ''''\<rparr>"

text \<open>
  \<open>main\<close>: the manager, the controller, the two checks, then the manager runs until it ends, with
  the error \<open>run\<close>; the first error exits with code 1.  The result is the exit code and whether
  the manager was started.
\<close>

definition operator_main :: "mgr_lib \<Rightarrow> string option \<Rightarrow> main_flags \<Rightarrow> nat \<times> bool" where
  "operator_main M run f =
     (case first_error [mNew M (operator_options f), mController M, mHealthz M, mReadyz M] of
        Some e \<Rightarrow> (1, False)
      | None \<Rightarrow> (case run of Some e \<Rightarrow> (1, True) | None \<Rightarrow> (0, True)))"

lemma first_error_None: "first_error es = None \<longleftrightarrow> list_all (\<lambda>e. e = None) es"
  unfolding first_error_def by (induction es) (auto split: option.splits)

lemma operator_main_starts:
  "snd (operator_main M run f) \<longleftrightarrow>
     list_all (\<lambda>e. e = None) [mNew M (operator_options f), mController M, mHealthz M, mReadyz M]"
  unfolding operator_main_def by (auto simp: first_error_None [symmetric] split: option.splits)

text \<open>The operator and every update server contend for a lease of the same name.\<close>

lemma same_lease: "moLeaderElectionID (operator_options f) = moLeaderElectionID (manager_options nss b ns)"
  by (simp add: operator_options_def manager_options_def)

end
