(* ===== verification/OperatorFlags.thy ===== *)
theory OperatorFlags
  imports ZupdCommand
begin

text \<open>
  The command line of the operator (\<open>src/main.go\<close>): Go's \<open>flag.Parse\<close> with the three flags of the
  program and those the logging library binds, which are a parameter; and \<open>main\<close> from the
  arguments to the exit code.
\<close>

subsection \<open>Package flag\<close>

text \<open>\<open>strconv.ParseBool\<close>.\<close>

definition parse_bool :: "string \<Rightarrow> bool option" where
  "parse_bool v =
     (if v \<in> set [''1'', ''t'', ''T'', ''true'', ''TRUE'', ''True''] then Some True
      else if v \<in> set [''0'', ''f'', ''F'', ''false'', ''FALSE'', ''False''] then Some False
      else None)"

datatype arg_shape =
    NoFlag          \<comment> \<open>an argument that ends the flags and stays\<close>
  | Terminator      \<comment> \<open>two dashes: ends the flags and is dropped\<close>
  | BadSyntax
  | FlagArg string "string option"

text \<open>The name of a flag ends at the first equals sign that is not its first character.\<close>

definition split_value :: "string \<Rightarrow> string \<times> string option" where
  "split_value name =
     (case dropWhile (\<lambda>c. c \<noteq> CHR ''='') (tl name) of
        [] \<Rightarrow> (name, None)
      | _ # v \<Rightarrow> (hd name # takeWhile (\<lambda>c. c \<noteq> CHR ''='') (tl name), Some v))"

definition arg_shape :: "string \<Rightarrow> arg_shape" where
  "arg_shape s =
     (if size s < 2 \<or> s ! 0 \<noteq> CHR ''-'' then NoFlag
      else if s = ''--'' then Terminator
      else let name = drop (if s ! 1 = CHR ''-'' then 2 else 1) s in
        if name = [] \<or> hd name = CHR ''-'' \<or> hd name = CHR ''='' then BadSyntax
        else let (n, v) = split_value name in FlagArg n v)"

text \<open>
  The flags of a program: whether one is boolean, and what setting it does to the values.
  \<open>flag.CommandLine\<close> exits with code 0 after printing the help and with code 2 after an error.
\<close>

record 'f flag_def =
  fIsBool :: bool
  fSet :: "string \<Rightarrow> 'f \<Rightarrow> 'f option"

datatype 'f parsed = Parsed 'f "string list" | ParseHelp | ParseError

function parse_flags :: "(string \<rightharpoonup> 'f flag_def) \<Rightarrow> 'f \<Rightarrow> string list \<Rightarrow> 'f parsed" where
  "parse_flags F f [] = Parsed f []"
| "parse_flags F f (s # args) =
     (case arg_shape s of
        NoFlag \<Rightarrow> Parsed f (s # args)
      | Terminator \<Rightarrow> Parsed f args
      | BadSyntax \<Rightarrow> ParseError
      | FlagArg n v \<Rightarrow>
          (case F n of
             None \<Rightarrow> if n = ''help'' \<or> n = ''h'' then ParseHelp else ParseError
           | Some d \<Rightarrow>
               (if fIsBool d
                then (case fSet d (case v of Some x \<Rightarrow> x | None \<Rightarrow> ''true'') f of
                        Some f' \<Rightarrow> parse_flags F f' args
                      | None \<Rightarrow> ParseError)
                else (case v of
                        Some x \<Rightarrow> (case fSet d x f of Some f' \<Rightarrow> parse_flags F f' args | None \<Rightarrow> ParseError)
                      | None \<Rightarrow>
                          (case args of
                             [] \<Rightarrow> ParseError
                           | x # args' \<Rightarrow>
                               (case fSet d x f of Some f' \<Rightarrow> parse_flags F f' args' | None \<Rightarrow> ParseError))))))"
  by pat_completeness auto
termination by (relation "measure (\<lambda>(F, f, args). size args)") auto

declare parse_flags.simps [simp del]

subsection \<open>The flags of the operator\<close>

text \<open>The logging library binds its own flags: which, and which values it accepts.\<close>

type_synonym log_flags = "string \<rightharpoonup> bool \<times> (string \<Rightarrow> bool)"

definition operator_flags :: "log_flags \<Rightarrow> string \<rightharpoonup> main_flags flag_def" where
  "operator_flags logs n =
     (if n = ''metrics-bind-address''
      then Some \<lparr>fIsBool = False, fSet = \<lambda>v f. Some (f\<lparr>mfMetricsAddr := v\<rparr>)\<rparr>
      else if n = ''health-probe-bind-address''
      then Some \<lparr>fIsBool = False, fSet = \<lambda>v f. Some (f\<lparr>mfProbeAddr := v\<rparr>)\<rparr>
      else if n = ''leader-elect''
      then Some \<lparr>fIsBool = True,
                 fSet = \<lambda>v f. map_option (\<lambda>b. f\<lparr>mfLeaderElection := b\<rparr>) (parse_bool v)\<rparr>
      else map_option (\<lambda>(b, ok). \<lparr>fIsBool = b, fSet = \<lambda>v f. if ok v then Some f else None\<rparr>) (logs n))"

definition operator_parse :: "log_flags \<Rightarrow> string list \<Rightarrow> main_flags parsed" where
  "operator_parse logs args = parse_flags (operator_flags logs) default_main_flags args"

text \<open>The whole program: its exit code and whether the manager was started.\<close>

definition operator_command ::
  "log_flags \<Rightarrow> mgr_lib \<Rightarrow> string option \<Rightarrow> string list \<Rightarrow> nat \<times> bool" where
  "operator_command logs M run args =
     (case operator_parse logs args of
        ParseHelp \<Rightarrow> (0, False)
      | ParseError \<Rightarrow> (2, False)
      | Parsed f _ \<Rightarrow> operator_main M run f)"

subsection \<open>Lemmas\<close>

text \<open>An argument that gives a flag its value after an equals sign.\<close>

definition flag_text :: "string \<Rightarrow> string \<Rightarrow> string" where
  "flag_text n v = ''--'' @ n @ ''='' @ v"

lemma split_value_eq:
  assumes "n \<noteq> []" and "CHR ''='' \<notin> set n"
  shows "split_value (n @ CHR ''='' # v) = (n, Some v)"
proof -
  obtain c m where n: "n = c # m" using assms(1) by (cases n) auto
  have "\<forall>x \<in> set m. x \<noteq> CHR ''=''" using assms(2) n by auto
  then have "dropWhile (\<lambda>x. x \<noteq> CHR ''='') (m @ CHR ''='' # v) = CHR ''='' # v"
    and "takeWhile (\<lambda>x. x \<noteq> CHR ''='') (m @ CHR ''='' # v) = m"
    by (simp_all add: dropWhile_append2 takeWhile_append2)
  then show ?thesis by (simp add: split_value_def n)
qed

lemma arg_shape_flag_text:
  assumes "n \<noteq> []" and "CHR ''='' \<notin> set n" and "hd n \<noteq> CHR ''-''"
  shows "arg_shape (flag_text n v) = FlagArg n (Some v)"
proof -
  have "hd n \<noteq> CHR ''=''" using assms(1,2) by (cases n) auto
  then show ?thesis
    using assms(1,3) split_value_eq[OF assms(1,2), of v] by (simp add: arg_shape_def flag_text_def)
qed

lemma parse_flag_text:
  assumes "n \<noteq> []" and "CHR ''='' \<notin> set n" and "hd n \<noteq> CHR ''-''"
    and "Option.bind (F n) (\<lambda>d. fSet d v f) = Some f'"
  shows "parse_flags F f (flag_text n v # args) = parse_flags F f' args"
  using assms(4) arg_shape_flag_text[OF assms(1-3), of v]
  by (auto simp: parse_flags.simps bind_eq_Some_conv)

text \<open>Every setting of the operator can be given on its command line.\<close>

definition operator_args :: "main_flags \<Rightarrow> string list" where
  "operator_args f =
     [flag_text ''metrics-bind-address'' (mfMetricsAddr f),
      flag_text ''health-probe-bind-address'' (mfProbeAddr f),
      flag_text ''leader-elect'' (if mfLeaderElection f then ''true'' else ''false'')]"

lemma parse_operator_flag:
  "parse_flags (operator_flags logs) g (flag_text ''metrics-bind-address'' v # args) =
     parse_flags (operator_flags logs) (g\<lparr>mfMetricsAddr := v\<rparr>) args"
  "parse_flags (operator_flags logs) g (flag_text ''health-probe-bind-address'' v # args) =
     parse_flags (operator_flags logs) (g\<lparr>mfProbeAddr := v\<rparr>) args"
  "parse_bool w = Some b \<Longrightarrow> parse_flags (operator_flags logs) g (flag_text ''leader-elect'' w # args) =
     parse_flags (operator_flags logs) (g\<lparr>mfLeaderElection := b\<rparr>) args"
  by - (rule parse_flag_text; simp add: operator_flags_def)+

lemma operator_args_parse:
  "parse_flags (operator_flags logs) g (operator_args f) = Parsed f []"
proof -
  have "parse_bool (if mfLeaderElection f then ''true'' else ''false'') = Some (mfLeaderElection f)"
    by (simp add: parse_bool_def)
  then show ?thesis
    by (simp add: operator_args_def parse_operator_flag parse_flags.simps(1) del: if_split)
qed

lemma operator_command_args:
  "operator_command logs M run (operator_args f) = operator_main M run f"
  by (simp add: operator_command_def operator_parse_def operator_args_parse)

text \<open>
  Without a flag \<open>h\<close> or \<open>help\<close> of the logging library, a request for help ends the program
  before the manager; so does an unknown flag, with code 2.
\<close>

lemma operator_help:
  assumes "logs ''help'' = None"
  shows "operator_command logs M run (''--help'' # args) = (0, False)"
  using assms by (simp add: operator_command_def operator_parse_def parse_flags.simps arg_shape_def
      split_value_def operator_flags_def)

lemma operator_bad_bool:
  "operator_command logs M run (flag_text ''leader-elect'' ''yes'' # args) = (2, False)"
  by (simp add: operator_command_def operator_parse_def parse_flags.simps operator_flags_def
      arg_shape_flag_text parse_bool_def)

end
