(* ===== verification/LeaderElection.thy ===== *)
theory LeaderElection
  imports ZupdCommand
begin

text \<open>
  The leases the update servers contend for: from the deployment the operator writes
  (\<open>controllers/dns/zupd.go\<close>), over the settings a server reads, to the options of the manager it
  starts (\<open>manager.go\<close>).  The election itself belongs to controller-runtime and is not modelled.
\<close>

subsection \<open>Leases\<close>

text \<open>A lease is an object with a namespace and a name.\<close>

definition lease_of :: "mgr_options \<Rightarrow> string \<times> string" where
  "lease_of opts = (moLeaderElectionNamespace opts, moLeaderElectionID opts)"

text \<open>
  The settings a pod of the update server has: those of the arguments in its deployment, as cobra
  parses them and viper reads them off the flags.
\<close>

definition deployed_settings :: "(string \<Rightarrow> vval option) \<Rightarrow> Ksdns \<Rightarrow> bool" where
  "deployed_settings viper k \<longleftrightarrow>
     (\<forall>d c. dep_spec (zupdDeployment k) = Some d \<longrightarrow> c \<in> set (dpContainers d) \<longrightarrow>
        viper ''enable-leader-election'' = Some (VBool (''--enable-leader-election'' \<in> set (cnArgs c))) \<and>
        viper ''leader-election-namespace'' =
          map_option VString (flag_value ''--leader-election-namespace'' (cnArgs c)))"

lemma deployed_manager:
  assumes "deployed_settings viper k"
  shows "NewManager M viper nss =
    (let opts = manager_options nss True (ks_ns k) in
     case first_error [mNew M opts, mController M, mHealthz M, mReadyz M] of
       Some e \<Rightarrow> Ret (Inl e)
     | None \<Rightarrow> Ret (Inr opts))"
proof -
  have "viper ''enable-leader-election'' = Some (VBool True)"
    and "viper ''leader-election-namespace'' = Some (VString (ks_ns k))"
    using assms by (simp_all add: deployed_settings_def zupdDeployment_def dep_spec_def)
  then show ?thesis by (simp add: NewManager_def bool_setting_def string_setting_def)
qed

subsection \<open>Properties\<close>

text \<open>
  C29: the update servers of a namespace contend for one lease.  A server with the settings its
  deployment gives it does not panic when it makes its manager.  When that succeeds for the servers
  of two Ksdns resources, both managers take part in a leader election, for the namespaces the
  plugin was told to watch, and they contend for the same lease exactly when the resources are in
  the same namespace: neither the names of the resources nor their zones are part of it.
\<close>

theorem servers_share_lease:
  assumes "deployed_settings viper k" and "deployed_settings viper' k'"
  shows "NewManager M viper nss \<noteq> Panic \<and>
    (\<forall>opts opts'. NewManager M viper nss = Ret (Inr opts) \<longrightarrow> NewManager M' viper' nss' = Ret (Inr opts') \<longrightarrow>
      moLeaderElection opts \<and> moLeaderElection opts' \<and>
      moNamespaces opts = nss \<and> moNamespaces opts' = nss' \<and>
      (lease_of opts = lease_of opts' \<longleftrightarrow> ks_ns k = ks_ns k'))"
  by (auto simp: deployed_manager [OF assms(1)] deployed_manager [OF assms(2)] Let_def lease_of_def
      manager_options_def split: option.splits)

text \<open>Two resources of one namespace.\<close>

definition other_ksdns :: Ksdns where
  "other_ksdns = store_ksdns\<lparr>ksMeta := object_meta ''other'' ''d'' Map.empty\<rparr>"

theorem servers_share_lease_witness:
  "\<exists>opts opts'. NewManager quiet_mgr
      [''enable-leader-election'' \<mapsto> VBool True, ''leader-election-namespace'' \<mapsto> VString ''d''] [''d''] = Ret (Inr opts) \<and>
    NewManager quiet_mgr
      [''enable-leader-election'' \<mapsto> VBool True, ''leader-election-namespace'' \<mapsto> VString ''d''] [] = Ret (Inr opts') \<and>
    moLeaderElection opts \<and> lease_of opts = lease_of opts'"
proof -
  let ?v = "[''enable-leader-election'' \<mapsto> VBool True, ''leader-election-namespace'' \<mapsto> VString ''d'']"
  have v: "deployed_settings ?v store_ksdns" "deployed_settings ?v other_ksdns"
    by (simp_all add: deployed_settings_def zupdDeployment_def dep_spec_def other_ksdns_def)
  have n: "\<exists>opts. NewManager quiet_mgr ?v nss = Ret (Inr opts)" for nss
    by (simp add: NewManager_def quiet_mgr_def bool_setting_def string_setting_def first_error_def)
  have "ks_ns store_ksdns = ks_ns other_ksdns" by (simp add: other_ksdns_def)
  then show ?thesis
    using servers_share_lease [OF v, of quiet_mgr "[''d'']" quiet_mgr "[]"] n [of "[''d'']"] n [of "[]"] by blast
qed

end
