(* ===== verification/TestServer.thy ===== *)
theory TestServer
  imports ZupdCommand
begin

text \<open>
  The harness of the integration tests (\<open>src/test/utils.go\<close>): its list of directives, the input it
  gives to caddy, and the addresses it reads off a running server.  caddy and the server it
  returns are parameters.
\<close>

subsection \<open>Directives and input\<close>

definition test_directives :: "string list" where
  "test_directives =
     [''metadata'', ''geoip'', ''cancel'', ''tls'', ''reload'', ''nsid'', ''bufsize'', ''root'', ''bind'',
      ''debug'', ''trace'', ''ready'', ''health'', ''pprof'', ''prometheus'', ''errors'', ''log'',
      ''dnstap'', ''local'', ''dns64'', ''acl'', ''any'', ''chaos'', ''loadbalance'', ''tsig'', ''cache'',
      ''rewrite'', ''header'', ''dnssec'', ''autopath'', ''minimal'', ''template'', ''transfer'', ''hosts'',
      ''route53'', ''azure'', ''clouddns'', ''k8s_external'', ''kubernetes'', ''file'', ''dynamicupdate'',
      ''auto'', ''secondary'', ''etcd'', ''loop'', ''forward'', ''grpc'', ''erratic'', ''whoami'', ''on'',
      ''sign'', ''view'', ''kubeapi'']"

text \<open>\<open>NewInput\<close> with the methods \<open>Body\<close>, \<open>Path\<close> and \<open>ServerType\<close> of its result.\<close>

definition NewInput :: "string \<Rightarrow> caddy_input" where
  "NewInput corefile = \<lparr>ciContents = corefile, ciFilepath = ''Corefile'', ciServerTypeName = ''dns''\<rparr>"

subsection \<open>Starting a server\<close>

text \<open>\<open>start\<close> is \<open>caddy.Start\<close>.\<close>

definition CoreDNSServer :: "(caddy_input \<Rightarrow> string + 'i) \<Rightarrow> string \<Rightarrow> string + 'i" where
  "CoreDNSServer start corefile = start (NewInput corefile)"

text \<open>A listener of a server: its UDP and its TCP address, where it has them.\<close>

record listener =
  lsLocalAddr :: "string option"
  lsAddr :: "string option"

definition addr_text :: "string option \<Rightarrow> string" where
  "addr_text a = (case a of None \<Rightarrow> '''' | Some s \<Rightarrow> s)"

definition CoreDNSServerPorts :: "listener list \<Rightarrow> nat \<Rightarrow> string \<times> string" where
  "CoreDNSServerPorts srvs k =
     (if length srvs < k + 1 then ('''', '''')
      else (addr_text (lsLocalAddr (srvs ! k)), addr_text (lsAddr (srvs ! k))))"

definition CoreDNSServerAndPorts ::
  "(caddy_input \<Rightarrow> string + 'i) \<Rightarrow> ('i \<Rightarrow> listener list) \<Rightarrow> string \<Rightarrow>
   string + 'i \<times> string \<times> string" where
  "CoreDNSServerAndPorts start servers corefile =
     (case CoreDNSServer start corefile of
        Inl e \<Rightarrow> Inl e
      | Inr i \<Rightarrow> (case CoreDNSServerPorts (servers i) 0 of (udp, tcp) \<Rightarrow> Inr (i, udp, tcp)))"

subsection \<open>Lemmas\<close>

text \<open>
  The tests run the server under the conditions of the program: with the same order of the
  plugins, and with the input the program itself would load from a Corefile of this text.
\<close>

lemma test_order: "test_directives = Directives"
  by (simp only: test_directives_def Directives_def)

lemma test_server_as_program:
  assumes "cReadFile W DefaultConfigFile = Inr corefile"
    and "cLoad W (Inr None) (Inr (Some (NewInput corefile))) = Inr (NewInput corefile)"
    and "\<And>i. cStart W i = (case start i of Inl e \<Rightarrow> Some e | Inr _ \<Rightarrow> None)"
  shows "fst (Run W g b default_flags) =
    (case CoreDNSServer start corefile of Inl _ \<Rightarrow> Exit 1 | Inr _ \<Rightarrow> Serving (NewInput corefile))"
  using assms(1,2)
  by (simp add: Run_def confLoader_def defaultLoader_def default_flags_def CoreDNSServer_def assms(3)
      NewInput_def DefaultConfigFile_def split: sum.split)

lemma ports_of_listener:
  "k < length srvs \<Longrightarrow> CoreDNSServerPorts srvs k = (addr_text (lsLocalAddr (srvs ! k)), addr_text (lsAddr (srvs ! k)))"
  "length srvs \<le> k \<Longrightarrow> CoreDNSServerPorts srvs k = ('''', '''')"
  by (simp_all add: CoreDNSServerPorts_def)

end
