(* ===== verification/SerialNumbers.thy ===== *)
theory SerialNumbers
  imports DynUpdate KsdnsRecords
begin

text \<open>
  The two serials of the program under the serial number arithmetic of RFC 1982, by which
  secondaries decide whether a zone is newer: the plugin takes the low 32 bits of the time
  in milliseconds, the operator those of the time in seconds.
\<close>

text \<open>RFC 1982: \<open>b\<close> is newer than \<open>a\<close> when it is less than half the circle ahead.\<close>

definition newer :: "u32 \<Rightarrow> u32 \<Rightarrow> bool" where
  "newer b a \<longleftrightarrow> b \<noteq> a \<and> unat (b - a) < 2 ^ 31"

lemma unat_of_int: "unat (word_of_int k :: u32) = nat (k mod 2 ^ 32)"
  by (simp add: uint_word_of_int unat_eq_nat_uint)

lemma newer_of_int:
  "newer (word_of_int b) (word_of_int a) \<longleftrightarrow> 0 < (b - a) mod 2 ^ 32 \<and> (b - a) mod 2 ^ 32 < 2 ^ 31"
proof -
  let ?x = "(b - a) mod 2 ^ 32"
  have gap: "unat (word_of_int b - word_of_int a :: u32) = nat ?x"
    using unat_of_int [of "b - a"] by simp
  have "(word_of_int b :: u32) \<noteq> word_of_int a \<longleftrightarrow> nat ?x \<noteq> 0"
    unfolding gap [symmetric] unat_eq_zero by simp
  moreover have "0 \<le> ?x" by simp
  ultimately have "((word_of_int b :: u32) \<noteq> word_of_int a \<and> nat ?x < 2 ^ 31) \<longleftrightarrow> 0 < ?x \<and> ?x < 2 ^ 31"
    by auto
  then show ?thesis unfolding newer_def gap .
qed

subsection \<open>Properties\<close>

text \<open>
  C31: the serial of a later update counts as newer exactly while the gap, taken modulo the 32
  bits, is less than half the circle: for two updates at most about 24.8 days apart the later
  one is newer, and for a gap from there up to about 49.7 days the zone seems to go back, so
  secondaries ignore the update.
\<close>

theorem update_serials_advance:
  "(0 < t2 - t1 \<and> t2 - t1 < 2 ^ 31 \<longrightarrow> newer (serial_of_ms t2) (serial_of_ms t1)) \<and>
   (2 ^ 31 \<le> t2 - t1 \<and> t2 - t1 \<le> 2 ^ 32 \<longrightarrow> \<not> newer (serial_of_ms t2) (serial_of_ms t1))"
proof (intro conjI impI)
  assume "0 < t2 - t1 \<and> t2 - t1 < 2 ^ 31"
  then have "(t2 - t1) mod 2 ^ 32 = t2 - t1" by (intro mod_pos_pos_trivial) simp_all
  with \<open>0 < t2 - t1 \<and> t2 - t1 < 2 ^ 31\<close> show "newer (serial_of_ms t2) (serial_of_ms t1)"
    unfolding serial_of_ms_def newer_of_int by presburger
next
  assume g: "2 ^ 31 \<le> t2 - t1 \<and> t2 - t1 \<le> 2 ^ 32"
  show "\<not> newer (serial_of_ms t2) (serial_of_ms t1)"
  proof (cases "t2 - t1 = 2 ^ 32")
    case True
    then show ?thesis unfolding serial_of_ms_def newer_of_int by simp
  next
    case False
    then have "(t2 - t1) mod 2 ^ 32 = t2 - t1" using g by (intro mod_pos_pos_trivial) simp_all
    then show ?thesis using g unfolding serial_of_ms_def newer_of_int by simp
  qed
qed

theorem update_serials_advance_witness:
  "newer (serial_of_ms 4294967300) (serial_of_ms 4294967290) \<and>
   \<not> newer (serial_of_ms 2592000000) (serial_of_ms 0)"
  using update_serials_advance [of 4294967300 4294967290] update_serials_advance [of 2592000000 0] by simp

text \<open>
  The two clocks do not fit together.  The serial the operator writes to a zone file counts
  seconds, that of an update milliseconds; there are times at which a zone file written one
  minute after an update has a serial that is not newer than the update's.
\<close>

lemma operator_serial_can_go_back:
  "\<not> newer (serial_of_s (1700000000 + 60)) (serial_of_ms (1700000000 * 1000))"
  unfolding serial_of_s_def serial_of_ms_def newer_of_int by simp

end
