(* ===== verification/Watches.thy ===== *)
theory Watches
  imports KsdnsCluster ZoneController
begin

text \<open>
  The two controllers around the Zone object they share: what \<open>SetupWithManager\<close> registers in
  \<open>controllers/dns/controller.go\<close> and in \<open>dynamicupdate/zone_controller.go\<close>, as data, and what the
  writes of either program change in a Zone object.  Which requests controller-runtime makes of a
  change of an object is not modelled.
\<close>

subsection \<open>Registrations\<close>

text \<open>
  What a controller is registered for: the kind it reconciles, the kinds of the objects it owns,
  and the predicates every event has to pass.
\<close>

record registration =
  rgFor :: string
  rgOwns :: "string list"
  rgFilters :: "string list"

definition ksdns_registration :: registration where
  "ksdns_registration =
     \<lparr>rgFor = ''Ksdns'',
      rgOwns = [''Zone'', ''Deployment'', ''Secret'', ''ConfigMap'', ''Service''],
      rgFilters = []\<rparr>"

definition zone_registration :: registration where
  "zone_registration =
     \<lparr>rgFor = ''Zone'', rgOwns = [], rgFilters = [''GenerationChangedPredicate'']\<rparr>"

text \<open>
  The object is of a kind registered as owned, and its owner is the object of that name of the kind
  the controller reconciles.
\<close>

definition owned_object :: "registration \<Rightarrow> string \<Rightarrow> kobj \<Rightarrow> bool" where
  "owned_object g name x \<longleftrightarrow>
     obj_kind x \<in> set (rgOwns g) \<and> omOwner (obj_meta x) = Some (rgFor g, name)"

subsection \<open>The status the plugin stores\<close>

lemma publish_persists_nothing:
  "\<exists>tr. wTrace (snd (publish L s zone r \<sigma>)) = wTrace \<sigma> @ tr \<and> persisted tr = []"
proof (cases "Merge L zone \<sigma>")
  case (Pair m \<sigma>1)
  then have tr: "wTrace \<sigma>1 = wTrace \<sigma> @ (if m = None then [] else merge_locks zone)"
    using Merge_pair by blast
  have "\<exists>tr. wTrace (snd (send_reply L zone r (\<sigma>1\<lparr>wSerials := h\<rparr>))) = wTrace \<sigma>1 @ tr \<and> persisted tr = []" for h
    by (auto simp: send_reply_def Let_def split: option.splits)
  then have "\<exists>tr. wTrace (snd (publish L s zone r \<sigma>)) = wTrace \<sigma>1 @ tr \<and> persisted tr = []"
    by (auto simp: publish_def Pair split: option.splits sum.splits prod.splits)
  with tr show ?thesis by fastforce
qed

lemma commit_persists:
  "\<exists>tr. wTrace (snd (commit L s zone dz r \<sigma>)) = wTrace \<sigma> @ tr \<and>
     (persisted tr = [] \<or> (\<exists>obj. find_zone L (wCluster \<sigma>) (trim_dot zone) (dNamespaces \<sigma>) = Some obj \<and>
        persisted tr = [new_status L (wSerials \<sigma>) dz s obj]))"
proof -
  let ?s = "emit [ERLock (LDyn zone)] \<sigma>"
  have "\<exists>tr. wTrace (snd (publish L s zone r (emit [EPersisted z] (?s\<lparr>wCluster := c\<rparr>)))) = wTrace ?s @ tr \<and>
      persisted tr = [z]" for z c
    using publish_persists_nothing [of L s zone r "emit [EPersisted z] (?s\<lparr>wCluster := c\<rparr>)"] by fastforce
  then have "\<exists>tr. wTrace (snd (commit_body L s zone dz r ?s)) = wTrace ?s @ tr \<and>
      (persisted tr = [] \<or> (\<exists>obj. find_zone L (wCluster \<sigma>) (trim_dot zone) (dNamespaces \<sigma>) = Some obj \<and>
        persisted tr = [new_status L (wSerials \<sigma>) dz s obj]))"
    by (fastforce simp: commit_body_def Let_def split: option.splits prod.splits)
  then show ?thesis by (fastforce simp: commit_eq)
qed

text \<open>
  Whatever a request does: it stores at most one object, and that is the one found for its zone,
  with another status.
\<close>

definition restatused :: "int \<Rightarrow> Zone \<Rightarrow> Zone \<Rightarrow> bool" where
  "restatused now obj obj' \<longleftrightarrow>
     obj' = obj\<lparr>zStatus := zStatus obj'\<rparr> \<and> Serial (zStatus obj') = serial_of_ms now"

lemma new_status_restatused: "restatused now obj (new_status L h dz (serial_of_ms now) obj)"
  by (simp add: restatused_def new_status_def)

definition stores_status :: "('z, 'e, 'c, 'm) plugin_lib_scheme \<Rightarrow> int \<Rightarrow> string \<Rightarrow> ('z, 'c) plugin \<Rightarrow> event list \<Rightarrow> bool" where
  "stores_status L now zone \<sigma> tr \<longleftrightarrow> persisted tr = [] \<or>
     (\<exists>obj obj'. persisted tr = [obj'] \<and>
        find_zone L (wCluster \<sigma>) (trim_dot zone) (dNamespaces \<sigma>) = Some obj \<and> restatused now obj obj')"

lemma update_persists:
  "\<exists>tr. wTrace (snd (serve_update L now zone dz r \<sigma>)) = wTrace \<sigma> @ tr \<and> stores_status L now zone \<sigma> tr"
proof (cases "apply_updates L zone r dz")
  case (fields res dz' tr)
  note tr = apply_updates_trace [OF fields]
  show ?thesis
  proof (cases res)
    case None
    let ?s = "emit [ELock (LDyn zone), EUnlock (LDyn zone)] (store_dynamic zone dz' \<sigma>)"
    obtain tr2 where tr2: "wTrace (snd (commit L (serial_of_ms now) zone dz' r ?s)) = wTrace ?s @ tr2"
      "persisted tr2 = [] \<or> (\<exists>obj. find_zone L (wCluster \<sigma>) (trim_dot zone) (dNamespaces \<sigma>) = Some obj \<and>
        persisted tr2 = [new_status L (wSerials \<sigma>) dz' (serial_of_ms now) obj])"
      using commit_persists [of L "serial_of_ms now" zone dz' r ?s] by auto
    then have "stores_status L now zone \<sigma> ([ELock (LDyn zone), EUnlock (LDyn zone)] @ tr2)"
      unfolding stores_status_def using new_status_restatused by fastforce
    then show ?thesis using fields tr None tr2(1)
      by (intro exI [of _ "[ELock (LDyn zone), EUnlock (LDyn zone)] @ tr2"]) (simp add: serve_update_def Let_def)
  next
    case (Some rc)
    then show ?thesis using fields tr by (simp add: serve_update_def Let_def stores_status_def)
  qed
qed

lemma query_persists: "\<exists>tr. wTrace (snd (serve_query L zone qname r \<sigma>)) = wTrace \<sigma> @ tr \<and> persisted tr = []"
proof (cases "Merge L zone \<sigma>")
  case (Pair m \<sigma>1)
  then have "wTrace \<sigma>1 = wTrace \<sigma> @ (if m = None then [] else merge_locks zone)"
    using Merge_pair by blast
  then show ?thesis
    by (auto simp: serve_query_def Pair Let_def split: option.splits prod.splits)
qed

lemma ServeDNS_persists:
  "\<exists>tr. wTrace (snd (ServeDNS L now r \<sigma>)) = wTrace \<sigma> @ tr \<and>
     stores_status L now (lMatches L (Names (dZones \<sigma>)) (lReqName L r)) \<sigma> tr"
proof -
  have none: "persisted tr = [] \<Longrightarrow> stores_status L now zone \<sigma> tr" for tr zone by (simp add: stores_status_def)
  show ?thesis
    using update_persists [of L now "lMatches L (Names (dZones \<sigma>)) (lReqName L r)" _ r \<sigma>]
      query_persists [of L "lMatches L (Names (dZones \<sigma>)) (lReqName L r)" "lReqName L r" r \<sigma>] none
    by (auto simp: ServeDNS_def Let_def stores_status_def split: option.splits)
qed

subsection \<open>Properties\<close>

text \<open>
  C19: what a request stores is a change of the status only.  A request stores at most one object:
  the one it found for its zone, with another status, in which the serial is that of the request;
  the spec and the metadata stay.  This is the change that the predicate of the plugin's own
  controller (\<open>zone_registration\<close>) is there to ignore, "status-only changes" as its comment says;
  the operator's controller has no predicate, and the object is of a kind it owns and belongs to a
  resource afterwards if it did before.
\<close>

theorem stored_update_is_status_only:
  assumes "wTrace (snd (ServeDNS L now r \<sigma>)) = wTrace \<sigma> @ tr" and "persisted tr \<noteq> []"
    and "zone = lMatches L (Names (dZones \<sigma>)) (lReqName L r)"
  shows "\<exists>obj obj'. persisted tr = [obj'] \<and>
    find_zone L (wCluster \<sigma>) (trim_dot zone) (dNamespaces \<sigma>) = Some obj \<and>
    obj' = obj\<lparr>zStatus := zStatus obj'\<rparr> \<and> Serial (zStatus obj') = serial_of_ms now \<and>
    (\<forall>nm. owned_object ksdns_registration nm (OZone obj') = owned_object ksdns_registration nm (OZone obj))"
proof -
  have "stores_status L now zone \<sigma> tr" using ServeDNS_persists [of L now r \<sigma>] assms(1,3) by auto
  then obtain obj obj' where o: "persisted tr = [obj']"
    "find_zone L (wCluster \<sigma>) (trim_dot zone) (dNamespaces \<sigma>) = Some obj" "restatused now obj obj'"
    using assms(2) unfolding stores_status_def by blast
  then have "zMeta obj' = zMeta obj" unfolding restatused_def by (metis Zone.simps(1,4) Zone.surjective Zone.update_convs(3))
  with o show ?thesis by (auto simp: restatused_def owned_object_def)
qed

theorem stored_update_is_status_only_witness:
  "\<exists>obj'. persisted (wTrace (snd (ServeDNS sample 5 (ex_msg OpcodeUpdate [ex_txt ClassINET]) ex_plugin))) = [obj'] \<and>
     zSpec obj' = zSpec ex_obj \<and> Serial (zStatus obj') = 5 \<and>
     owned_object ksdns_registration ''k'' (OZone obj')"
proof -
  let ?r = "ex_msg OpcodeUpdate [ex_txt ClassINET]" and ?z = "''a.org.''"
  have at: "dynamic_at (dZones ex_plugin) ?z = Some ex_dyn" "static_at (dZones ex_plugin) ?z = Some ex_zone"
    by simp_all
  have apex: "lApex sample ex_zone =
      Inr [RR_SOA \<lparr>hName = ?z, hRrtype = TypeSOA, hClass = ClassINET, hTtl = 3600\<rparr> 0]" by simp
  have wr: "lWriteMsg sample m = None" for m by simp
  obtain dz' where dz': "\<forall>obj' c'. obj' = new_status sample (wSerials ex_plugin) dz' (serial_of_ms 5) ex_obj \<longrightarrow>
      kStatusUpdate sample (wCluster ex_plugin) obj' = (None, c') \<longrightarrow>
      wTrace (snd (serve_update sample 5 ?z ex_dyn ?r ex_plugin)) = wTrace ex_plugin @
        [ELock (LDyn ?z), EUnlock (LDyn ?z), ERLock (LDyn ?z), EPersisted obj'] @
        merge_locks ?z @ notify_events ?z ex_plugin @ [EWrite (update_reply sample ?r), ERUnlock (LDyn ?z)]"
    using serve_update_success [OF sample_file_laws ex_plugin_ok ex_accepts at apex ex_find wr, of 5] by fastforce
  let ?o = "new_status sample (wSerials ex_plugin) dz' (serial_of_ms 5) ex_obj"
  have "\<exists>c. kStatusUpdate sample (wCluster ex_plugin) ?o = (None, c)"
    unfolding new_status_def using ex_stores by blast
  then have "?o \<in> set (persisted (wTrace (snd (serve_update sample 5 ?z ex_dyn ?r ex_plugin))))"
    using dz' by fastforce
  then have ne: "persisted (wTrace (snd (ServeDNS sample 5 ?r ex_plugin))) \<noteq> []"
    using ServeDNS_update [OF ex_update_for at(1), of 5] by force
  have tr: "wTrace (snd (ServeDNS sample 5 ?r ex_plugin)) =
      wTrace ex_plugin @ wTrace (snd (ServeDNS sample 5 ?r ex_plugin))" by simp
  have z: "?z = lMatches sample (Names (dZones ex_plugin)) (lReqName sample ?r)"
    using ex_update_for [of "[ex_txt ClassINET]"] by (simp add: update_for_def)
  from stored_update_is_status_only [OF tr ne z] obtain obj obj' where st:
    "persisted (wTrace (snd (ServeDNS sample 5 ?r ex_plugin))) = [obj']"
    "find_zone sample (wCluster ex_plugin) (trim_dot ?z) (dNamespaces ex_plugin) = Some obj"
    "obj' = obj\<lparr>zStatus := zStatus obj'\<rparr>" "Serial (zStatus obj') = serial_of_ms 5"
    "\<forall>nm. owned_object ksdns_registration nm (OZone obj') = owned_object ksdns_registration nm (OZone obj)"
    by (elim exE conjE)
  have "obj = ex_obj" using st(2) ex_find by simp
  moreover have "owned_object ksdns_registration ''k'' (OZone ex_obj)"
    by (simp add: owned_object_def ksdns_registration_def ex_obj_def ex_meta_def)
  moreover have "serial_of_ms 5 = 5" by (simp add: serial_of_ms_def)
  moreover have "zSpec obj' = zSpec obj" by (subst st(3)) simp
  ultimately show ?thesis using st(1,4,5) by simp
qed

text \<open>
  C18: reconciling a resource again rewrites its zone files exactly when the time has moved on.  Let a
  resource be reconciled twice, with nothing changed in between, without an error, and let both
  writes of the Zone object of one of its zones, the only one with its origin, succeed.  In the same
  second the object keeps its file and its status.  In different seconds it keeps its status, but
  its file differs from the first (in the serial).  So a reconciliation may itself change an object
  that its controller is registered for: both times the object is of an owned kind and has the
  resource as its owner.
\<close>

theorem reconcile_rewrites_zones:
  assumes "client_laws K view" and "soa_text_law K"
    and "seen_resource K ns nm c = Some (k, c0)" and "seen_resource K ns nm c1 = Some (k, c01)"
    and "Reconcile_Ksdns K now ts ns nm c = Ret (None, c1)"
    and "Reconcile_Ksdns K now' ts' ns nm c1 = Ret (None, c2)"
    and "ksZones (ksSpec k) = pre @ z # post" and "kzOrigin z \<notin> kzOrigin ` set (pre @ post)"
    and "ToRfc1035Zone K now z (Some [10, 0, 0, 10]) = Inr spec"
    and "ToRfc1035Zone K now' z (Some [10, 0, 0, 10]) = Inr spec'"
    and "zone_write K now ts k pre z c0 = Some op" and "zone_write K now' ts' k pre z c01 = Some op'"
  shows "\<exists>z1 z2. view c1 (''Zone'', ks_ns k, kzOrigin z) = Some (OZone z1) \<and>
    view c2 (''Zone'', ks_ns k, kzOrigin z) = Some (OZone z2) \<and>
    zStatus z2 = zStatus z1 \<and> (zSpec z2 = zSpec z1 \<longleftrightarrow> serial_of_s now' = serial_of_s now) \<and>
    owned_object ksdns_registration (ks_name k) (OZone z1) \<and>
    owned_object ksdns_registration (ks_name k) (OZone z2)"
proof -
  let ?key = "(''Zone'', ks_ns k, kzOrigin z)"
  have s: "spec' = spec \<longleftrightarrow> serial_of_s now' = serial_of_s now"
    using zone_files_differ [OF assms(2,9), of now'] assms(10) by auto
  obtain z1 where z1: "view c1 ?key = Some (OZone z1)" "zSpec z1 = spec"
    "omOwner (zMeta z1) = Some (''Ksdns'', ks_name k)"
    using reconciled_zone [OF assms(1,3,5,7,8,9,11) refl] by blast
  obtain z2 where z2: "view c2 ?key = Some (OZone z2)" "zSpec z2 = spec'" "zStatus z2 = zStatus z1"
    "omOwner (zMeta z2) = Some (''Ksdns'', ks_name k)"
    using reconciled_zone [OF assms(1,4,6,7,8,10,12) refl] z1(1) by (auto simp: status_at_def)
  show ?thesis
    using z1 z2 s by (simp add: owned_object_def ksdns_registration_def)
qed

lemma store_soa_text: "soa_text_law store_op"
  by (simp add: soa_text_law_def store_op_def store_text_def replicate_eq_replicate word_unat_eq_iff)

text \<open>The second reconciliation is a second later.\<close>

theorem reconcile_rewrites_zones_witness:
  "\<exists>c1 c2 z1 z2. Reconcile_Ksdns store_op 9 ''s3cret'' ''d'' ''k'' Map.empty = Ret (None, c1) \<and>
    Reconcile_Ksdns store_op 10 ''s3cret'' ''d'' ''k'' c1 = Ret (None, c2) \<and>
    store_view c1 (''Zone'', ''d'', ''a.org'') = Some (OZone z1) \<and>
    store_view c2 (''Zone'', ''d'', ''a.org'') = Some (OZone z2) \<and>
    zStatus z2 = zStatus z1 \<and> zSpec z2 \<noteq> zSpec z1 \<and> owned_object ksdns_registration ''k'' (OZone z2)"
proof -
  obtain c1 where 1: "Reconcile_Ksdns store_op 9 ''s3cret'' ''d'' ''k'' Map.empty = Ret (None, c1)"
    using store_reconciles by blast
  obtain c2 where 2: "Reconcile_Ksdns store_op 10 ''s3cret'' ''d'' ''k'' c1 = Ret (None, c2)"
    using store_reconciles by blast
  have zs: "ksZones (ksSpec store_ksdns) = [] @ store_zone # []" "kzOrigin store_zone \<notin> kzOrigin ` set ([] @ [])"
    by simp_all
  have ser: "serial_of_s 10 \<noteq> serial_of_s 9" by (simp add: serial_of_s_def)
  from reconcile_rewrites_zones [OF store_laws store_soa_text store_seen store_seen 1 2 zs
      store_zone_file store_zone_file store_zone_written store_zone_written]
  show ?thesis using 1 2 ser by auto
qed

end
