(* ===== verification/Served.thy ===== *)
theory Served
  imports Watches
begin

text \<open>
  From the Ksdns resource to the answer: the zone file the operator renders is what the plugin
  parses, so what a user writes into a resource is what the update server answers with.  The
  parser of zone files is CoreDNS's; what is relied on is \<open>zone_file_law\<close>, on the records \<open>loads\<close>
  admits.
\<close>

subsection \<open>Reading a rendered zone file\<close>

text \<open>
  The name of a record in a zone file (RFC 1035): \<open>@\<close> is the origin, a name without a final dot is
  relative to it.
\<close>

definition complete_name :: "string \<Rightarrow> string \<Rightarrow> string" where
  "complete_name ori n =
     (if n = ''@'' then ori else if n \<noteq> [] \<and> last n = CHR ''.'' then n else n @ ''.'' @ ori)"

definition completed :: "string \<Rightarrow> rr_header \<Rightarrow> rr_header" where
  "completed ori h = h\<lparr>hName := complete_name ori (hName h)\<rparr>"

text \<open>The record of the plugin that a line of the file stands for (the SOA is not among them).\<close>

fun file_rr :: "string \<Rightarrow> orr \<Rightarrow> prr" where
  "file_rr ori (RR_SOA h d) = RR_SOA (completed ori h) 0"
| "file_rr ori (RR_NS h t) = RR_NS (completed ori h) t"
| "file_rr ori (RR_A h a) = RR_A (completed ori h) a"
| "file_rr ori (RR_AAAA h a) = RR_AAAA (completed ori h) a"
| "file_rr ori (RR_CNAME h t) = RR_CNAME (completed ori h) t"
| "file_rr ori (RR_TXT h ts) = RR_TXT (completed ori h) ts"
| "file_rr ori (RR_SRV h p w q t) = RR_SRV (completed ori h) p w q t"
| "file_rr ori (RR_Other h t) = RR_Other (completed ori h) t"

text \<open>
  Documented behaviour of the parser on a text of printed records that begins with the SOA: a
  zone that is not expired, with this SOA at a new cell; the NS records of the origin are in its
  apex, the others are its contents.  (A serial equal to the one asked for, here 0, is refused as
  not newer.)
\<close>

definition apex_rr :: "string \<Rightarrow> orr \<Rightarrow> bool" where
  "apex_rr ori r \<longleftrightarrow> rrtype r = TypeNS \<and> complete_name ori (rrname r) = ori"

definition zone_file_law ::
  "('z, 'e, 'm) dns_lib_scheme \<Rightarrow> 'n api_lib_scheme \<Rightarrow> (prr \<Rightarrow> prr) \<Rightarrow> (string \<Rightarrow> orr \<Rightarrow> bool) \<Rightarrow> bool" where
  "zone_file_law L A norm loads \<longleftrightarrow>
     (\<forall>ori h0 d rest f h. list_all (loads ori) (RR_SOA h0 d # rest) \<longrightarrow> list_all (\<lambda>r. as_SOA r = None) rest \<longrightarrow>
        soaSerial d \<noteq> 0 \<longrightarrow> finite (dom h) \<longrightarrow>
        (\<exists>z h' p. lParse L (zone_text A (RR_SOA h0 d # rest)) ori f 0 h = (Inr z, h') \<and> \<not> lExpired L z \<and>
           set (records L z) = (\<lambda>r. norm (file_rr ori r)) ` {r \<in> set rest. \<not> apex_rr ori r} \<and>
           apex_soas L z = [p] \<and> h' p = Some (soaSerial d)))"

lemma zone_file_lawD:
  assumes "zone_file_law L A norm loads" and "list_all (loads ori) (RR_SOA h0 d # rest)"
    and "list_all (\<lambda>r. as_SOA r = None) rest" and "soaSerial d \<noteq> 0" and "finite (dom h)"
  shows "\<exists>z h' p. lParse L (zone_text A (RR_SOA h0 d # rest)) ori f 0 h = (Inr z, h') \<and> \<not> lExpired L z \<and>
    set (records L z) = (\<lambda>r. norm (file_rr ori r)) ` {r \<in> set rest. \<not> apex_rr ori r} \<and>
    apex_soas L z = [p] \<and> h' p = Some (soaSerial d)"
  by (rule assms(1) [unfolded zone_file_law_def, rule_format, OF assms(2-5)])

text \<open>The address of the name server and the records of the user.\<close>

definition zone_contents :: "'m api_lib_scheme \<Rightarrow> KZone \<Rightarrow> ip \<Rightarrow> orr list" where
  "zone_contents A z nsIP =
     RR_A \<lparr>hName = aFqdn A (aJoin A [nsName, kzOrigin z]), hRrtype = TypeA, hClass = ClassINET, hTtl = 30\<rparr> nsIP #
     map (user_rr A) (kzRecords z)"

lemma zone_rrs_parts:
  "\<exists>h d host. zone_rrs A now z nsIP =
     RR_SOA h d # RR_NS \<lparr>hName = aFqdn A (kzOrigin z), hRrtype = TypeNS, hClass = ClassINET, hTtl = 30\<rparr> host #
       zone_contents A z nsIP \<and> soaSerial d = serial_of_s now"
  by (simp add: zone_rrs_def zone_contents_def Let_def)

lemma user_rr_type: "rrtype (user_rr A r) \<noteq> TypeNS"
  by (simp add: user_rr_def user_header_def type_defs)

lemma contents_no_soa: "list_all (\<lambda>r. as_SOA r = None) (zone_contents A z nsIP)"
  by (auto simp: zone_contents_def user_rr_def list_all_iff)

lemma contents_not_apex: "r \<in> set (zone_contents A z nsIP) \<Longrightarrow> \<not> apex_rr ori r"
  using user_rr_type by (auto simp: zone_contents_def apex_rr_def type_defs)

lemma complete_fqdn:
  assumes "o1 \<noteq> []" and "last o1 = CHR ''.''"
  shows "complete_name o1 o1 = o1"
  using assms by (auto simp: complete_name_def)

text \<open>Parsing the file of a zone.\<close>

lemma parse_rendered:
  assumes "zone_file_law L A norm loads" and "list_all (loads ori) (zone_rrs A now z nsIP)"
    and "serial_of_s now \<noteq> 0" and "ori = aFqdn A (kzOrigin z)" and "ori \<noteq> []" and "last ori = CHR ''.''"
    and "finite (dom h)"
  shows "\<exists>st h' p. lParse L (zone_text A (zone_rrs A now z nsIP)) ori f 0 h = (Inr st, h') \<and> \<not> lExpired L st \<and>
    set (records L st) = (\<lambda>r. norm (file_rr ori r)) ` set (zone_contents A z nsIP) \<and>
    apex_soas L st = [p] \<and> h' p = Some (serial_of_s now)"
proof -
  obtain h0 d host where rrs: "zone_rrs A now z nsIP =
      RR_SOA h0 d # RR_NS \<lparr>hName = ori, hRrtype = TypeNS, hClass = ClassINET, hTtl = 30\<rparr> host #
        zone_contents A z nsIP" and d: "soaSerial d = serial_of_s now"
    using zone_rrs_parts [of A now z nsIP] assms(4) by blast
  let ?ns = "RR_NS \<lparr>hName = ori, hRrtype = TypeNS, hClass = ClassINET, hTtl = 30\<rparr> host :: orr"
  have "{r \<in> set (?ns # zone_contents A z nsIP). \<not> apex_rr ori r} = set (zone_contents A z nsIP)"
    using contents_not_apex [of _ A z nsIP ori] complete_fqdn [OF assms(5,6)] by (auto simp: apex_rr_def)
  with zone_file_lawD [OF assms(1) assms(2) [unfolded rrs], of h f] contents_no_soa [of A z nsIP] d assms(3,7)
  show ?thesis
    unfolding rrs by simp
qed

subsection \<open>Properties\<close>

text \<open>The records a dynamic zone holds, none where the name is new.\<close>

definition dynamic_records :: "('z, 'e, 'c, 'm) plugin_lib_scheme \<Rightarrow> ('z, 'c) plugin \<Rightarrow> string \<Rightarrow> prr set" where
  "dynamic_records L \<sigma> name =
     (case dynamic_at (dZones \<sigma>) name of None \<Rightarrow> {} | Some dz \<Rightarrow> set (records L dz))"

text \<open>
  C7: what a resource declares is what the server answers. Let the operator reconcile a resource,
  the first time or later, without an error, and let the write of the Zone object of one of its
  zones succeed, whose error would be dropped. The zone is the only one with its origin, has
  records of supported types that the parser can load, and is not rendered in a second whose
  serial is 0. Let the plugin, with its table in order and finitely many serials, then be asked to
  reconcile this object, as its cache has it (unless it is to remove this zone because the object
  is being deleted); \<open>dns.Fqdn\<close> gives both programs the same name with a final dot. The plugin enters the zone: its
  contents are the address of the name server and the records of the user, with names completed by
  the origin, its SOA has the serial of the time of the reconciliation, and the records of earlier
  updates survive. From then on a query for the zone is answered by a lookup in the union of the
  two.
\<close>

theorem declared_records_are_served:
  assumes "client_laws K view" and "seen_resource K ns nm c = Some (k, c0)"
    and "Reconcile_Ksdns K now ts ns nm c = Ret (None, c')"
    and "ksZones (ksSpec k) = pre @ z # post" and "kzOrigin z \<notin> kzOrigin ` set (pre @ post)"
    and "zone_write K now ts k pre z c0 = Some op"
    and "kzOrigin z \<noteq> ''''" and "\<forall>r \<in> set (kzRecords z). supported_type (rcType r)"
    and "file_laws L origin norm intree" and "alloc_laws L origin" and "plugin_ok origin \<sigma>"
    and "zone_file_law L K norm loads" and "list_all (loads name) (zone_rrs K now z (Some [10, 0, 0, 10]))"
    and "serial_of_s now \<noteq> 0" and "finite (dom (wSerials \<sigma>))"
    and "name = aFqdn K (kzOrigin z)" and "name = lFqdn L (kzOrigin z)" and "name \<noteq> []" and "last name = CHR ''.''"
    and "\<forall>zo. view c' (''Zone'', ks_ns k, kzOrigin z) = Some (OZone zo) \<longrightarrow>
      kCacheGet L (wCluster \<sigma>) (ks_ns k) (kzOrigin z) = Inr zo \<and>
        \<not> (isDeleting zo \<and> name \<in> set (Names (dZones \<sigma>)))"
  shows "\<exists>\<sigma>' st p. Reconcile L (ks_ns k) (kzOrigin z) \<sigma> = (Ret None, \<sigma>') \<and>
    static_at (dZones \<sigma>') name = Some st \<and>
    set (records L st) = (\<lambda>r. norm (file_rr name r)) ` set (zone_contents K z (Some [10, 0, 0, 10])) \<and>
    apex_soas L st = [p] \<and> wSerials \<sigma>' p = Some (serial_of_s now) \<and>
    (\<exists>n. set (records L n) = set (records L st) \<union> dynamic_records L \<sigma> name \<and> lApex L n = lApex L st \<and>
      (\<forall>t r answer auth extra result m. query_for L \<sigma>' r name \<longrightarrow>
         lLookup L n (wSerials \<sigma>') r (lReqName L r) = (answer, auth, extra, result) \<longrightarrow>
         query_reply L r answer auth extra result = Some m \<longrightarrow> lWriteMsg L m = None \<longrightarrow>
         ServeDNS L t r \<sigma>' = (Ret (RcodeSuccess, None),
           emit (merge_locks name @ [ERLock LMerged, ERUnlock LMerged, EWrite m]) \<sigma>')))"
proof -
  let ?rrs = "zone_rrs K now z (Some [10, 0, 0, 10])" and ?key = "(''Zone'', ks_ns k, kzOrigin z)"
  have spec: "ToRfc1035Zone K now z (Some [10, 0, 0, 10]) = Inr \<lparr>spZone = zone_text K ?rrs\<rparr>"
    by (rule ToRfc1035Zone_text [OF assms(7,8)])
  obtain zo where zo: "view c' ?key = Some (OZone zo)" "zSpec zo = \<lparr>spZone = zone_text K ?rrs\<rparr>"
    using reconciled_zone [OF assms(1-5) spec assms(6) refl] by blast
  have nm: "omName (zMeta zo) = kzOrigin z" using client_key [OF assms(1) zo(1)] by simp
  have get: "kCacheGet L (wCluster \<sigma>) (ks_ns k) (kzOrigin z) = Inr zo"
    and live: "\<not> (isDeleting zo \<and> name \<in> set (Names (dZones \<sigma>)))"
    using assms(20) zo(1) by blast+
  obtain st h p where st: "lParse L (zone_text K ?rrs) name ''stdin'' 0 (wSerials \<sigma>) = (Inr st, h)"
    "\<not> lExpired L st" "set (records L st) = (\<lambda>r. norm (file_rr name r)) ` set (zone_contents K z (Some [10, 0, 0, 10]))"
    "apex_soas L st = [p]" "h p = Some (serial_of_s now)"
    using parse_rendered [OF assms(12,13,14,16,18,19,15), where f = "''stdin''"] by blast
  have name: "name = lFqdn L (omName (zMeta zo))" using assms(17) nm by simp
  have parse: "lParse L (spZone (zSpec zo)) name ''stdin'' 0 (wSerials \<sigma>) = (Inr st, h)" using st(1) zo(2) by simp
  obtain zs where zs: "Reconcile L (ks_ns k) (kzOrigin z) \<sigma> = (Ret None,
      emit [ELock LZones, ENotify name, EUnlock LZones] (\<sigma>\<lparr>dZones := zs, wSerials := h\<rparr>))" "zones_ok origin zs"
    "static_at zs = (static_at (dZones \<sigma>))(name \<mapsto> st)" "dynamic_at zs = (dynamic_at (dZones \<sigma>))(name \<mapsto>
      (case dynamic_at (dZones \<sigma>) name of None \<Rightarrow> lNewZone L name '''' | Some d \<Rightarrow> d))"
    using reconcile_entered [OF assms(9,10,11) get name live parse] by blast
  let ?s = "emit [ELock LZones, ENotify name, EUnlock LZones] (\<sigma>\<lparr>dZones := zs, wSerials := h\<rparr>)"
  let ?dz = "case dynamic_at (dZones \<sigma>) name of None \<Rightarrow> lNewZone L name '''' | Some d \<Rightarrow> d"
  have ok: "plugin_ok origin ?s" using zs(2) by (simp add: plugin_ok_def)
  have at: "dynamic_at (dZones ?s) name = Some ?dz" "static_at (dZones ?s) name = Some st" using zs(3,4) by simp_all
  have dyn: "set (records L ?dz) = dynamic_records L \<sigma> name"
    by (simp add: dynamic_records_def new_zone_empty [OF assms(9)] split: option.splits)
  obtain n where n: "set (records L n) = set (records L st) \<union> set (records L ?dz)" "lApex L n = lApex L st"
    "\<forall>t r answer auth extra result m. query_for L ?s r name \<longrightarrow>
      lLookup L n (wSerials ?s) r (lReqName L r) = (answer, auth, extra, result) \<longrightarrow>
      query_reply L r answer auth extra result = Some m \<longrightarrow> lWriteMsg L m = None \<longrightarrow>
      ServeDNS L t r ?s = (Ret (RcodeSuccess, None),
        emit (merge_locks name @ [ERLock LMerged, ERUnlock LMerged, EWrite m]) ?s)"
    using served_by_merge [OF assms(9) ok at st(2)] by blast
  have ser: "wSerials ?s p = Some (serial_of_s now)" using st(5) by simp
  show ?thesis
    by (intro exI [of _ ?s] exI [of _ st] exI [of _ p] exI [of _ n] conjI zs(1) at(2) st(3,4) ser n(2,3))
      (simp add: n(1) dyn)
qed

subsection \<open>A parser for which the laws hold\<close>

text \<open>
  The sample library with a parser of the lines that the sample cluster's \<open>store_text\<close> prints: a
  first line of the origin and the serial in unary, then names of A records with one address.
\<close>

fun file_lines :: "string \<Rightarrow> string list" where
  "file_lines [] = []"
| "file_lines (c # cs) =
     (if c = nl then [] # file_lines cs
      else case file_lines cs of [] \<Rightarrow> [[c]] | l # ls \<Rightarrow> (c # l) # ls)"

lemma file_lines_line: "nl \<notin> set l \<Longrightarrow> file_lines (l @ nl # cs) = l # file_lines cs"
  by (induction l) auto

definition line_rr :: "string \<Rightarrow> string \<Rightarrow> prr" where
  "line_rr ori l =
     RR_A \<lparr>hName = complete_name ori l, hRrtype = TypeA, hClass = ClassINET, hTtl = 30\<rparr> (Some [10, 0, 0, 10])"

definition line_zone :: "string \<Rightarrow> string \<Rightarrow> string list \<Rightarrow> soa_ptr \<Rightarrow> szone" where
  "line_zone ori f ls p = (s_new ori f)\<lparr>
     szSOA := Some (\<lparr>hName = ori, hRrtype = TypeSOA, hClass = ClassINET, hTtl = 30\<rparr>, p),
     szTree := map (line_rr ori) (filter (\<lambda>l. complete_name ori l \<noteq> ori) ls)\<rparr>"

definition line_parse :: "string \<Rightarrow> string \<Rightarrow> string \<Rightarrow> int \<Rightarrow> serials \<Rightarrow> (string + szone) \<times> serials" where
  "line_parse txt ori f n h =
     (case file_lines txt of
        [] \<Rightarrow> (Inl ''no SOA'', h)
      | l # ls \<Rightarrow>
          (if finite (dom h)
           then let p = (LEAST p. h p = None) in
             (Inr (line_zone ori f ls p), h(p \<mapsto> word_of_nat (length l - length ori)))
           else (Inl ''out of memory'', h)))"

definition line_sample :: "(szone, prr list, Zone list) plugin_lib" where
  "line_sample = sample\<lparr>lParse := line_parse\<rparr>"

definition line_loads :: "string \<Rightarrow> orr \<Rightarrow> bool" where
  "line_loads ori r \<longleftrightarrow> nl \<notin> set (rrname r) \<and>
     (case r of
        RR_SOA h d \<Rightarrow> hName h = ori
      | RR_NS h t \<Rightarrow> hRrtype h = TypeNS \<and> complete_name ori (hName h) = ori
      | RR_A h a \<Rightarrow> hRrtype h = TypeA \<and> hClass h = ClassINET \<and> hTtl h = 30 \<and>
          a = Some [10, 0, 0, 10] \<and> complete_name ori (hName h) \<noteq> ori
      | _ \<Rightarrow> False)"

lemma line_sample_simps [simp]:
  "lParse line_sample = line_parse" "lNewZone line_sample = s_new" "lInsert line_sample = s_insert"
  "lApex line_sample = s_apex" "lExpired line_sample = szExpired" "lNewRR line_sample = s_newrr"
  "lFqdn line_sample = s_fqdn" "kCacheGet line_sample = s_get" "lDelete line_sample = s_delete"
  "lCopy line_sample = (\<lambda>z. z\<lparr>szTree := []\<rparr>)"
  by (simp_all add: line_sample_def)

lemma line_records [simp]: "records line_sample z = records sample z"
  by (simp add: records_def line_sample_def)

lemma line_file_laws: "file_laws line_sample szOrigin (\<lambda>r. r) s_intree"
  using sample_file_laws by (simp add: file_laws_def)

lemma free_cell: "finite (dom h) \<Longrightarrow> h (LEAST p. h p = None) = (None :: u32 option)" for h :: serials
  by (rule LeastI_ex) (metis domIff ex_new_if_finite infinite_UNIV_nat)

lemma line_apex: "apex_soas line_sample (line_zone ori f ls p) = [p]"
  by (simp add: apex_soas_def s_apex_def line_zone_def s_new_def)

lemma line_parse_ok:
  assumes "line_parse t ori f n h = (Inr z, h')"
  shows "\<exists>ls p v. z = line_zone ori f ls p \<and> h p = None \<and> h' = h(p \<mapsto> v)"
  using assms free_cell [of h] by (auto simp: line_parse_def Let_def split: list.splits if_splits)

lemma line_alloc_laws: "alloc_laws line_sample szOrigin"
  unfolding alloc_laws_def
proof (intro conjI allI impI)
  fix t ori f n and h :: serials
  show "h \<subseteq>\<^sub>m snd (lParse line_sample t ori f n h)"
    using free_cell [of h] by (auto simp: line_parse_def map_le_def Let_def split: list.splits)
  fix z h'
  assume "lParse line_sample t ori f n h = (Inr z, h')"
  then obtain ls p v where z: "z = line_zone ori f ls p" "h p = None" "h' = h(p \<mapsto> v)"
    using line_parse_ok by fastforce
  show "szOrigin z = ori" using z(1) by (simp add: line_zone_def s_new_def)
  show "set (apex_soas line_sample z) \<subseteq> dom h' - dom h" using z by (auto simp: line_apex)
next
  fix ori f
  show "apex_soas line_sample (lNewZone line_sample ori f) = []" by (simp add: apex_soas_def s_apex_def s_new_def)
next
  fix s and h :: serials
  show "h \<subseteq>\<^sub>m snd (lNewRR line_sample s h)" by (simp add: s_newrr_def Let_def)
qed

lemma zone_text_Cons: "zone_text A (r # rs) = aString A r @ nl # zone_text A rs"
  by (simp add: zone_text_def)

lemma rest_lines:
  assumes "list_all (line_loads ori) rs" and "list_all (\<lambda>r. as_SOA r = None) rs"
  shows "file_lines (zone_text store_op rs) = map rrname rs"
  using assms
proof (induction rs)
  case Nil
  then show ?case by (simp add: zone_text_def)
next
  case (Cons r rs)
  then have "nl \<notin> set (rrname r)" "aString store_op r = rrname r"
    by (auto simp: line_loads_def store_op_def store_text_def split: rr.splits)
  with Cons show ?case by (simp add: zone_text_Cons file_lines_line)
qed

lemma line_tree:
  assumes "line_loads ori r" and "as_SOA r = None"
  shows "apex_rr ori r \<longleftrightarrow> complete_name ori (rrname r) = ori"
    and "\<not> apex_rr ori r \<Longrightarrow> line_rr ori (rrname r) = file_rr ori r"
proof -
  show apex: "apex_rr ori r \<longleftrightarrow> complete_name ori (rrname r) = ori"
    using assms by (cases r) (auto simp: line_loads_def apex_rr_def)
  show "line_rr ori (rrname r) = file_rr ori r" if na: "\<not> apex_rr ori r"
  proof -
    obtain h where "r = RR_A h (Some [10, 0, 0, 10])" "hRrtype h = TypeA" "hClass h = ClassINET" "hTtl h = 30"
      using assms na by (cases r) (auto simp: line_loads_def apex_rr_def)
    then show ?thesis by (cases h) (simp add: line_rr_def completed_def)
  qed
qed

text \<open>The law of the zone files.\<close>

lemma line_zone_records:
  assumes "list_all (line_loads ori) rs" and "list_all (\<lambda>r. as_SOA r = None) rs"
  shows "set (records line_sample (line_zone ori f (map rrname rs) p)) =
    file_rr ori ` {r \<in> set rs. \<not> apex_rr ori r}"
proof -
  have "s_intree o1 (line_rr ori l)" for o1 l
    by (simp add: s_intree_def line_rr_def type_defs)
  then have "set (records line_sample (line_zone ori f (map rrname rs) p)) =
      line_rr ori ` (rrname ` {r \<in> set rs. complete_name ori (rrname r) \<noteq> ori})"
    by (auto simp: s_records s_recs_def line_zone_def s_new_def)
  also have "\<dots> = (\<lambda>r. line_rr ori (rrname r)) ` {r \<in> set rs. \<not> apex_rr ori r}"
    using assms line_tree(1) by (auto simp: image_image list_all_iff)
  also have "\<dots> = file_rr ori ` {r \<in> set rs. \<not> apex_rr ori r}"
    using assms line_tree(2) by (auto simp: list_all_iff intro!: image_cong)
  finally show ?thesis .
qed

lemma line_zone_file_law: "zone_file_law line_sample store_op (\<lambda>r. r) line_loads"
  unfolding zone_file_law_def
proof (intro allI impI)
  fix ori f and h0 :: rr_header and d and rest :: "orr list" and h :: serials
  assume loads: "list_all (line_loads ori) (RR_SOA h0 d # rest)"
    and rest: "list_all (\<lambda>r. as_SOA r = None) rest" and fin: "finite (dom h)"
  let ?soa = "ori @ replicate (unat (soaSerial d)) (CHR ''1'')" and ?p = "LEAST p. h p = None"
  let ?z = "line_zone ori f (map rrname rest) ?p" and ?h = "h(?p \<mapsto> soaSerial d)"
  have soa: "aString store_op (RR_SOA h0 d) = ?soa" "nl \<notin> set ori"
    using loads by (auto simp: line_loads_def store_op_def store_text_def)
  then have n: "nl \<notin> set ?soa" by (auto simp: nl_def)
  have "zone_text store_op (RR_SOA h0 d # rest) = ?soa @ nl # zone_text store_op rest"
    by (simp add: zone_text_Cons soa(1) del: append_assoc)
  moreover have "file_lines (zone_text store_op rest) = map rrname rest"
    by (rule rest_lines [where ori = ori, OF _ rest]) (use loads in simp)
  ultimately have "file_lines (zone_text store_op (RR_SOA h0 d # rest)) = ?soa # map rrname rest"
    using file_lines_line [OF n] by (simp del: append_assoc)
  then have "lParse line_sample (zone_text store_op (RR_SOA h0 d # rest)) ori f 0 h = (Inr ?z, ?h)"
    using fin by (simp add: line_parse_def Let_def)
  moreover have "set (records line_sample ?z) = (\<lambda>r. file_rr ori r) ` {r \<in> set rest. \<not> apex_rr ori r}"
    by (rule line_zone_records [OF _ rest]) (use loads in simp)
  moreover have "\<not> lExpired line_sample ?z" by (simp add: line_zone_def s_new_def)
  ultimately show "\<exists>z h' p. lParse line_sample (zone_text store_op (RR_SOA h0 d # rest)) ori f 0 h = (Inr z, h') \<and>
      \<not> lExpired line_sample z \<and>
      set (records line_sample z) = (\<lambda>r. file_rr ori r) ` {r \<in> set rest. \<not> apex_rr ori r} \<and>
      apex_soas line_sample z = [p] \<and> h' p = Some (soaSerial d)"
    using line_apex [of ori f "map rrname rest" ?p] by (intro exI conjI) (assumption | simp)+
qed

subsection \<open>A zone that is served\<close>

definition new_plugin :: "Zone list \<Rightarrow> (szone, Zone list) plugin" where
  "new_plugin c = \<lparr>dZones = \<lparr>Z = None, Names = [], DynamicZones = None\<rparr>, dNamespaces = [''d''], dTransfer = True,
     wSerials = Map.empty, wCluster = c, wTrace = []\<rparr>"

theorem declared_records_are_served_witness:
  "\<exists>c' zo \<sigma>' st p. Reconcile_Ksdns store_op 9 ''s3cret'' ''d'' ''k'' Map.empty = Ret (None, c') \<and>
     store_view c' (''Zone'', ''d'', ''a.org'') = Some (OZone zo) \<and>
     Reconcile line_sample ''d'' ''a.org'' (new_plugin [zo]) = (Ret None, \<sigma>') \<and>
     static_at (dZones \<sigma>') ''a.org.'' = Some st \<and>
     RR_A \<lparr>hName = ''www.a.org.'', hRrtype = TypeA, hClass = ClassINET, hTtl = 30\<rparr> (Some [10, 0, 0, 10]) \<in>
       set (records line_sample st) \<and>
     wSerials \<sigma>' p = Some 9"
proof -
  obtain c' where run: "Reconcile_Ksdns store_op 9 ''s3cret'' ''d'' ''k'' Map.empty = Ret (None, c')"
    using store_reconciles by blast
  have zs: "ksZones (ksSpec store_ksdns) = [] @ store_zone # []" "kzOrigin store_zone \<notin> kzOrigin ` set ([] @ [])"
    by simp_all
  obtain zo where zo: "store_view c' (''Zone'', ''d'', ''a.org'') = Some (OZone zo)"
    using reconciled_zone [OF store_laws store_seen run zs store_zone_file store_zone_written refl] by auto
  let ?s = "new_plugin [zo]"
  have z: "kzOrigin store_zone \<noteq> ''''" "\<forall>r \<in> set (kzRecords store_zone). supported_type (rcType r)" by simp_all
  have ok: "plugin_ok szOrigin ?s" by (simp add: plugin_ok_def new_plugin_def zones_ok_nil_maps)
  have dots: "show4 10 0 0 10 = ''10.0.0.10''" by (simp add: show4_def decimal.simps dec_char_def zero_char one_char)
  have addr: "ParseIP ''10.0.0.10'' = Some [10, 0, 0, 10]" by (rule ParseIP_show4 [of 10 0 0 10, unfolded dots])
  have loads: "list_all (line_loads ''a.org.'') (zone_rrs store_op 9 store_zone (Some [10, 0, 0, 10]))"
    by (simp add: zone_rrs_def store_op_def s_fqdn_def nsName_def line_loads_def nl_def complete_name_def Let_def
        user_rr_def user_header_def ex_record_def type_defs addr)
  have ser: "serial_of_s 9 \<noteq> 0" "finite (dom (wSerials ?s))" by (simp_all add: serial_of_s_def new_plugin_def)
  have name: "''a.org.'' = aFqdn store_op (kzOrigin store_zone)" "''a.org.'' = lFqdn line_sample (kzOrigin store_zone)"
    "''a.org.'' \<noteq> []" "last ''a.org.'' = CHR ''.''"
    by (simp_all add: store_op_def s_fqdn_def)
  have key: "omNamespace (zMeta zo) = ''d''" "omName (zMeta zo) = ''a.org''"
    using client_key [OF store_laws, OF zo] by simp_all
  have cache: "\<forall>z1. store_view c' (''Zone'', ks_ns store_ksdns, kzOrigin store_zone) = Some (OZone z1) \<longrightarrow>
      kCacheGet line_sample (wCluster ?s) (ks_ns store_ksdns) (kzOrigin store_zone) = Inr z1 \<and>
      \<not> (isDeleting z1 \<and> ''a.org.'' \<in> set (Names (dZones ?s)))"
    using zo key by (simp add: s_get_def new_plugin_def)
  obtain \<sigma>' st p where r: "Reconcile line_sample (ks_ns store_ksdns) (kzOrigin store_zone) ?s = (Ret None, \<sigma>')"
    "static_at (dZones \<sigma>') ''a.org.'' = Some st" "set (records line_sample st) =
      (\<lambda>r. file_rr ''a.org.'' r) ` set (zone_contents store_op store_zone (Some [10, 0, 0, 10]))"
    "wSerials \<sigma>' p = Some (serial_of_s 9)"
    using declared_records_are_served [where view = store_view and K = store_op and L = line_sample and origin = szOrigin
        and norm = "\<lambda>r. r" and loads = line_loads and \<sigma> = ?s and c' = c' and z = store_zone, OF store_laws store_seen run zs store_zone_written z
        line_file_laws line_alloc_laws ok line_zone_file_law loads ser name cache] by blast
  have "RR_A \<lparr>hName = ''www.a.org.'', hRrtype = TypeA, hClass = ClassINET, hTtl = 30\<rparr> (Some [10, 0, 0, 10]) \<in>
      set (records line_sample st)"
    unfolding r(3) by (simp add: zone_contents_def user_rr_def user_header_def ex_record_def completed_def complete_name_def addr)
  with run zo r show ?thesis by (auto simp: serial_of_s_def)
qed

end
