(* ===== verification/NameClash.thy ===== *)
theory NameClash
  imports Initialize
begin

text \<open>
  Two Zone objects of one name in two namespaces.  The plugin keys its table by the name alone
  (\<open>setup.go\<close>, \<open>zone_controller.go\<close>), so the objects share one entry: start-up takes the zone file
  of the first namespace and the dynamic records of both, a reconcile the zone file of the
  object that changed last.
\<close>

subsection \<open>Loading a status into a zone that is there\<close>

text \<open>A status that holds the texts of records, as \<open>SetDynamicRRs\<close> and the plugin write it.\<close>

definition texts_of :: "('z, 'e, 'm) dns_lib_scheme \<Rightarrow> serials \<Rightarrow> prr list \<Rightarrow> DynamicRR list" where
  "texts_of L h0 rs = map (\<lambda>r. \<lparr>RR = lRRString L h0 r\<rparr>) rs"

lemma init_status_texts:
  assumes laws: "file_laws L origin norm intree" "alloc_laws L origin" "text_laws L printable"
    and inv: "init_inv L origin (zs, h)" and d: "dynamic_at zs zone = Some d" "origin d = zone"
    and obj: "zone_key L obj = zone" "DynamicRRs (zStatus obj) = texts_of L h0 rs"
    and rs: "\<forall>r \<in> set rs. printable r \<and> intree zone r"
  shows "\<exists>d' zs'. init_status L obj (zs, h) = (None, (zs', h)) \<and> init_inv L origin (zs', h) \<and>
    Names zs' = Names zs \<and> Z zs' = Z zs \<and> dynamic_at zs' zone = Some d' \<and> origin d' = zone \<and>
    set (records L d') = set (records L d) \<union> norm ` set rs"
proof -
  have load: "for_each (load_rr L) (DynamicRRs (zStatus obj)) (d, h) = (None, (fold (\<lambda>r z. snd (lInsert L z r)) rs d, h))"
    using load_printed [OF laws(3)] rs obj(2) by (simp add: texts_of_def)
  have tree: "r \<in> set rs \<Longrightarrow> intree (origin d) r" for r using rs d(2) by simp
  note ins = insert_list [OF laws(1), of rs d, OF tree]
  have known: "zone \<in> set (Names zs)" using inv d(1) zt.inv_dynamic [of origin zs zone] by (auto simp: init_inv_def)
  show ?thesis
    by (rule init_status_step [OF laws(1,2) inv obj(1) [symmetric]])
      (use known d load ins obj(1) in \<open>auto simp: set_dynamic_def\<close>)
qed

subsection \<open>Start-up with two namespaces\<close>

text \<open>The first object is entered with its zone file and its records.\<close>

lemma first_namespace:
  assumes laws: "file_laws L origin norm intree" "alloc_laws L origin" "text_laws L printable"
    and list: "kList L c n = Inr [obj]" and key: "zone_key L obj = zone"
    and parse: "lParse L (spZone (zSpec obj)) zone ''stdin'' 0 h = (Inr p, h1)"
    and texts: "DynamicRRs (zStatus obj) = texts_of L h0 rs" "\<forall>r \<in> set rs. printable r \<and> intree zone r"
  shows "\<exists>zs d. init_namespace L c n (no_zones, h) = (None, (zs, h1)) \<and> init_inv L origin (zs, h1) \<and>
    Names zs = [zone] \<and> static_at zs zone = Some p \<and> dynamic_at zs zone = Some d \<and> origin d = zone \<and>
    set (records L d) = norm ` set rs"
proof -
  obtain zs1 where 1: "init_zone L obj (no_zones, h) = (None, (zs1, h1))" "init_inv L origin (zs1, h1)"
    "Names zs1 = [zone]" "static_at zs1 zone = Some p" "dynamic_at zs1 zone = Some (lNewZone L zone '''')"
    by (rule init_zone_step [OF laws(1,2) init_inv_start key [symmetric], of h])
      (use parse in \<open>auto simp: no_zones_def\<close>)
  obtain d zs2 where "init_status L obj (zs1, h1) = (None, (zs2, h1))" "init_inv L origin (zs2, h1)"
    "Names zs2 = Names zs1" "Z zs2 = Z zs1" "dynamic_at zs2 zone = Some d" "origin d = zone"
    "set (records L d) = set (records L (lNewZone L zone '''')) \<union> norm ` set rs"
    using init_status_texts [OF laws 1(2,5) _ key texts] new_zone_empty(2) [OF laws(1)] by auto
  moreover have "set (records L (lNewZone L zone '''')) = {}"
    using new_zone_empty(1) [OF laws(1)] by simp
  ultimately show ?thesis using 1 list by (auto simp: init_namespace_def)
qed

text \<open>The second object adds its records only.\<close>

lemma second_namespace:
  assumes laws: "file_laws L origin norm intree" "alloc_laws L origin" "text_laws L printable"
    and inv: "init_inv L origin (zs, h)" and d: "dynamic_at zs zone = Some d" "origin d = zone"
    and list: "kList L c n = Inr [obj]" and key: "zone_key L obj = zone"
    and texts: "DynamicRRs (zStatus obj) = texts_of L h0 rs" "\<forall>r \<in> set rs. printable r \<and> intree zone r"
  shows "\<exists>zs' d'. init_namespace L c n (zs, h) = (None, (zs', h)) \<and> init_inv L origin (zs', h) \<and>
    Names zs' = Names zs \<and> Z zs' = Z zs \<and> dynamic_at zs' zone = Some d' \<and>
    set (records L d') = set (records L d) \<union> norm ` set rs"
proof -
  have "gm_get (Z zs) zone \<noteq> None"
    using inv d(1) zt.inv_dynamic [of origin zs zone] zones_ok_names [of origin zs zone] by (auto simp: init_inv_def)
  then have "init_zone L obj (zs, h) = (None, (zs, h))" by (auto simp: init_zone_def Let_def key)
  then show ?thesis
    using init_status_texts [OF laws inv d key texts] list by (auto simp: init_namespace_def)
qed

subsection \<open>Properties\<close>

text \<open>
  C21: objects of one name in two namespaces share a zone.  Start-up serves the zone file of the
  first namespace with the dynamic records of both statuses: a record that an update deletes,
  and that only the second status holds, comes back, since updates are stored in the object of
  the first namespace.  A reconcile of the second object then puts its zone file in place of the
  first one's, so which of the two is served depends on what happened last.
\<close>

theorem same_name_shares_zone:
  assumes "file_laws L origin norm intree" and "alloc_laws L origin" and "text_laws L printable"
    and "kList L c n1 = Inr [o1]" and "kList L c n2 = Inr [o2]"
    and "zone_key L o1 = zone" and "zone_key L o2 = zone"
    and "DynamicRRs (zStatus o1) = texts_of L h0 rs1" and "DynamicRRs (zStatus o2) = texts_of L h0 rs2"
    and "\<forall>r \<in> set (rs1 @ rs2). printable r \<and> intree zone r"
    and "lParse L (spZone (zSpec o1)) zone ''stdin'' 0 h = (Inr p1, h1)"
    and "lParse L (spZone (zSpec o2)) zone ''stdin'' 0 h1 = (Inr p2, h2)"
    and "kCacheGet L c n2 nm = Inr o2" and "\<not> isDeleting o2"
  shows "\<exists>zs d. initialize L [[n1, n2]] c h = (Ret (Inr zs), [n1, n2], h1) \<and>
    Names zs = [zone] \<and> static_at zs zone = Some p1 \<and>
    dynamic_at zs zone = Some d \<and> set (records L d) = norm ` (set rs1 \<union> set rs2) \<and>
    static_at (dZones (snd (Reconcile L n2 nm (start_plugin [n1, n2] zs h1 c)))) zone = Some p2 \<and>
    dynamic_at (dZones (snd (Reconcile L n2 nm (start_plugin [n1, n2] zs h1 c)))) zone = Some d"
proof -
  note laws = assms(1-3)
  have rs: "\<forall>r \<in> set rs1. printable r \<and> intree zone r" "\<forall>r \<in> set rs2. printable r \<and> intree zone r"
    using assms(10) by auto
  obtain zs1 d1 where 1: "init_namespace L c n1 (no_zones, h) = (None, (zs1, h1))" "init_inv L origin (zs1, h1)"
    "Names zs1 = [zone]" "static_at zs1 zone = Some p1" "dynamic_at zs1 zone = Some d1" "origin d1 = zone"
    "set (records L d1) = norm ` set rs1"
    using first_namespace [OF laws assms(4,6,11,8) rs(1)] by blast
  obtain zs2 d2 where 2: "init_namespace L c n2 (zs1, h1) = (None, (zs2, h1))" "init_inv L origin (zs2, h1)"
    "Names zs2 = Names zs1" "Z zs2 = Z zs1" "dynamic_at zs2 zone = Some d2"
    "set (records L d2) = set (records L d1) \<union> norm ` set rs2"
    using second_namespace [OF laws 1(2,5,6) assms(5,7,9) rs(2)] by blast
  have init: "initialize L [[n1, n2]] c h = (Ret (Inr zs2), [n1, n2], h1)"
    using 1(1) 2(1) by (simp add: initialize_def)
  let ?s = "start_plugin [n1, n2] zs2 h1 c"
  have ok: "plugin_ok origin ?s" using 2(2) by (simp add: plugin_ok_def start_plugin_def init_inv_def)
  have "Reconcile L n2 nm ?s = locked_upsert L o2 ?s"
    using Reconcile_upsert [of L ?s n2 nm o2] assms(13,14) by (simp add: start_plugin_def)
  moreover have "lParse L (spZone (zSpec o2)) zone ''stdin'' 0 (wSerials ?s) = (Inr p2, h2)"
    using assms(12) by (simp add: start_plugin_def)
  ultimately obtain zs' where zs': "dZones (snd (Reconcile L n2 nm ?s)) = zs'" "static_at zs' zone = Some p2"
    "dynamic_at zs' = (dynamic_at (dZones ?s))(zone \<mapsto>
       (case dynamic_at (dZones ?s) zone of None \<Rightarrow> lNewZone L zone '''' | Some d \<Rightarrow> d))"
    using locked_upsert_ok [OF laws(1,2) ok assms(7) [symmetric]] by fastforce
  have "dynamic_at zs' zone = Some d2" using zs'(3) 2(5) by (simp add: start_plugin_def)
  with init 1 2 zs' show ?thesis by (auto simp: image_Un)
qed

text \<open>The object of \<open>ex_obj\<close>'s name in another namespace, with another zone file and a record.\<close>

definition ex_other :: Zone where
  "ex_other = \<lparr>zMeta = ex_meta\<lparr>omNamespace := ''e''\<rparr>, zSpec = \<lparr>spZone = ''other''\<rparr>,
     zStatus = \<lparr>DynamicRRs = texts_of sample Map.empty [ex_txt ClassINET], Serial = 0\<rparr>\<rparr>"

theorem same_name_shares_zone_witness:
  "\<exists>zs h p1 p2 d. initialize sample [[''d'', ''e'']] [ex_obj, ex_other] Map.empty = (Ret (Inr zs), [''d'', ''e''], h) \<and>
     static_at zs ''a.org.'' = Some p1 \<and> dynamic_at zs ''a.org.'' = Some d \<and>
     set (records sample d) = {ex_txt ClassINET} \<and>
     static_at (dZones (snd (Reconcile sample ''e'' ''a.org'' (start_plugin [''d'', ''e''] zs h [ex_obj, ex_other])))) ''a.org.''
       = Some p2"
proof -
  let ?c = "[ex_obj, ex_other]" and ?z = "''a.org.''"
  have list: "kList sample ?c ''d'' = Inr [ex_obj]" "kList sample ?c ''e'' = Inr [ex_other]"
    by (simp_all add: s_list_def ex_obj_def ex_other_def ex_meta_def)
  have key: "zone_key sample ex_obj = ?z" "zone_key sample ex_other = ?z"
    by (simp_all add: s_fqdn_def ex_obj_def ex_other_def ex_meta_def)
  have texts: "DynamicRRs (zStatus ex_obj) = texts_of sample Map.empty []"
    "DynamicRRs (zStatus ex_other) = texts_of sample Map.empty [ex_txt ClassINET]"
    by (simp_all add: texts_of_def ex_obj_def ex_other_def)
  have rs: "\<forall>r \<in> set ([] @ [ex_txt ClassINET]). s_printable r \<and> s_intree ?z r"
    by (simp add: s_printable_def s_intree_def ex_txt_def type_defs)
  obtain p1 h1 where 1: "lParse sample (spZone (zSpec ex_obj)) ?z ''stdin'' 0 Map.empty = (Inr p1, h1)"
    "h1 = [0 \<mapsto> word_of_nat 4]"
    by (simp add: s_parse_def ex_obj_def upt_rec)
  obtain p2 h2 where 2: "lParse sample (spZone (zSpec ex_other)) ?z ''stdin'' 0 h1 = (Inr p2, h2)"
    by (simp add: s_parse_def ex_other_def upt_rec 1(2))
  have get: "kCacheGet sample ?c ''e'' ''a.org'' = Inr ex_other"
    by (simp add: s_get_def ex_obj_def ex_other_def ex_meta_def)
  have live: "\<not> isDeleting ex_other" by (simp add: isDeleting_def ex_other_def ex_meta_def)
  from same_name_shares_zone [OF sample_file_laws sample_alloc_laws sample_text_laws list key texts rs 1(1) 2 get live]
  show ?thesis by auto
qed

end
