(* ===== verification/Removal.thy ===== *)
theory Removal
  imports PluginMachine
begin

text \<open>
  How zones leave the table: only by the reconciliation of an object that is found and has a
  deletion timestamp.  A zone whose object is gone before the controller sees such a timestamp
  (an object without finalizers goes at once) is served from then on.
\<close>

subsection \<open>Objects of a zone\<close>

text \<open>
  No object of the zone is being deleted, and there is no object of the zone at all, in what the
  manager's client shows.
\<close>

definition undeleted :: "('z, 'e, 'c, 'm) plugin_lib_scheme \<Rightarrow> string \<Rightarrow> ('z, 'c) plugin \<Rightarrow> bool" where
  "undeleted L name \<sigma> \<longleftrightarrow>
     (\<forall>ns nm obj. kCacheGet L (wCluster \<sigma>) ns nm = Inr obj \<longrightarrow> lFqdn L (omName (zMeta obj)) = name \<longrightarrow>
        \<not> isDeleting obj)"

definition gone :: "('z, 'e, 'c, 'm) plugin_lib_scheme \<Rightarrow> string \<Rightarrow> ('z, 'c) plugin \<Rightarrow> bool" where
  "gone L name \<sigma> \<longleftrightarrow>
     (\<forall>ns nm obj. kCacheGet L (wCluster \<sigma>) ns nm = Inr obj \<longrightarrow> lFqdn L (omName (zMeta obj)) \<noteq> name)"

lemma gone_undeleted: "gone L name \<sigma> \<Longrightarrow> undeleted L name \<sigma>"
  by (auto simp: gone_def undeleted_def)

subsection \<open>One step\<close>

definition keeps :: "bool \<Rightarrow> string \<Rightarrow> ('z, 'c) plugin \<Rightarrow> ('z, 'c) plugin \<Rightarrow> bool" where
  "keeps same name \<sigma> \<sigma>' \<longleftrightarrow>
     name \<in> set (Names (dZones \<sigma>')) \<and> (same \<longrightarrow> static_at (dZones \<sigma>') name = static_at (dZones \<sigma>) name)"

lemma upsert_keeps:
  assumes laws: "file_laws L origin norm intree" "alloc_laws L origin" and ok: "plugin_ok origin \<sigma>"
    and name: "name \<in> set (Names (dZones \<sigma>))"
  shows "keeps (lFqdn L (omName (zMeta obj)) \<noteq> name) name \<sigma> (snd (locked_upsert L obj \<sigma>))"
proof (cases "lParse L (spZone (zSpec obj)) (lFqdn L (omName (zMeta obj))) ''stdin'' 0 (wSerials \<sigma>)")
  case (Pair pr h)
  show ?thesis
  proof (cases pr)
    case (Inl e)
    then show ?thesis using locked_upsert_fail [of L obj \<sigma> e h] Pair name by (simp add: keeps_def ptr_at_def)
  next
    case (Inr p)
    then show ?thesis using locked_upsert_ok [OF laws ok refl, of obj p h] Pair name by (auto simp: keeps_def)
  qed
qed

lemma Reconcile_keeps:
  assumes laws: "file_laws L origin norm intree" "alloc_laws L origin" and ok: "plugin_ok origin \<sigma>"
    and name: "name \<in> set (Names (dZones \<sigma>))" and obj: "undeleted L name \<sigma>"
  shows "keeps (gone L name \<sigma>) name \<sigma> (snd (Reconcile L ns nm \<sigma>))"
proof (cases "kCacheGet L (wCluster \<sigma>) ns nm")
  case (Inl e)
  then show ?thesis using name by (simp add: Reconcile_get_error keeps_def)
next
  case (Inr zone)
  let ?n = "lFqdn L (omName (zMeta zone))"
  show ?thesis
  proof (cases "isDeleting zone \<and> gm_get (Z (dZones \<sigma>)) ?n \<noteq> None")
    case True
    then have "?n \<noteq> name" using obj Inr by (auto simp: undeleted_def)
    then show ?thesis using Reconcile_delete [OF Inr] True name by (simp add: keeps_def)
  next
    case False
    have "gone L name \<sigma> \<longrightarrow> ?n \<noteq> name" using Inr by (simp add: gone_def)
    then show ?thesis
      using upsert_keeps [OF laws ok name, of zone] Reconcile_upsert [OF Inr False] by (auto simp: keeps_def)
  qed
qed

lemma step_keeps:
  assumes lib: "lib_ok L origin norm intree" and "plugin_step L \<sigma> \<sigma>'" and inv: "plugin_inv L origin \<sigma>"
    and name: "name \<in> set (Names (dZones \<sigma>))" and obj: "undeleted L name \<sigma>"
  shows "keeps (gone L name \<sigma>) name \<sigma> \<sigma>'"
proof -
  have laws: "file_laws L origin norm intree" "alloc_laws L origin" "match_laws L" and ok: "plugin_ok origin \<sigma>"
    using lib inv by (simp_all add: lib_ok_def plugin_inv_def)
  from assms(2) show ?thesis
  proof (rule plugin_stepE)
    fix now r
    assume "\<sigma>' = snd (ServeDNS L now r \<sigma>)"
    then show ?thesis using ServeDNS_safe(4,5) [OF laws(1,3) ok] name by (simp add: keeps_def)
  next
    fix ns nm
    assume "\<sigma>' = snd (Reconcile L ns nm \<sigma>)"
    then show ?thesis using Reconcile_keeps [OF laws(1,2) ok name obj] by simp
  next
    fix zone serial
    assume "\<sigma>' = snd (Transfer L zone serial \<sigma>)"
    then show ?thesis using name by (simp add: keeps_def Transfer_state)
  next
    fix c
    assume "\<sigma>' = \<sigma>\<lparr>wCluster := c\<rparr>"
    then show ?thesis using name by (simp add: keeps_def)
  qed
qed

subsection \<open>Runs\<close>

lemma run_keeps:
  assumes "lib_ok L origin norm intree"
    and "(\<lambda>s s'. P s \<and> plugin_step L s s')\<^sup>*\<^sup>* \<sigma> \<sigma>'"
    and "\<And>s. P s \<Longrightarrow> undeleted L name s" and "\<And>s. same \<Longrightarrow> P s \<Longrightarrow> gone L name s"
    and "plugin_inv L origin \<sigma>" and "name \<in> set (Names (dZones \<sigma>))"
  shows "keeps same name \<sigma> \<sigma>' \<and> plugin_inv L origin \<sigma>'"
  using assms(2)
proof (induction rule: rtranclp_induct)
  case base
  then show ?case using assms(5,6) by (simp add: keeps_def)
next
  case (step s s')
  then have s: "P s" "plugin_step L s s'" and IH: "keeps same name \<sigma> s" "plugin_inv L origin s" by simp_all
  have n: "name \<in> set (Names (dZones s))" using IH(1) by (simp add: keeps_def)
  have "keeps (gone L name s) name s s'" by (rule step_keeps [OF assms(1) s(2) IH(2) n assms(3) [OF s(1)]])
  moreover have "same \<longrightarrow> gone L name s" using assms(4) s(1) by blast
  ultimately have "keeps same name \<sigma> s'" using IH(1) by (simp add: keeps_def)
  with step_inv [OF assms(1) s(2) IH(2)] show ?case by blast
qed

text \<open>
  C14: a zone leaves the table only by a deletion the controller sees.  In every run in which the
  client never shows an object of the zone with a deletion timestamp, a zone that is in the table
  stays there, with both its parts.  And when its object is gone for good, the static zone stays
  the one of the last zone file, whatever requests, transfers, reconciles and changes of the
  cluster follow, the reconcile that the deletion itself asks for included.
\<close>

theorem zone_outlives_object:
  assumes "lib_ok L origin norm intree" and "plugin_inv L origin \<sigma>" and "name \<in> set (Names (dZones \<sigma>))"
  shows "((\<lambda>s s'. undeleted L name s \<and> plugin_step L s s')\<^sup>*\<^sup>* \<sigma> \<sigma>' \<longrightarrow>
      name \<in> set (Names (dZones \<sigma>')) \<and> static_at (dZones \<sigma>') name \<noteq> None \<and> dynamic_at (dZones \<sigma>') name \<noteq> None) \<and>
    ((\<lambda>s s'. gone L name s \<and> plugin_step L s s')\<^sup>*\<^sup>* \<sigma> \<sigma>' \<longrightarrow>
      name \<in> set (Names (dZones \<sigma>')) \<and> static_at (dZones \<sigma>') name = static_at (dZones \<sigma>) name)"
proof (intro conjI impI)
  assume "(\<lambda>s s'. undeleted L name s \<and> plugin_step L s s')\<^sup>*\<^sup>* \<sigma> \<sigma>'"
  from run_keeps [where same = False, OF assms(1) this _ _ assms(2,3)]
  have k: "name \<in> set (Names (dZones \<sigma>'))" and "plugin_inv L origin \<sigma>'" by (simp_all add: keeps_def)
  then have "zones_ok origin (dZones \<sigma>')" by (simp add: plugin_inv_def plugin_ok_def)
  with k known_pointers(1,2) [of origin "dZones \<sigma>'" name]
  show "name \<in> set (Names (dZones \<sigma>'))" "static_at (dZones \<sigma>') name \<noteq> None" "dynamic_at (dZones \<sigma>') name \<noteq> None"
    by auto
next
  assume "(\<lambda>s s'. gone L name s \<and> plugin_step L s s')\<^sup>*\<^sup>* \<sigma> \<sigma>'"
  from run_keeps [where same = True, OF assms(1) this gone_undeleted _ assms(2,3)]
  show "name \<in> set (Names (dZones \<sigma>'))" "static_at (dZones \<sigma>') name = static_at (dZones \<sigma>) name"
    by (simp_all add: keeps_def)
qed

text \<open>The object of the zone \<open>a.org.\<close> is deleted, and the controller is asked to reconcile it.\<close>

theorem zone_outlives_object_witness:
  "Reconcile sample ''d'' ''a.org'' (ex_plugin\<lparr>wCluster := []\<rparr>) = (Ret None, ex_plugin\<lparr>wCluster := []\<rparr>) \<and>
   static_at (dZones (snd (Reconcile sample ''d'' ''a.org'' (ex_plugin\<lparr>wCluster := []\<rparr>)))) ''a.org.'' = Some ex_zone"
proof -
  let ?s = "ex_plugin\<lparr>wCluster := []\<rparr>"
  have lib: "lib_ok sample szOrigin (\<lambda>r. r) s_intree"
    by (simp add: lib_ok_def sample_file_laws sample_alloc_laws sample_match_laws)
  have "soas_ok sample ex_zones [0 \<mapsto> 4]"
    by (auto simp: soas_ok_def ex_zones_def ptr_at_def gm_get_def apex_soas_def split: if_splits)
  then have inv: "plugin_inv sample szOrigin ?s"
    using ex_plugin_ok by (simp add: plugin_inv_def plugin_ok_def balanced_def)
  have known: "''a.org.'' \<in> set (Names (dZones ?s))" by simp
  have "gone sample ''a.org.'' ?s" by (simp add: gone_def s_get_def)
  then have "(\<lambda>s s'. gone sample ''a.org.'' s \<and> plugin_step sample s s')\<^sup>*\<^sup>* ?s (snd (Reconcile sample ''d'' ''a.org'' ?s))"
    using plugin_step.reconcile by (intro r_into_rtranclp) blast
  with zone_outlives_object [OF lib inv known, of "snd (Reconcile sample ''d'' ''a.org'' ?s)"]
  have "static_at (dZones (snd (Reconcile sample ''d'' ''a.org'' ?s))) ''a.org.'' = static_at (dZones ?s) ''a.org.''"
    by blast
  then show ?thesis by (simp add: Reconcile_get_error s_get_def)
qed

end
