(* ===== verification/Failover.thy ===== *)
theory Failover
  imports ZoneController
begin

text \<open>
  Two update servers over one cluster.  The second has built its table of zones before the first
  accepts an update, and then takes over: what it serves, and what its own updates store.
\<close>

lemma updates_spec_bound: "updates_spec isdom norm rs S \<subseteq> S \<union> norm ` set rs"
  by (induction rs arbitrary: S) (fastforce simp: update_spec_def split: if_splits)+

subsection \<open>Properties\<close>

text \<open>
  C28: the server that takes over loses the updates of the one before.  Let a server answer an
  update with success, and let a second one, which knows the zone already and acts on the same
  cluster, be asked to reconcile the object the first one has written.  The reconcile reads the
  zone file only: the dynamic zone of the second server stays what it was.  When this server
  then accepts an update, the status it stores has the records of its own dynamic zone, updated;
  a record the first server has added is in neither, unless the second one knew it or the new
  update adds it again.
\<close>

theorem failover_loses_updates:
  assumes "file_laws L origin norm intree" and "alloc_laws L origin"
    and "plugin_ok origin \<sigma>1" and "update_for L \<sigma>1 r1 zone" and "accepts L r1"
    and "dynamic_at (dZones \<sigma>1) zone = Some d1" and "static_at (dZones \<sigma>1) zone = Some z1"
    and "ServeDNS L t1 r1 \<sigma>1 = (Ret (RcodeSuccess, None), \<sigma>1')"
    and "plugin_ok origin \<sigma>2" and "dynamic_at (dZones \<sigma>2) zone = Some d2" and "wCluster \<sigma>2 = wCluster \<sigma>1'"
    and "kCacheGet L (wCluster \<sigma>2) ns nm = Inr obj" and "zone = lFqdn L (omName (zMeta obj))"
    and "\<not> isDeleting obj" and "lParse L (spZone (zSpec obj)) zone ''stdin'' 0 (wSerials \<sigma>2) = (Inr p, h)"
    and "Reconcile L ns nm \<sigma>2 = (Ret None, \<sigma>2')"
    and "update_for L \<sigma>2' r2 zone" and "accepts L r2"
    and "ServeDNS L t2 r2 \<sigma>2' = (Ret (RcodeSuccess, None), \<sigma>2'')"
  shows "\<exists>d1' d2' obj'. dynamic_at (dZones \<sigma>1') zone = Some d1' \<and>
    set (records L d1') = updates_spec (lIsDomainName L) norm (Ns r1) (set (records L d1)) \<and>
    dynamic_at (dZones \<sigma>2') zone = Some d2 \<and>
    dynamic_at (dZones \<sigma>2'') zone = Some d2' \<and>
    set (records L d2') = updates_spec (lIsDomainName L) norm (Ns r2) (set (records L d2)) \<and>
    kStatusUpdate L (wCluster \<sigma>1') obj' = (None, wCluster \<sigma>2'') \<and>
    DynamicRRs (zStatus obj') = map (\<lambda>rr. \<lparr>RR = lRRString L (wSerials \<sigma>2') rr\<rparr>) (records L d2') \<and>
    (\<forall>rr \<in> set (records L d1'). rr \<notin> set (records L d2) \<longrightarrow> rr \<notin> norm ` set (Ns r2) \<longrightarrow>
      rr \<notin> set (records L d2'))"
proof -
  obtain d1' where first: "dynamic_at (dZones \<sigma>1') zone = Some d1'"
    "set (records L d1') = updates_spec (lIsDomainName L) norm (Ns r1) (set (records L d1))"
    by (rule update_stored [OF assms(1,3-8)])
  have live: "\<not> (isDeleting obj \<and> zone \<in> set (Names (dZones \<sigma>2)))" using assms(14) by simp
  obtain zs where R: "Reconcile L ns nm \<sigma>2 =
      (Ret None, emit [ELock LZones, ENotify zone, EUnlock LZones] (\<sigma>2\<lparr>dZones := zs, wSerials := h\<rparr>))"
    and zs: "zones_ok origin zs" "static_at zs = (static_at (dZones \<sigma>2))(zone \<mapsto> p)"
      "dynamic_at zs = (dynamic_at (dZones \<sigma>2))(zone \<mapsto>
        (case dynamic_at (dZones \<sigma>2) zone of None \<Rightarrow> lNewZone L zone '''' | Some d \<Rightarrow> d))"
    using reconcile_entered [OF assms(1,2,9,12,13) live assms(15)] by (elim exE conjE)
  have s2: "\<sigma>2' = emit [ELock LZones, ENotify zone, EUnlock LZones] (\<sigma>2\<lparr>dZones := zs, wSerials := h\<rparr>)"
    using R assms(16) by simp
  have ok: "plugin_ok origin \<sigma>2'" and dyn: "dynamic_at (dZones \<sigma>2') zone = Some d2"
    and st: "static_at (dZones \<sigma>2') zone = Some p" and cl: "wCluster \<sigma>2' = wCluster \<sigma>1'"
    using zs assms(10,11) by (simp_all add: s2 plugin_ok_def)
  note st2 = update_stored [OF assms(1) ok assms(17,18) dyn st assms(19), unfolded cl]
  obtain d2' obj' where second: "dynamic_at (dZones \<sigma>2'') zone = Some d2'"
    "set (records L d2') = updates_spec (lIsDomainName L) norm (Ns r2) (set (records L d2))"
    "kStatusUpdate L (wCluster \<sigma>1') obj' = (None, wCluster \<sigma>2'')"
    "DynamicRRs (zStatus obj') = map (\<lambda>rr. \<lparr>RR = lRRString L (wSerials \<sigma>2') rr\<rparr>) (records L d2')"
    by (rule st2)
  have "set (records L d2') \<subseteq> set (records L d2) \<union> norm ` set (Ns r2)"
    unfolding second(2) by (rule updates_spec_bound)
  then have "\<forall>rr \<in> set (records L d1'). rr \<notin> set (records L d2) \<longrightarrow> rr \<notin> norm ` set (Ns r2) \<longrightarrow>
      rr \<notin> set (records L d2')" by blast
  then show ?thesis
    by (intro exI [of _ d1'] exI [of _ d2'] exI [of _ obj'] conjI first dyn second)
qed

text \<open>
  Two servers of the sample cluster: the first adds a record; the second is asked to reconcile
  the object and then takes an update without records, which stores a status without the record.
\<close>

definition ex_standby :: "Zone list \<Rightarrow> (szone, Zone list) plugin" where
  "ex_standby c = ex_plugin\<lparr>wCluster := c\<rparr>"

lemma ex_standby_simps [simp]:
  "dZones (ex_standby c) = ex_zones" "dNamespaces (ex_standby c) = [''d'']" "wSerials (ex_standby c) = [0 \<mapsto> 4]"
  "wCluster (ex_standby c) = c"
  by (simp_all add: ex_standby_def)

lemma ex_stored_cluster:
  assumes "s_status_update [ex_obj] obj' = (None, c)" and "zMeta obj' = ex_meta"
  shows "c = [ex_obj\<lparr>zStatus := zStatus obj', zMeta := ex_meta\<lparr>omVersion := ''1i''\<rparr>\<rparr>]"
  using assms by (auto simp: s_status_update_def same_object_def ex_obj_def ex_meta_def split: if_splits)

text \<open>The standby takes an empty update.\<close>

lemma ex_empty_update:
  assumes "plugin_ok szOrigin \<sigma>" and "update_for sample \<sigma> (ex_msg OpcodeUpdate []) ''a.org.''"
    and "dynamic_at (dZones \<sigma>) ''a.org.'' = Some dz" and "static_at (dZones \<sigma>) ''a.org.'' = Some z"
    and "lApex sample z = Inr apex" and "dNamespaces \<sigma> = [''d'']"
    and "wCluster \<sigma> = [ex_obj\<lparr>zStatus := st, zMeta := ex_meta\<lparr>omVersion := v\<rparr>\<rparr>]"
  shows "\<exists>\<sigma>'. ServeDNS sample 6 (ex_msg OpcodeUpdate []) \<sigma> = (Ret (RcodeSuccess, None), \<sigma>')"
proof -
  let ?obj = "ex_obj\<lparr>zStatus := st, zMeta := ex_meta\<lparr>omVersion := v\<rparr>\<rparr>"
  have find: "find_zone sample (wCluster \<sigma>) (trim_dot ''a.org.'') (dNamespaces \<sigma>) = Some ?obj"
    by (simp add: assms(6,7) trim_dot_def s_get_def ex_obj_def ex_meta_def)
  have acc: "accepts sample (ex_msg OpcodeUpdate [])" by (simp add: accepts_def ex_msg_def)
  have wr: "lWriteMsg sample m = None" for m by simp
  let ?st = "\<lambda>d. new_status sample (wSerials \<sigma>) d (serial_of_ms 6) ?obj"
  obtain d where S: "\<forall>obj' c'. obj' = ?st d \<longrightarrow> kStatusUpdate sample (wCluster \<sigma>) obj' = (None, c') \<longrightarrow>
      fst (serve_update sample 6 ''a.org.'' dz (ex_msg OpcodeUpdate []) \<sigma>) = Ret (RcodeSuccess, None)"
    using serve_update_success [OF sample_file_laws assms(1) acc assms(3-5) find wr, of 6] fst_conv by metis
  have "\<exists>c. kStatusUpdate sample (wCluster \<sigma>) (?st d) = (None, c)"
    by (simp add: assms(7) new_status_def s_status_update_def same_object_def ex_obj_def ex_meta_def)
  then have "fst (serve_update sample 6 ''a.org.'' dz (ex_msg OpcodeUpdate []) \<sigma>) = Ret (RcodeSuccess, None)"
    using S by blast
  then show ?thesis using ServeDNS_update [OF assms(2,3), of 6] by (simp add: prod_eq_iff)
qed

lemma ex_parse_apex:
  "\<exists>p h apex. s_parse ''file'' ''a.org.'' ''stdin'' 0 [0 \<mapsto> 4] = (Inr p, h) \<and> s_apex p = Inr apex"
  by (simp add: s_parse_def upt_rec s_apex_def s_new_def)

theorem failover_loses_updates_witness:
  "\<exists>\<sigma>1' \<sigma>2' \<sigma>2'' obj'. ServeDNS sample 5 (ex_msg OpcodeUpdate [ex_txt ClassINET]) ex_plugin = (Ret (RcodeSuccess, None), \<sigma>1') \<and>
     Reconcile sample ''d'' ''a.org'' (ex_standby (wCluster \<sigma>1')) = (Ret None, \<sigma>2') \<and>
     ServeDNS sample 6 (ex_msg OpcodeUpdate []) \<sigma>2' = (Ret (RcodeSuccess, None), \<sigma>2'') \<and>
     kStatusUpdate sample (wCluster \<sigma>1') obj' = (None, wCluster \<sigma>2'') \<and> DynamicRRs (zStatus obj') = []"
proof -
  let ?r = "ex_msg OpcodeUpdate [ex_txt ClassINET]" and ?z = "''a.org.''"
  have at: "dynamic_at (dZones ex_plugin) ?z = Some ex_dyn" "static_at (dZones ex_plugin) ?z = Some ex_zone"
    by simp_all
  obtain \<sigma>1' where S1: "ServeDNS sample 5 ?r ex_plugin = (Ret (RcodeSuccess, None), \<sigma>1')"
    using ex_success by blast
  obtain o1 ob where ob: "find_zone sample (wCluster ex_plugin) (trim_dot ?z) (dNamespaces ex_plugin) = Some ob"
    and o1: "kStatusUpdate sample (wCluster ex_plugin) o1 = (None, wCluster \<sigma>1')" "zMeta o1 = zMeta ob"
    by (rule update_stored [OF sample_file_laws ex_plugin_ok ex_update_for ex_accepts at S1])
  have "zMeta o1 = ex_meta" using ob o1(2) ex_find by (simp add: ex_obj_def)
  with o1(1) have c: "wCluster \<sigma>1' = [ex_obj\<lparr>zStatus := zStatus o1, zMeta := ex_meta\<lparr>omVersion := ''1i''\<rparr>\<rparr>]"
    using ex_stored_cluster by simp
  let ?obj = "ex_obj\<lparr>zStatus := zStatus o1, zMeta := ex_meta\<lparr>omVersion := ''1i''\<rparr>\<rparr>" and ?s = "ex_standby (wCluster \<sigma>1')"
  obtain p h apex where parse: "lParse sample (spZone (zSpec ?obj)) ?z ''stdin'' 0 (wSerials ?s) = (Inr p, h)"
    and apex: "lApex sample p = Inr apex"
    using ex_parse_apex by (auto simp: ex_obj_def)
  have ok: "plugin_ok szOrigin ?s" using ex_plugin_ok by (simp add: plugin_ok_def)
  have get: "kCacheGet sample (wCluster ?s) ''d'' ''a.org'' = Inr ?obj"
    by (simp add: c s_get_def ex_obj_def ex_meta_def)
  have fq: "?z = lFqdn sample (omName (zMeta ?obj))" by (simp add: s_fqdn_def ex_meta_def)
  have live: "\<not> isDeleting ?obj" by (simp add: isDeleting_def ex_meta_def)
  obtain zs where R: "Reconcile sample ''d'' ''a.org'' ?s =
      (Ret None, emit [ELock LZones, ENotify ?z, EUnlock LZones] (?s\<lparr>dZones := zs, wSerials := h\<rparr>))"
    and zs: "zones_ok szOrigin zs" "set (Names zs) = insert ?z (set (Names (dZones ?s)))"
      "static_at zs = (static_at (dZones ?s))(?z \<mapsto> p)"
      "dynamic_at zs = (dynamic_at (dZones ?s))(?z \<mapsto>
        (case dynamic_at (dZones ?s) ?z of None \<Rightarrow> lNewZone sample ?z '''' | Some d \<Rightarrow> d))"
    using reconcile_entered [OF sample_file_laws sample_alloc_laws ok get fq _ parse] live by blast
  define \<sigma>2 where "\<sigma>2 = emit [ELock LZones, ENotify ?z, EUnlock LZones] (?s\<lparr>dZones := zs, wSerials := h\<rparr>)"
  have Rs: "Reconcile sample ''d'' ''a.org'' ?s = (Ret None, \<sigma>2)" by (simp add: R \<sigma>2_def)
  have s2: "plugin_ok szOrigin \<sigma>2" "dynamic_at (dZones \<sigma>2) ?z = Some ex_dyn" "static_at (dZones \<sigma>2) ?z = Some p"
      "dNamespaces \<sigma>2 = [''d'']" "wCluster \<sigma>2 = [?obj]"
    using zs by (simp_all add: \<sigma>2_def plugin_ok_def c)
  have d: "distinct (Names zs)" using zs(1) by (simp add: zones_ok_def)
  have n: "set (Names zs) = {?z}" using zs(2) by simp
  have "length (Names zs) = 1" using distinct_card [OF d] by (simp add: n)
  then obtain x where "Names zs = [x]" by (auto simp: length_Suc_conv)
  with n have "Names zs = [?z]" by simp
  then have up: "update_for sample \<sigma>2 (ex_msg OpcodeUpdate []) ?z"
    by (simp add: \<sigma>2_def update_for_def s_matches_def ex_msg_def type_defs)
  obtain s3 where S2: "ServeDNS sample 6 (ex_msg OpcodeUpdate []) \<sigma>2 = (Ret (RcodeSuccess, None), s3)"
    using ex_empty_update [OF s2(1) up s2(2,3) apex s2(4,5)] by blast
  have acc: "accepts sample (ex_msg OpcodeUpdate [])" by (simp add: accepts_def ex_msg_def)
  have at2: "dynamic_at (dZones ?s) ?z = Some ex_dyn" by simp
  have cl: "wCluster ?s = wCluster \<sigma>1'" by simp
  obtain d2' obj' where "set (records sample d2') =
      updates_spec (lIsDomainName sample) (\<lambda>r. r) (Ns (ex_msg OpcodeUpdate [])) (set (records sample ex_dyn))"
    and k: "kStatusUpdate sample (wCluster \<sigma>1') obj' = (None, wCluster s3)"
    and "DynamicRRs (zStatus obj') = map (\<lambda>rr. \<lparr>RR = lRRString sample (wSerials \<sigma>2) rr\<rparr>) (records sample d2')"
    using failover_loses_updates [OF sample_file_laws sample_alloc_laws ex_plugin_ok ex_update_for ex_accepts at S1
        ok at2 cl get fq live parse Rs up acc S2] by blast
  then have "DynamicRRs (zStatus obj') = []" by (simp add: ex_msg_def)
  with S1 Rs S2 k show ?thesis by blast
qed

end
