(* ===== verification/Commands.thy ===== *)
theory Commands
  imports ZupdCommand
begin

text \<open>
  The commands of the update server as data (\<open>src/cmd/zupd/cmd/root.go\<close>, \<open>run.go\<close>): their names,
  texts and flags.  Finding the command for an argument list and parsing its flags is left to
  cobra (\<open>zupd_args\<close> in ZupdCommand).
\<close>

record command =
  cmUse :: string
  cmShort :: string
  cmLong :: string
  cmRuns :: bool
  cmFlags :: "string list"
  cmPersistentFlags :: "string list"

definition rootCmd :: command where
  "rootCmd =
     \<lparr>cmUse = ''zupd'',
      cmShort = ''A brief description of your application'',
      cmLong =
        ''A longer description that spans multiple lines and likely contains'' @ [nl] @
        ''examples and usage of using your application. For example:'' @ [nl] @ [nl] @
        ''Cobra is a CLI library for Go that empowers applications.'' @ [nl] @
        ''This application is a tool to generate the needed files'' @ [nl] @
        ''to quickly create a Cobra application.'',
      cmRuns = False, cmFlags = [''toggle''], cmPersistentFlags = [''config'']\<rparr>"

definition runCmd :: command where
  "runCmd =
     \<lparr>cmUse = ''run'', cmShort = ''Run the zupd CoreDNS server'', cmLong = ''Run the zupd CoreDNS server'',
      cmRuns = True, cmFlags = flag_names, cmPersistentFlags = []\<rparr>"

text \<open>The children of the root command, and the name of a command: the first word of its usage.\<close>

definition child_commands :: "command list" where
  "child_commands = [runCmd]"

definition command_name :: "command \<Rightarrow> string" where
  "command_name c = takeWhile (\<lambda>x. x \<noteq> CHR '' '') (cmUse c)"

text \<open>
  The arguments in the deployment of the update server name the one command that runs
  something, and give it flags of its own only.
\<close>

definition dashed :: "string \<Rightarrow> string" where
  "dashed f = ''--'' @ f"

lemma deployed_command:
  assumes "dep_spec (zupdDeployment k) = Some d" and "c \<in> set (dpContainers d)"
  shows "\<exists>cmd \<in> set child_commands. cmRuns cmd \<and>
    cnArgs c = [command_name cmd, dashed ''conf'', ''/etc/coredns/config/Corefile'',
      dashed ''enable-leader-election'', dashed ''leader-election-namespace'', ks_ns k] \<and>
    {''conf'', ''enable-leader-election'', ''leader-election-namespace''} \<subseteq> set (cmFlags cmd)"
  using assms
  by (auto simp: child_commands_def runCmd_def command_name_def dashed_def flag_names_def
      zupdDeployment_def dep_spec_def)

end
