(* ===== verification/GoStore.thy ===== *)
theory GoStore
  imports Prelude
begin

text \<open>
  Go's memory, for the code that is about aliasing: a store of cells with addresses, pointers
  and slices into it, and what it means that a function copies a value deeply.  The contract
  of such a function is the locale \<open>deep_copier\<close>; functions that copy pointers, slices and
  pairs keep it.
\<close>

subsection \<open>The store\<close>

text \<open>
  A cell holds a struct, the array behind a slice, or a map; \<open>'c\<close> is the type of the cells of
  one package.  Addresses from \<open>fresh\<close> on are free.
\<close>

type_synonym addr = nat

datatype 'c store = Store (cells: "addr \<rightharpoonup> 'c") (fresh: addr)

definition store_ok :: "'c store \<Rightarrow> bool" where
  "store_ok st \<longleftrightarrow> (\<forall>a \<in> dom (cells st). a < fresh st)"

definition alloc :: "'c \<Rightarrow> 'c store \<Rightarrow> addr \<times> 'c store" where
  "alloc c st = (fresh st, Store ((cells st)(fresh st \<mapsto> c)) (Suc (fresh st)))"

definition store_write :: "addr \<Rightarrow> 'c \<Rightarrow> 'c store \<Rightarrow> 'c store" where
  "store_write a c st = Store ((cells st)(a \<mapsto> c)) (fresh st)"

text \<open>
  Stores are ordered by growth: a larger one has every cell of the smaller one, and no fewer
  addresses in use.
\<close>

instantiation store :: (type) order
begin

definition less_eq_store :: "'a store \<Rightarrow> 'a store \<Rightarrow> bool" where
  "less_eq_store st st' \<longleftrightarrow> cells st \<subseteq>\<^sub>m cells st' \<and> fresh st \<le> fresh st'"

definition less_store :: "'a store \<Rightarrow> 'a store \<Rightarrow> bool" where
  "less_store st st' \<longleftrightarrow> st \<le> st' \<and> \<not> st' \<le> st"

instance
proof
  fix x y z :: "'a store"
  show "x < y \<longleftrightarrow> x \<le> y \<and> \<not> y \<le> x" by (simp add: less_store_def)
  show "x \<le> x" by (simp add: less_eq_store_def)
  show "x \<le> y \<Longrightarrow> y \<le> z \<Longrightarrow> x \<le> z" by (auto simp: less_eq_store_def intro: map_le_trans)
  show "x \<le> y \<Longrightarrow> y \<le> x \<Longrightarrow> x = y"
    by (cases x; cases y) (auto simp: less_eq_store_def intro: map_le_antisym)
qed

end

text \<open>The new store has every cell of the old one, and what is new is at new addresses.\<close>

definition extends :: "'c store \<Rightarrow> 'c store \<Rightarrow> bool" where
  "extends st st' \<longleftrightarrow> store_ok st' \<and> st \<le> st'"

lemma extends_map: "extends st st' \<Longrightarrow> cells st \<subseteq>\<^sub>m cells st'"
  by (simp add: extends_def less_eq_store_def)

lemma cells_write [simp]: "cells (store_write a c st) = (cells st)(a \<mapsto> c)"
  by (simp add: store_write_def)

lemma fresh_write [simp]: "fresh (store_write a c st) = fresh st"
  by (simp add: store_write_def)

lemma fresh_free: "store_ok st \<Longrightarrow> cells st (fresh st) = None"
  by (force simp: store_ok_def)

lemma extends_refl: "store_ok st \<Longrightarrow> extends st st"
  by (simp add: extends_def)

lemma extends_trans: "extends st st' \<Longrightarrow> extends st' st'' \<Longrightarrow> extends st st''"
  by (auto simp: extends_def intro: order_trans)

lemma extends_ok: "extends st st' \<Longrightarrow> store_ok st'"
  by (simp add: extends_def)

lemma extends_cell: "extends st st' \<Longrightarrow> cells st a = Some c \<Longrightarrow> cells st' a = Some c"
  using extends_map by (force simp: map_le_def)

lemma extends_dom: "extends st st' \<Longrightarrow> dom (cells st) \<subseteq> dom (cells st')"
  by (rule map_le_implies_dom_le [OF extends_map])

lemma extends_alloc:
  assumes "store_ok st" and "alloc c st = (a, st')"
  shows "extends st st'"
proof -
  have "store_ok st'" using assms by (auto simp: store_ok_def alloc_def less_Suc_eq)
  moreover have "st \<le> st'"
    using assms fresh_free [OF assms(1)] by (auto simp: alloc_def map_le_def less_eq_store_def)
  ultimately show ?thesis by (simp add: extends_def)
qed

lemma alloc_cell: "alloc c st = (a, st') \<Longrightarrow> cells st' a = Some c \<and> dom (cells st') = insert a (dom (cells st))"
  by (auto simp: alloc_def)

lemma alloc_new: "store_ok st \<Longrightarrow> alloc c st = (a, st') \<Longrightarrow> a \<notin> dom (cells st)"
  by (auto simp: alloc_def fresh_free domIff)

lemma extends_new: "extends st st' \<Longrightarrow> A \<subseteq> dom (cells st) - B \<Longrightarrow> A \<subseteq> dom (cells st') - B"
  using extends_dom [of st st'] by (meson Diff_mono order_refl order_trans)

lemma extends_write:
  "extends st st' \<Longrightarrow> a \<in> dom (cells st') - dom (cells st) \<Longrightarrow> extends st (store_write a c st')"
  by (auto simp: extends_def store_ok_def map_le_def less_eq_store_def)

subsection \<open>Deep copies\<close>

text \<open>
  For a type of values, \<open>val\<close> reads what a value stands for, \<open>None\<close> when it is damaged (a
  pointer to no cell, or to a cell of another type), and \<open>reach\<close> is the set of addresses it is
  spread over.  A function copies deeply when it keeps the store it starts from, and its result
  stands for the same and lies at new addresses only.
\<close>

definition local_reading :: "('c store \<Rightarrow> 'a \<Rightarrow> addr set) \<Rightarrow> ('c store \<Rightarrow> 'a \<Rightarrow> 'v option) \<Rightarrow> bool" where
  "local_reading reach val \<longleftrightarrow>
     (\<forall>st st' x v. val st x = Some v \<longrightarrow> reach st x \<subseteq> dom (cells st) \<and>
        ((\<forall>a \<in> reach st x. cells st' a = cells st a) \<longrightarrow> val st' x = Some v \<and> reach st' x = reach st x))"

definition copied ::
  "('c store \<Rightarrow> 'a \<Rightarrow> addr set) \<Rightarrow> ('c store \<Rightarrow> 'a \<Rightarrow> 'v option) \<Rightarrow> 'c store \<Rightarrow> 'v \<Rightarrow> 'a \<Rightarrow> 'c store \<Rightarrow> bool"
where
  "copied reach val st v y st' \<longleftrightarrow>
     extends st st' \<and> val st' y = Some v \<and> reach st' y \<subseteq> dom (cells st') - dom (cells st)"

definition copy_law ::
  "('a \<Rightarrow> 'c store \<Rightarrow> 'a \<times> 'c store) \<Rightarrow> ('c store \<Rightarrow> 'a \<Rightarrow> addr set) \<Rightarrow> ('c store \<Rightarrow> 'a \<Rightarrow> 'v option) \<Rightarrow> bool"
where
  "copy_law into reach val \<longleftrightarrow> local_reading reach val \<and>
     (\<forall>st x v. store_ok st \<longrightarrow> val st x = Some v \<longrightarrow>
        copied reach val st v (fst (into x st)) (snd (into x st)))"

locale deep_copier =
  fixes into :: "'a \<Rightarrow> 'c store \<Rightarrow> 'a \<times> 'c store"
    and reach :: "'c store \<Rightarrow> 'a \<Rightarrow> addr set"
    and val :: "'c store \<Rightarrow> 'a \<Rightarrow> 'v option"
  assumes law: "copy_law into reach val"
begin

lemma live: "val st x = Some v \<Longrightarrow> reach st x \<subseteq> dom (cells st)"
  using law unfolding copy_law_def local_reading_def by blast

lemma frame:
  assumes "val st x = Some v" and "\<And>a. a \<in> reach st x \<Longrightarrow> cells st' a = cells st a"
  shows "val st' x = Some v" and "reach st' x = reach st x"
  using law assms unfolding copy_law_def local_reading_def by blast+

lemma copy:
  assumes "store_ok st" and "val st x = Some v" and "into x st = (y, st')"
  shows "copied reach val st v y st'"
  using law assms unfolding copy_law_def by (metis fst_conv snd_conv)

text \<open>A value keeps its meaning when the store grows.\<close>

lemma grows:
  assumes "val st x = Some v" and "extends st st'"
  shows "val st' x = Some v" and "reach st' x = reach st x"
proof -
  have "cells st' a = cells st a" if "a \<in> reach st x" for a
    using live [OF assms(1)] that extends_cell [OF assms(2)] by (auto simp: dom_def)
  then show "val st' x = Some v" and "reach st' x = reach st x" using frame [OF assms(1)] by blast+
qed

text \<open>A copy keeps its properties when the store grows further.\<close>

lemma copied_grows:
  assumes "copied reach val st v y st1" and "extends st1 st2"
  shows "copied reach val st v y st2"
proof -
  have y: "val st1 y = Some v" "extends st st1" "reach st1 y \<subseteq> dom (cells st1) - dom (cells st)"
    using assms(1) by (auto simp: copied_def)
  note g = grows [OF y(1) assms(2)]
  have "reach st2 y \<subseteq> dom (cells st2) - dom (cells st)"
    unfolding g(2) by (rule extends_new [OF assms(2) y(3)])
  with g(1) extends_trans [OF y(2) assms(2)] show ?thesis by (simp add: copied_def)
qed

text \<open>Neither the original nor the copy is touched by a write to a cell of the other.\<close>

lemma separate:
  assumes "val st x = Some v" and "copied reach val st v y st'"
  shows "a \<in> reach st' y \<Longrightarrow> val (store_write a c st') x = Some v"
    and "a \<in> reach st' x \<Longrightarrow> val (store_write a c st') y = Some v"
proof -
  have y: "val st' y = Some v" "extends st st'" "reach st' y \<subseteq> dom (cells st') - dom (cells st)"
    using assms(2) by (auto simp: copied_def)
  note x = grows [OF assms(1) y(2)]
  have disjoint: "reach st' y \<inter> reach st' x = {}" using live [OF assms(1)] y(3) x(2) by blast
  show "val (store_write a c st') x = Some v" if "a \<in> reach st' y"
    by (rule frame(1) [OF x(1)]) (use disjoint that in auto)
  show "val (store_write a c st') y = Some v" if "a \<in> reach st' x"
    by (rule frame(1) [OF y(1)]) (use disjoint that in auto)
qed

end

subsection \<open>Copies of flat values, pairs and pointers\<close>

text \<open>A struct without pointers is copied by the assignment alone.\<close>

definition flat_into :: "'a \<Rightarrow> 'c store \<Rightarrow> 'a \<times> 'c store" where
  "flat_into x st = (x, st)"

definition flat_reach :: "'c store \<Rightarrow> 'a \<Rightarrow> addr set" where
  "flat_reach st x = {}"

definition flat_val :: "'c store \<Rightarrow> 'a \<Rightarrow> 'a option" where
  "flat_val st x = Some x"

lemma flat_law: "copy_law flat_into flat_reach flat_val"
  by (simp add: copy_law_def local_reading_def copied_def flat_into_def flat_reach_def flat_val_def extends_refl)

text \<open>Two fields, one after the other.\<close>

definition pair_into ::
  "('a \<Rightarrow> 'c store \<Rightarrow> 'a \<times> 'c store) \<Rightarrow> ('b \<Rightarrow> 'c store \<Rightarrow> 'b \<times> 'c store) \<Rightarrow>
   'a \<times> 'b \<Rightarrow> 'c store \<Rightarrow> ('a \<times> 'b) \<times> 'c store" where
  "pair_into f g p st =
     (case f (fst p) st of (x, st1) \<Rightarrow> (case g (snd p) st1 of (y, st2) \<Rightarrow> ((x, y), st2)))"

definition pair_reach ::
  "('c store \<Rightarrow> 'a \<Rightarrow> addr set) \<Rightarrow> ('c store \<Rightarrow> 'b \<Rightarrow> addr set) \<Rightarrow> 'c store \<Rightarrow> 'a \<times> 'b \<Rightarrow> addr set" where
  "pair_reach r s st p = r st (fst p) \<union> s st (snd p)"

definition pair_val ::
  "('c store \<Rightarrow> 'a \<Rightarrow> 'v option) \<Rightarrow> ('c store \<Rightarrow> 'b \<Rightarrow> 'w option) \<Rightarrow> 'c store \<Rightarrow> 'a \<times> 'b \<Rightarrow> ('v \<times> 'w) option"
where
  "pair_val v w st p =
     (case (v st (fst p), w st (snd p)) of (Some x, Some y) \<Rightarrow> Some (x, y) | _ \<Rightarrow> None)"

lemma pair_val_Some: "pair_val v w st p = Some q \<longleftrightarrow> v st (fst p) = Some (fst q) \<and> w st (snd p) = Some (snd q)"
  by (cases q) (auto simp: pair_val_def split: option.splits)

lemma local_readingI:
  assumes "\<And>st x v. val st x = Some v \<Longrightarrow> reach st x \<subseteq> dom (cells st)"
    and "\<And>st st' x v. val st x = Some v \<Longrightarrow> (\<And>a. a \<in> reach st x \<Longrightarrow> cells st' a = cells st a) \<Longrightarrow>
      val st' x = Some v \<and> reach st' x = reach st x"
  shows "local_reading reach val"
  unfolding local_reading_def
proof (intro allI impI conjI)
  fix st st' x v
  assume v: "val st x = Some v"
  then show "reach st x \<subseteq> dom (cells st)" by (rule assms(1))
  assume same: "\<forall>a \<in> reach st x. cells st' a = cells st a"
  have "val st' x = Some v \<and> reach st' x = reach st x"
    by (rule assms(2) [OF v]) (rule bspec [OF same])
  then show "val st' x = Some v" and "reach st' x = reach st x" by simp_all
qed

lemma local_live: "local_reading reach val \<Longrightarrow> val st x = Some v \<Longrightarrow> reach st x \<subseteq> dom (cells st)"
  unfolding local_reading_def by blast

lemma local_frame:
  assumes "local_reading reach val" and "val st x = Some v" and "\<And>a. a \<in> reach st x \<Longrightarrow> cells st' a = cells st a"
  shows "val st' x = Some v" and "reach st' x = reach st x"
proof -
  have "\<forall>a \<in> reach st x. cells st' a = cells st a" by (rule ballI) (rule assms(3))
  then show "val st' x = Some v" and "reach st' x = reach st x"
    using assms(1) [unfolded local_reading_def, rule_format, OF assms(2), of st'] by simp_all
qed

lemma pair_local:
  assumes "local_reading r v" and "local_reading s w"
  shows "local_reading (pair_reach r s) (pair_val v w)"
proof (rule local_readingI)
  fix st p q
  assume "pair_val v w st p = Some q"
  then show "pair_reach r s st p \<subseteq> dom (cells st)"
    using local_live [OF assms(1), of st "fst p"] local_live [OF assms(2), of st "snd p"]
    by (simp add: pair_val_Some pair_reach_def)
next
  fix st st' p q
  assume q: "pair_val v w st p = Some q"
    and same: "\<And>a. a \<in> pair_reach r s st p \<Longrightarrow> cells st' a = cells st a"
  from q have "v st (fst p) = Some (fst q)" "w st (snd p) = Some (snd q)" by (simp_all add: pair_val_Some)
  note 1 = local_frame [OF assms(1) this(1), of st'] and 2 = local_frame [OF assms(2) this(2), of st']
  show "pair_val v w st' p = Some q \<and> pair_reach r s st' p = pair_reach r s st p"
    using 1 2 same by (simp add: pair_val_Some pair_reach_def)
qed

lemma copy_lawD: "copy_law into reach val \<Longrightarrow> local_reading reach val"
  by (simp add: copy_law_def)

text \<open>The facts of the contract, for a law at hand.\<close>

lemmas law_live = deep_copier.live [OF deep_copier.intro]
lemmas law_frame = deep_copier.frame [OF deep_copier.intro]
lemmas law_copy = deep_copier.copy [OF deep_copier.intro]
lemmas law_grows = deep_copier.grows [OF deep_copier.intro]
lemmas law_copied_grows = deep_copier.copied_grows [OF deep_copier.intro]
lemmas law_separate = deep_copier.separate [OF deep_copier.intro]

lemma pair_law:
  assumes "copy_law f r v" and "copy_law g s w"
  shows "copy_law (pair_into f g) (pair_reach r s) (pair_val v w)"
  unfolding copy_law_def
proof (intro conjI allI impI)
  show "local_reading (pair_reach r s) (pair_val v w)"
    by (rule pair_local [OF copy_lawD [OF assms(1)] copy_lawD [OF assms(2)]])
  fix st p q
  assume st: "store_ok st" and "pair_val v w st p = Some q"
  then have q: "v st (fst p) = Some (fst q)" "w st (snd p) = Some (snd q)" by (simp_all add: pair_val_Some)
  obtain x st1 where x: "f (fst p) st = (x, st1)" by fastforce
  obtain y st2 where y: "g (snd p) st1 = (y, st2)" by fastforce
  note 1 = law_copy [OF assms(1) st q(1) x]
  then have e1: "extends st st1" by (simp add: copied_def)
  note 2 = law_copy [OF assms(2) extends_ok [OF e1] law_grows(1) [OF assms(2) q(2) e1] y]
  then have e2: "extends st1 st2" by (simp add: copied_def)
  have "s st2 y \<subseteq> dom (cells st2) - dom (cells st)"
    using 2 extends_dom [OF e1] by (auto simp: copied_def)
  then show "copied (pair_reach r s) (pair_val v w) st q (fst (pair_into f g p st)) (snd (pair_into f g p st))"
    using law_copied_grows [OF assms(1) 1 e2] 2
    by (simp add: copied_def pair_into_def x y pair_reach_def pair_val_Some)
qed

text \<open>A struct with named fields, copied as the tuple of its fields.\<close>

lemma iso_law:
  assumes "copy_law f r v" and "\<And>t. to (frm t) = t"
    and "\<And>x st. into x st = (case f (to x) st of (t, st') \<Rightarrow> (frm t, st'))"
    and "\<And>st x. reach st x = r st (to x)" and "\<And>st x. val st x = map_option g (v st (to x))"
  shows "copy_law into reach val"
  unfolding copy_law_def
proof (intro conjI allI impI)
  show "local_reading reach val"
  proof (rule local_readingI)
    fix st st' x w
    assume w: "val st x = Some w"
    then obtain u where u: "v st (to x) = Some u" "w = g u" by (auto simp: assms(5))
    then show "reach st x \<subseteq> dom (cells st)" using law_live [OF assms(1)] by (simp add: assms(4))
    assume "\<And>a. a \<in> reach st x \<Longrightarrow> cells st' a = cells st a"
    then have "\<And>a. a \<in> r st (to x) \<Longrightarrow> cells st' a = cells st a" by (simp add: assms(4))
    from law_frame [OF assms(1) u(1) this] u(2)
    show "val st' x = Some w \<and> reach st' x = reach st x" by (simp add: assms(4,5))
  qed
next
  fix st x w
  assume st: "store_ok st" and "val st x = Some w"
  then obtain u where u: "v st (to x) = Some u" "w = g u" by (auto simp: assms(5))
  obtain t st' where t: "f (to x) st = (t, st')" by fastforce
  from law_copy [OF assms(1) st u(1) t] u(2)
  show "copied reach val st w (fst (into x st)) (snd (into x st))"
    by (simp add: copied_def assms(2-5) t)
qed

text \<open>
  A pointer: nil stays nil, else a new cell is made, the struct behind the pointer is copied,
  and the copy is put into the cell.  \<open>mk\<close> and \<open>un\<close> go from a struct to a cell and back.
\<close>

definition deref :: "('c \<Rightarrow> 'a option) \<Rightarrow> 'c store \<Rightarrow> addr \<Rightarrow> 'a option" where
  "deref un st a = Option.bind (cells st a) un"

definition ptr_into ::
  "('a \<Rightarrow> 'c) \<Rightarrow> ('c \<Rightarrow> 'a option) \<Rightarrow> 'a \<Rightarrow> ('a \<Rightarrow> 'c store \<Rightarrow> 'a \<times> 'c store) \<Rightarrow>
   addr option \<Rightarrow> 'c store \<Rightarrow> addr option \<times> 'c store" where
  "ptr_into mk un zero into p st =
     (case p of
        None \<Rightarrow> (None, st)
      | Some a \<Rightarrow>
          (case deref un st a of
             None \<Rightarrow> (None, st)
           | Some x \<Rightarrow>
               (case alloc (mk zero) st of (b, st1) \<Rightarrow>
                  (case into x st1 of (y, st2) \<Rightarrow> (Some b, store_write b (mk y) st2)))))"

definition ptr_reach ::
  "('c \<Rightarrow> 'a option) \<Rightarrow> ('c store \<Rightarrow> 'a \<Rightarrow> addr set) \<Rightarrow> 'c store \<Rightarrow> addr option \<Rightarrow> addr set" where
  "ptr_reach un reach st p =
     (case p of None \<Rightarrow> {}
      | Some a \<Rightarrow> insert a (case deref un st a of None \<Rightarrow> {} | Some x \<Rightarrow> reach st x))"

definition ptr_val ::
  "('c \<Rightarrow> 'a option) \<Rightarrow> ('c store \<Rightarrow> 'a \<Rightarrow> 'v option) \<Rightarrow> 'c store \<Rightarrow> addr option \<Rightarrow> 'v option option" where
  "ptr_val un val st p =
     (case p of None \<Rightarrow> Some None
      | Some a \<Rightarrow> (case deref un st a of None \<Rightarrow> None | Some x \<Rightarrow> map_option Some (val st x)))"

lemma ptr_val_Some:
  "ptr_val un val st p = Some v \<longleftrightarrow>
     (case p of None \<Rightarrow> v = None | Some a \<Rightarrow> \<exists>x w. deref un st a = Some x \<and> val st x = Some w \<and> v = Some w)"
  by (auto simp: ptr_val_def split: option.splits)

lemma deref_live: "deref un st a = Some x \<Longrightarrow> a \<in> dom (cells st)"
  by (auto simp: deref_def bind_eq_Some_conv)

lemma deref_same: "cells st' a = cells st a \<Longrightarrow> deref un st' a = deref un st a"
  by (simp add: deref_def)

lemma ptr_local:
  assumes "local_reading reach val"
  shows "local_reading (ptr_reach un reach) (ptr_val un val)"
proof (rule local_readingI)
  fix st p v
  assume "ptr_val un val st p = Some v"
  then show "ptr_reach un reach st p \<subseteq> dom (cells st)"
    using local_live [OF assms] deref_live
    by (fastforce simp: ptr_val_Some ptr_reach_def split: option.splits)
next
  fix st st' p v
  assume v: "ptr_val un val st p = Some v"
    and same: "\<And>a. a \<in> ptr_reach un reach st p \<Longrightarrow> cells st' a = cells st a"
  show "ptr_val un val st' p = Some v \<and> ptr_reach un reach st' p = ptr_reach un reach st p"
  proof (cases p)
    case None
    with v show ?thesis by (simp add: ptr_val_def ptr_reach_def)
  next
    case (Some a)
    with v obtain x w where x: "deref un st a = Some x" "val st x = Some w" "v = Some w"
      by (auto simp: ptr_val_Some)
    have d: "deref un st' a = Some x" using deref_same [of st' a st un] same x(1) Some by (simp add: ptr_reach_def)
    have "\<And>b. b \<in> reach st x \<Longrightarrow> cells st' b = cells st b" using same Some x(1) by (simp add: ptr_reach_def)
    note f = local_frame [OF assms x(2) this]
    show ?thesis using f d x(1,3) by (simp add: ptr_val_def ptr_reach_def Some)
  qed
qed

lemma ptr_law:
  assumes law: "copy_law into reach val" and un: "\<And>x. un (mk x) = Some x"
  shows "copy_law (ptr_into mk un zero into) (ptr_reach un reach) (ptr_val un val)"
  unfolding copy_law_def
proof (intro conjI allI impI)
  show "local_reading (ptr_reach un reach) (ptr_val un val)" by (rule ptr_local [OF copy_lawD [OF law]])
  fix st p v
  assume st: "store_ok st" and v: "ptr_val un val st p = Some v"
  show "copied (ptr_reach un reach) (ptr_val un val) st v
      (fst (ptr_into mk un zero into p st)) (snd (ptr_into mk un zero into p st))"
  proof (cases p)
    case None
    with v st show ?thesis by (simp add: copied_def ptr_into_def ptr_val_def ptr_reach_def extends_refl)
  next
    case (Some a)
    with v obtain x w where x: "deref un st a = Some x" "val st x = Some w" "v = Some w"
      by (auto simp: ptr_val_Some)
    obtain b st1 where b: "alloc (mk zero) st = (b, st1)" by fastforce
    obtain y st2 where y: "into x st1 = (y, st2)" by fastforce
    note e1 = extends_alloc [OF st b]
    have c: "copied reach val st1 w y st2"
      by (rule law_copy [OF law extends_ok [OF e1] law_grows(1) [OF law x(2) e1] y])
    let ?st = "store_write b (mk y) st2"
    have e2: "extends st st2" using extends_trans [OF e1] c by (simp add: copied_def)
    have bnew: "b \<in> dom (cells st2) - dom (cells st)"
      using alloc_new [OF st b] alloc_cell [OF b] c extends_dom [of st1 st2] by (auto simp: copied_def)
    have "b \<notin> reach st2 y" using c alloc_cell [OF b] by (auto simp: copied_def)
    then have same: "\<And>a. a \<in> reach st2 y \<Longrightarrow> cells ?st a = cells st2 a" by auto
    have vy: "val st2 y = Some w" using c by (simp add: copied_def)
    note f = law_frame [OF law vy same]
    have "reach st2 y \<subseteq> dom (cells st2) - dom (cells st)"
      using c extends_dom [OF e1] by (auto simp: copied_def)
    then have r: "insert b (reach ?st y) \<subseteq> dom (cells ?st) - dom (cells st)" using f(2) bnew by auto
    have d: "deref un ?st b = Some y" by (simp add: deref_def un)
    have "ptr_into mk un zero into p st = (Some b, ?st)" by (simp add: ptr_into_def Some x(1) b y)
    with extends_write [OF e2 bnew] f(1) r d show ?thesis
      by (simp add: copied_def ptr_val_def ptr_reach_def x(3))
  qed
qed

subsection \<open>Slices\<close>

text \<open>
  A slice is nil or the elements of an array from an offset on.  The elements of a slice of
  structs are copied one after the other into a new array of zero values.
\<close>

datatype slice = Slice (base: addr) (off: nat) (len: nat)

definition elems :: "('c \<Rightarrow> 'a list option) \<Rightarrow> 'c store \<Rightarrow> slice \<Rightarrow> 'a list option" where
  "elems un st s =
     (case deref un st (base s) of
        None \<Rightarrow> None
      | Some xs \<Rightarrow> if off s + len s \<le> length xs then Some (take (len s) (drop (off s) xs)) else None)"

definition elem_at :: "('c \<Rightarrow> 'a list option) \<Rightarrow> 'a \<Rightarrow> 'c store \<Rightarrow> slice \<Rightarrow> nat \<Rightarrow> 'a" where
  "elem_at un zero st s i = (case elems un st s of None \<Rightarrow> zero | Some xs \<Rightarrow> xs ! i)"

definition set_elem ::
  "('a list \<Rightarrow> 'c) \<Rightarrow> ('c \<Rightarrow> 'a list option) \<Rightarrow> addr \<Rightarrow> nat \<Rightarrow> 'a \<Rightarrow> 'c store \<Rightarrow> 'c store" where
  "set_elem mk un b i y st =
     (case deref un st b of None \<Rightarrow> st | Some ys \<Rightarrow> store_write b (mk (ys[i := y])) st)"

definition copy_elem ::
  "('a list \<Rightarrow> 'c) \<Rightarrow> ('c \<Rightarrow> 'a list option) \<Rightarrow> 'a \<Rightarrow> ('a \<Rightarrow> 'c store \<Rightarrow> 'a \<times> 'c store) \<Rightarrow>
   slice \<Rightarrow> addr \<Rightarrow> nat \<Rightarrow> 'c store \<Rightarrow> 'c store" where
  "copy_elem mk un zero into s b i st =
     (case into (elem_at un zero st s i) st of (y, st') \<Rightarrow> set_elem mk un b i y st')"

definition slice_into ::
  "('a list \<Rightarrow> 'c) \<Rightarrow> ('c \<Rightarrow> 'a list option) \<Rightarrow> 'a \<Rightarrow> ('a \<Rightarrow> 'c store \<Rightarrow> 'a \<times> 'c store) \<Rightarrow>
   slice option \<Rightarrow> 'c store \<Rightarrow> slice option \<times> 'c store" where
  "slice_into mk un zero into p st =
     (case p of
        None \<Rightarrow> (None, st)
      | Some s \<Rightarrow>
          (case alloc (mk (replicate (len s) zero)) st of (b, st1) \<Rightarrow>
             (Some (Slice b 0 (len s)), fold (copy_elem mk un zero into s b) [0..<len s] st1)))"

text \<open>The built-in \<open>copy\<close> into a new array, for elements without pointers.\<close>

definition slice_dup ::
  "('a list \<Rightarrow> 'c) \<Rightarrow> ('c \<Rightarrow> 'a list option) \<Rightarrow> slice option \<Rightarrow> 'c store \<Rightarrow> slice option \<times> 'c store" where
  "slice_dup mk un p st =
     (case p of
        None \<Rightarrow> (None, st)
      | Some s \<Rightarrow>
          (case elems un st s of
             None \<Rightarrow> (None, st)
           | Some xs \<Rightarrow> (case alloc (mk xs) st of (b, st') \<Rightarrow> (Some (Slice b 0 (len s)), st'))))"

definition slice_reach ::
  "('c \<Rightarrow> 'a list option) \<Rightarrow> ('c store \<Rightarrow> 'a \<Rightarrow> addr set) \<Rightarrow> 'c store \<Rightarrow> slice option \<Rightarrow> addr set" where
  "slice_reach un reach st p =
     (case p of None \<Rightarrow> {}
      | Some s \<Rightarrow> insert (base s) (case elems un st s of None \<Rightarrow> {} | Some xs \<Rightarrow> (\<Union>x \<in> set xs. reach st x)))"

definition slice_val ::
  "('c \<Rightarrow> 'a list option) \<Rightarrow> ('c store \<Rightarrow> 'a \<Rightarrow> 'v option) \<Rightarrow> 'c store \<Rightarrow> slice option \<Rightarrow> 'v list option option"
where
  "slice_val un val st p =
     (case p of None \<Rightarrow> Some None
      | Some s \<Rightarrow> (case elems un st s of None \<Rightarrow> None | Some xs \<Rightarrow> map_option Some (those (map (val st) xs))))"

lemma those_Some: "those os = Some vs \<longleftrightarrow> os = map Some vs"
  by (induction os arbitrary: vs) (auto split: option.splits)

lemma slice_val_Some:
  "slice_val un val st p = Some v \<longleftrightarrow>
     (case p of None \<Rightarrow> v = None
      | Some s \<Rightarrow> \<exists>xs vs. elems un st s = Some xs \<and> map (val st) xs = map Some vs \<and> v = Some vs)"
  by (auto simp: slice_val_def those_Some split: option.splits)

lemma elems_live: "elems un st s = Some xs \<Longrightarrow> base s \<in> dom (cells st)"
  by (cases "deref un st (base s)") (simp add: elems_def, rule deref_live)

lemma elems_same: "cells st' (base s) = cells st (base s) \<Longrightarrow> elems un st' s = elems un st s"
  by (simp add: elems_def deref_def)

lemma elems_len: "elems un st s = Some xs \<Longrightarrow> length xs = len s"
  unfolding elems_def by (cases "deref un st (base s)") (auto split: if_splits)

lemma map_val_nth: "map f xs = map Some vs \<Longrightarrow> i < length xs \<Longrightarrow> f (xs ! i) = Some (vs ! i)"
  by (metis length_map nth_map)

lemma map_val_set: "map f xs = map Some vs \<Longrightarrow> x \<in> set xs \<Longrightarrow> \<exists>w. f x = Some w"
proof (induction xs arbitrary: vs)
  case (Cons y ys)
  then show ?case by (cases vs) auto
qed simp

lemma slice_local:
  assumes "local_reading reach val"
  shows "local_reading (slice_reach un reach) (slice_val un val)"
proof (rule local_readingI)
  fix st p v
  assume v: "slice_val un val st p = Some v"
  show "slice_reach un reach st p \<subseteq> dom (cells st)"
  proof (cases p)
    case (Some s)
    with v obtain xs vs where x: "elems un st s = Some xs" "map (val st) xs = map Some vs" by (auto simp: slice_val_Some)
    have "reach st x \<subseteq> dom (cells st)" if el: "x \<in> set xs" for x
    proof -
      obtain w where "val st x = Some w" using map_val_set [OF x(2) el] by blast
      then show ?thesis by (rule local_live [OF assms])
    qed
    then have "(\<Union>x \<in> set xs. reach st x) \<subseteq> dom (cells st)" by (rule UN_least)
    then show ?thesis using elems_live [OF x(1)] by (simp add: slice_reach_def Some x(1))
  qed (simp add: slice_reach_def)
next
  fix st st' p v
  assume v: "slice_val un val st p = Some v"
    and same: "\<And>a. a \<in> slice_reach un reach st p \<Longrightarrow> cells st' a = cells st a"
  show "slice_val un val st' p = Some v \<and> slice_reach un reach st' p = slice_reach un reach st p"
  proof (cases p)
    case (Some s)
    with v obtain xs vs where x: "elems un st s = Some xs" "map (val st) xs = map Some vs" "v = Some vs"
      by (auto simp: slice_val_Some)
    have e: "elems un st' s = Some xs" using elems_same [of st' s st un] same x(1) Some by (simp add: slice_reach_def)
    have els: "val st' x = val st x \<and> reach st' x = reach st x" if el: "x \<in> set xs" for x
    proof -
      obtain w where w: "val st x = Some w" using map_val_set [OF x(2) el] by blast
      have "\<And>a. a \<in> reach st x \<Longrightarrow> cells st' a = cells st a" using same Some x(1) el by (auto simp: slice_reach_def)
      note f = local_frame [OF assms w this]
      show ?thesis by (simp add: f w)
    qed
    then have "map (val st') xs = map Some vs" using x(2) by (metis map_eq_conv)
    then have "those (map (val st') xs) = Some vs" by (simp only: those_Some)
    moreover have "(\<Union>x \<in> set xs. reach st' x) = (\<Union>x \<in> set xs. reach st x)" using els by simp
    ultimately show ?thesis using e x(1,3) by (simp add: slice_val_def slice_reach_def Some)
  qed (use v in \<open>simp add: slice_val_def slice_reach_def\<close>)
qed

text \<open>The copying loop: after \<open>k\<close> rounds the first \<open>k\<close> elements of the new array are copies.\<close>

definition copying ::
  "('c \<Rightarrow> 'a list option) \<Rightarrow> ('c store \<Rightarrow> 'a \<Rightarrow> addr set) \<Rightarrow> ('c store \<Rightarrow> 'a \<Rightarrow> 'v option) \<Rightarrow>
   'c store \<Rightarrow> addr \<Rightarrow> 'v list \<Rightarrow> nat \<Rightarrow> 'c store \<Rightarrow> bool" where
  "copying un reach val st b vs k st' \<longleftrightarrow> extends st st' \<and> b \<notin> dom (cells st) \<and>
     (\<exists>ys. deref un st' b = Some ys \<and> length ys = length vs \<and>
        (\<forall>i<k. val st' (ys ! i) = Some (vs ! i) \<and> b \<notin> reach st' (ys ! i) \<and>
           reach st' (ys ! i) \<subseteq> dom (cells st') - dom (cells st)))"

lemma copy_round:
  assumes law: "copy_law into reach val" and un: "\<And>xs. un (mk xs) = Some xs"
    and s: "elems un st s = Some xs" "map (val st) xs = map Some vs"
    and inv: "copying un reach val st b vs k st1" and k: "k < len s"
  shows "copying un reach val st b vs (Suc k) (copy_elem mk un zero into s b k st1)"
proof -
  obtain ys where e: "extends st st1" and b: "b \<notin> dom (cells st)" and ys: "deref un st1 b = Some ys" "length ys = length vs"
    and copies: "\<And>i. i < k \<Longrightarrow> val st1 (ys ! i) = Some (vs ! i) \<and> b \<notin> reach st1 (ys ! i) \<and>
      reach st1 (ys ! i) \<subseteq> dom (cells st1) - dom (cells st)"
    using inv unfolding copying_def by blast
  have n: "k < length xs" "k < length vs" using k elems_len [OF s(1)] map_eq_imp_length_eq [OF s(2)] by simp_all
  have "cells st1 (base s) = cells st (base s)"
    using elems_live [OF s(1)] extends_cell [OF e] by (auto simp: dom_def)
  then have el: "elem_at un zero st1 s k = xs ! k" using elems_same [of st1 s st un] s(1) by (simp add: elem_at_def)
  obtain y st2 where y: "into (xs ! k) st1 = (y, st2)" by fastforce
  note vx = law_grows(1) [OF law map_val_nth [OF s(2) n(1)] e]
  note c = law_copy [OF law extends_ok [OF e] vx y]
  then have e2: "extends st1 st2" and vy: "val st2 y = Some (vs ! k)"
    and ry: "reach st2 y \<subseteq> dom (cells st2) - dom (cells st1)" by (simp_all add: copied_def)
  have b1: "b \<in> dom (cells st1)" using deref_live [OF ys(1)] .
  have d2: "deref un st2 b = Some ys" using ys(1) b1 extends_cell [OF e2] by (auto simp: deref_def)
  let ?st = "store_write b (mk (ys[k := y])) st2"
  have e3: "extends st ?st"
    using extends_write [OF extends_trans [OF e e2]] b b1 extends_dom [OF e2] by blast
  have keep: "val ?st z = Some w \<and> reach ?st z = reach st2 z" if "val st2 z = Some w" "b \<notin> reach st2 z" for z w
  proof -
    have "\<And>a. a \<in> reach st2 z \<Longrightarrow> cells ?st a = cells st2 a" using that(2) by auto
    note f = law_frame [OF law that(1) this]
    show ?thesis using f by simp
  qed
  have dom: "dom (cells ?st) = dom (cells st2)" using b1 extends_dom [OF e2] by auto
  have "val ?st (ys[k := y] ! i) = Some (vs ! i) \<and> b \<notin> reach ?st (ys[k := y] ! i) \<and>
      reach ?st (ys[k := y] ! i) \<subseteq> dom (cells ?st) - dom (cells st)" if "i < Suc k" for i
  proof (cases "i = k")
    case True
    have "b \<notin> reach st2 y" using ry b1 by blast
    moreover have "reach st2 y \<subseteq> dom (cells st2) - dom (cells st)" using ry extends_dom [OF e] by blast
    ultimately show ?thesis using True keep [OF vy] n(2) ys(2) dom by simp
  next
    case False
    then have i: "i < k" using that by simp
    note g = law_grows [OF law conjunct1 [OF copies [OF i]] e2]
    have "b \<notin> reach st2 (ys ! i)" "reach st2 (ys ! i) \<subseteq> dom (cells st2) - dom (cells st)"
      unfolding g(2) using copies [OF i] extends_new [OF e2] by blast+
    with keep [OF g(1)] dom False show ?thesis by simp
  qed
  moreover have "copy_elem mk un zero into s b k st1 = ?st"
    by (simp add: copy_elem_def el y set_elem_def d2)
  moreover have "deref un ?st b = Some (ys[k := y])" by (simp add: deref_def un)
  ultimately show ?thesis using e3 b ys(2) unfolding copying_def by simp
qed

lemma copy_rounds:
  assumes law: "copy_law into reach val" and un: "\<And>xs. un (mk xs) = Some xs"
    and s: "elems un st s = Some xs" "map (val st) xs = map Some vs"
    and inv: "copying un reach val st b vs 0 st1"
  shows "k \<le> len s \<Longrightarrow> copying un reach val st b vs k (fold (copy_elem mk un zero into s b) [0..<k] st1)"
proof (induction k)
  case 0
  with inv show ?case by simp
next
  case (Suc k)
  then show ?case using copy_round [where mk = mk, OF law un s] by simp
qed

lemma slice_law:
  assumes law: "copy_law into reach val" and un: "\<And>xs. un (mk xs) = Some xs"
  shows "copy_law (slice_into mk un zero into) (slice_reach un reach) (slice_val un val)"
  unfolding copy_law_def
proof (intro conjI allI impI)
  show "local_reading (slice_reach un reach) (slice_val un val)" by (rule slice_local [OF copy_lawD [OF law]])
  fix st p v
  assume st: "store_ok st" and v: "slice_val un val st p = Some v"
  show "copied (slice_reach un reach) (slice_val un val) st v
      (fst (slice_into mk un zero into p st)) (snd (slice_into mk un zero into p st))"
  proof (cases p)
    case None
    with v st show ?thesis by (simp add: copied_def slice_into_def slice_val_def slice_reach_def extends_refl)
  next
    case (Some s)
    with v obtain xs vs where x: "elems un st s = Some xs" "map (val st) xs = map Some vs" "v = Some vs"
      by (auto simp: slice_val_Some)
    have n: "length vs = len s" using elems_len [OF x(1)] map_eq_imp_length_eq [OF x(2)] by simp
    obtain b st1 where b: "alloc (mk (replicate (len s) zero)) st = (b, st1)" by fastforce
    have "copying un reach val st b vs 0 st1"
      using extends_alloc [OF st b] alloc_new [OF st b] alloc_cell [OF b] n by (simp add: copying_def deref_def un)
    from copy_rounds [where mk = mk and zero = zero, OF law un x(1,2) this order_refl]
    obtain st2 ys where st2: "fold (copy_elem mk un zero into s b) [0..<len s] st1 = st2"
      and e: "extends st st2" and bnew: "b \<notin> dom (cells st)"
      and ys: "deref un st2 b = Some ys" "length ys = length vs"
      and copies: "\<And>i. i < len s \<Longrightarrow> val st2 (ys ! i) = Some (vs ! i) \<and>
        reach st2 (ys ! i) \<subseteq> dom (cells st2) - dom (cells st)"
      unfolding copying_def by blast
    have el: "elems un st2 (Slice b 0 (len s)) = Some ys" using ys n by (simp add: elems_def)
    have "map (val st2) ys = map Some vs" using copies ys(2) n by (simp add: list_eq_iff_nth_eq)
    then have vy: "slice_val un val st2 (Some (Slice b 0 (len s))) = Some v"
      using el x(3) by (simp add: slice_val_Some)
    have "(\<Union>y \<in> set ys. reach st2 y) \<subseteq> dom (cells st2) - dom (cells st)"
      using copies ys(2) n by (fastforce simp: in_set_conv_nth)
    then have "slice_reach un reach st2 (Some (Slice b 0 (len s))) \<subseteq> dom (cells st2) - dom (cells st)"
      using el deref_live [OF ys(1)] bnew by (simp add: slice_reach_def)
    then show ?thesis using e vy st2 by (simp add: copied_def slice_into_def Some b)
  qed
qed

lemma slice_dup_law:
  assumes un: "\<And>xs. un (mk xs) = Some xs"
  shows "copy_law (slice_dup mk un) (slice_reach un flat_reach) (slice_val un flat_val)"
  unfolding copy_law_def
proof (intro conjI allI impI)
  show "local_reading (slice_reach un flat_reach) (slice_val un flat_val)"
    by (rule slice_local [OF copy_lawD [OF flat_law]])
  fix st p v
  assume st: "store_ok st" and v: "slice_val un flat_val st p = Some v"
  show "copied (slice_reach un flat_reach) (slice_val un flat_val) st v
      (fst (slice_dup mk un p st)) (snd (slice_dup mk un p st))"
  proof (cases p)
    case None
    with v st show ?thesis by (simp add: copied_def slice_dup_def slice_val_def slice_reach_def extends_refl)
  next
    case (Some s)
    with v obtain xs where x: "elems un st s = Some xs" "slice_val un flat_val st (Some s) = Some v"
      by (auto simp: slice_val_Some)
    obtain b st1 where b: "alloc (mk xs) st = (b, st1)" by fastforce
    have el: "elems un st1 (Slice b 0 (len s)) = Some xs"
      using alloc_cell [OF b] elems_len [OF x(1)] by (simp add: elems_def deref_def un)
    have vy: "slice_val un flat_val st1 (Some (Slice b 0 (len s))) = Some v"
      using x(2) by (simp add: slice_val_def el x(1) flat_val_def [abs_def])
    have "slice_reach un flat_reach st1 (Some (Slice b 0 (len s))) \<subseteq> dom (cells st1) - dom (cells st)"
      using alloc_cell [OF b] alloc_new [OF st b] by (simp add: slice_reach_def el flat_reach_def)
    then show ?thesis
      using extends_alloc [OF st b] vy by (simp add: copied_def slice_dup_def Some x(1) b)
  qed
qed

subsection \<open>Copies that a pointer is given out for\<close>

text \<open>
  What the caller of \<open>DeepCopy\<close> gets: a pointer to a new cell, through which one reads what one
  reads through the old pointer, in a store where no write to a cell of one of the two is seen
  through the other.
\<close>

definition separate_copy ::
  "('c \<Rightarrow> 'a option) \<Rightarrow> ('c store \<Rightarrow> 'a \<Rightarrow> addr set) \<Rightarrow> ('c store \<Rightarrow> 'a \<Rightarrow> 'v option) \<Rightarrow>
   'c store \<Rightarrow> addr \<Rightarrow> 'v \<Rightarrow> addr \<Rightarrow> 'c store \<Rightarrow> bool" where
  "separate_copy un reach val st p v q st' \<longleftrightarrow>
     extends st st' \<and> q \<notin> dom (cells st) \<and>
     ptr_val un val st' (Some p) = Some (Some v) \<and> ptr_val un val st' (Some q) = Some (Some v) \<and>
     (\<forall>a c. a \<in> ptr_reach un reach st' (Some q) \<longrightarrow> ptr_val un val (store_write a c st') (Some p) = Some (Some v)) \<and>
     (\<forall>a c. a \<in> ptr_reach un reach st' (Some p) \<longrightarrow> ptr_val un val (store_write a c st') (Some q) = Some (Some v))"

lemma ptr_into_Some:
  assumes "ptr_val un val st (Some p) = Some (Some v)"
  shows "\<exists>q st'. ptr_into mk un zero into (Some p) st = (Some q, st')"
  using assms by (auto simp: ptr_val_Some ptr_into_def split: prod.splits)

lemma ptr_copy_separate:
  assumes "copy_law into reach val" and "\<And>x. un (mk x) = Some x" and "store_ok st"
    and "ptr_val un val st (Some p) = Some (Some v)"
  shows "\<exists>q st'. ptr_into mk un zero into (Some p) st = (Some q, st') \<and>
    separate_copy un reach val st p v q st'"
proof -
  obtain q st' where q: "ptr_into mk un zero into (Some p) st = (Some q, st')"
    using ptr_into_Some [OF assms(4)] by blast
  note law = ptr_law [where mk = mk and un = un and zero = zero, OF assms(1,2)]
  note c = law_copy [OF law assms(3,4) q]
  then have e: "extends st st'" "ptr_val un val st' (Some q) = Some (Some v)"
    and r: "ptr_reach un reach st' (Some q) \<subseteq> dom (cells st') - dom (cells st)"
    by (simp_all add: copied_def)
  have "q \<notin> dom (cells st)" using r by (auto simp: ptr_reach_def)
  then have "separate_copy un reach val st p v q st'"
    unfolding separate_copy_def
    using e law_grows(1) [OF law assms(4) e(1)] law_separate [OF law assms(4) c] by blast
  with q show ?thesis by blast
qed

text \<open>
  Structs of other packages: their \<open>DeepCopyInto\<close> is a parameter, with the same contract.
\<close>

record ('x, 'c, 'v) ext_lib =
  xZero :: 'x
  xInto :: "'x \<Rightarrow> 'c store \<Rightarrow> 'x \<times> 'c store"
  xReach :: "'c store \<Rightarrow> 'x \<Rightarrow> addr set"
  xVal :: "'c store \<Rightarrow> 'x \<Rightarrow> 'v option"

definition ext_law :: "('x, 'c, 'v) ext_lib \<Rightarrow> bool" where
  "ext_law X \<longleftrightarrow> copy_law (xInto X) (xReach X) (xVal X)"

text \<open>An interface value: nil, or a pointer with the name of its type.  The pointer may be nil.\<close>

type_synonym iface = "(string \<times> addr option) option"

text \<open>\<open>DeepCopyObject\<close>: the copy as an interface, and the nil interface for a nil pointer.\<close>

definition copy_object :: "string \<Rightarrow> addr option \<times> 'c store \<Rightarrow> iface \<times> 'c store" where
  "copy_object tp r = (case r of (None, st) \<Rightarrow> (None, st) | (Some c, st) \<Rightarrow> (Some (tp, Some c), st))"

end
