(* ===== verification/DeepCopyZone.thy ===== *)
theory DeepCopyZone
  imports GoStore ZoneTypes
begin

text \<open>
  The generated copies of the Zone resource (\<open>pkg/zupd/api/v1alpha1/zz_generated.deepcopy.go\<close>),
  on an explicit store: the client's cache hands out such copies, and what the plugin writes to
  them must not reach the cache.  \<open>'x\<close> is the type of the structs of apimachinery (the metadata),
  whose copies are parameters.
\<close>

subsection \<open>The resource in memory\<close>

record gZoneStatus =
  gsDynamicRRs :: "slice option"
  gsSerial :: u32

record 'x gZone =
  gzTypeMeta :: "string \<times> string"
  gzObjectMeta :: 'x
  gzSpec :: ZoneSpec
  gzStatus :: gZoneStatus

record 'x gZoneList =
  gzlTypeMeta :: "string \<times> string"
  gzlListMeta :: 'x
  gzlItems :: "slice option"

datatype 'x zcell =
  CRRs "DynamicRR list"
| CRR DynamicRR
| CSpec ZoneSpec
| CStatus gZoneStatus
| CZone "'x gZone"
| CZones "'x gZone list"
| CZoneList "'x gZoneList"
| CZoneExt 'x

fun un_rrs :: "'x zcell \<Rightarrow> DynamicRR list option" where
  "un_rrs (CRRs x) = Some x" | "un_rrs _ = None"

fun un_rr :: "'x zcell \<Rightarrow> DynamicRR option" where
  "un_rr (CRR x) = Some x" | "un_rr _ = None"

fun un_spec :: "'x zcell \<Rightarrow> ZoneSpec option" where
  "un_spec (CSpec x) = Some x" | "un_spec _ = None"

fun un_status :: "'x zcell \<Rightarrow> gZoneStatus option" where
  "un_status (CStatus x) = Some x" | "un_status _ = None"

fun un_zone :: "'x zcell \<Rightarrow> 'x gZone option" where
  "un_zone (CZone x) = Some x" | "un_zone _ = None"

fun un_zones :: "'x zcell \<Rightarrow> 'x gZone list option" where
  "un_zones (CZones x) = Some x" | "un_zones _ = None"

fun un_zone_list :: "'x zcell \<Rightarrow> 'x gZoneList option" where
  "un_zone_list (CZoneList x) = Some x" | "un_zone_list _ = None"

type_synonym 'x zstore = "'x zcell store"
type_synonym ('x, 'v) zext = "('x, 'x zcell, 'v) ext_lib"

text \<open>Zero values, as \<open>new\<close> and \<open>make\<close> put them into memory.\<close>

definition zero_status :: gZoneStatus where
  "zero_status = \<lparr>gsDynamicRRs = None, gsSerial = 0\<rparr>"

definition zero_zone :: "('x, 'v) zext \<Rightarrow> 'x gZone" where
  "zero_zone X = \<lparr>gzTypeMeta = ('''', ''''), gzObjectMeta = xZero X, gzSpec = \<lparr>spZone = ''''\<rparr>, gzStatus = zero_status\<rparr>"

definition zero_zone_list :: "('x, 'v) zext \<Rightarrow> 'x gZoneList" where
  "zero_zone_list X = \<lparr>gzlTypeMeta = ('''', ''''), gzlListMeta = xZero X, gzlItems = None\<rparr>"

subsection \<open>The copies\<close>

text \<open>
  \<open>DeepCopyInto\<close> yields what it writes to its argument \<open>out\<close>; \<open>DeepCopy\<close> is \<open>ptr_into\<close>: nil for nil,
  else a new struct that is copied into.
\<close>

definition DynamicRR_DeepCopyInto :: "DynamicRR \<Rightarrow> 'x zstore \<Rightarrow> DynamicRR \<times> 'x zstore" where
  "DynamicRR_DeepCopyInto x st = (x, st)"

definition ZoneSpec_DeepCopyInto :: "ZoneSpec \<Rightarrow> 'x zstore \<Rightarrow> ZoneSpec \<times> 'x zstore" where
  "ZoneSpec_DeepCopyInto x st = (x, st)"

definition ZoneStatus_DeepCopyInto :: "gZoneStatus \<Rightarrow> 'x zstore \<Rightarrow> gZoneStatus \<times> 'x zstore" where
  "ZoneStatus_DeepCopyInto x st =
     (case slice_dup CRRs un_rrs (gsDynamicRRs x) st of (rrs, st') \<Rightarrow> (x\<lparr>gsDynamicRRs := rrs\<rparr>, st'))"

definition Zone_DeepCopyInto :: "('x, 'v) zext \<Rightarrow> 'x gZone \<Rightarrow> 'x zstore \<Rightarrow> 'x gZone \<times> 'x zstore" where
  "Zone_DeepCopyInto X x st =
     (case xInto X (gzObjectMeta x) st of (m, st1) \<Rightarrow>
        (case ZoneStatus_DeepCopyInto (gzStatus x) st1 of (s, st2) \<Rightarrow>
           (x\<lparr>gzTypeMeta := gzTypeMeta x, gzObjectMeta := m, gzSpec := gzSpec x, gzStatus := s\<rparr>, st2)))"

definition ZoneList_DeepCopyInto :: "('x, 'v) zext \<Rightarrow> 'x gZoneList \<Rightarrow> 'x zstore \<Rightarrow> 'x gZoneList \<times> 'x zstore" where
  "ZoneList_DeepCopyInto X x st =
     (case xInto X (gzlListMeta x) st of (m, st1) \<Rightarrow>
        (case slice_into CZones un_zones (zero_zone X) (Zone_DeepCopyInto X) (gzlItems x) st1 of (items, st2) \<Rightarrow>
           (x\<lparr>gzlTypeMeta := gzlTypeMeta x, gzlListMeta := m, gzlItems := items\<rparr>, st2)))"

definition DynamicRR_DeepCopy :: "addr option \<Rightarrow> 'x zstore \<Rightarrow> addr option \<times> 'x zstore" where
  "DynamicRR_DeepCopy = ptr_into CRR un_rr \<lparr>RR = ''''\<rparr> DynamicRR_DeepCopyInto"

definition ZoneSpec_DeepCopy :: "addr option \<Rightarrow> 'x zstore \<Rightarrow> addr option \<times> 'x zstore" where
  "ZoneSpec_DeepCopy = ptr_into CSpec un_spec \<lparr>spZone = ''''\<rparr> ZoneSpec_DeepCopyInto"

definition ZoneStatus_DeepCopy :: "addr option \<Rightarrow> 'x zstore \<Rightarrow> addr option \<times> 'x zstore" where
  "ZoneStatus_DeepCopy = ptr_into CStatus un_status zero_status ZoneStatus_DeepCopyInto"

definition Zone_DeepCopy :: "('x, 'v) zext \<Rightarrow> addr option \<Rightarrow> 'x zstore \<Rightarrow> addr option \<times> 'x zstore" where
  "Zone_DeepCopy X = ptr_into CZone un_zone (zero_zone X) (Zone_DeepCopyInto X)"

definition ZoneList_DeepCopy :: "('x, 'v) zext \<Rightarrow> addr option \<Rightarrow> 'x zstore \<Rightarrow> addr option \<times> 'x zstore" where
  "ZoneList_DeepCopy X = ptr_into CZoneList un_zone_list (zero_zone_list X) (ZoneList_DeepCopyInto X)"

definition Zone_DeepCopyObject :: "('x, 'v) zext \<Rightarrow> addr option \<Rightarrow> 'x zstore \<Rightarrow> iface \<times> 'x zstore" where
  "Zone_DeepCopyObject X p st = copy_object ''Zone'' (Zone_DeepCopy X p st)"

definition ZoneList_DeepCopyObject :: "('x, 'v) zext \<Rightarrow> addr option \<Rightarrow> 'x zstore \<Rightarrow> iface \<times> 'x zstore" where
  "ZoneList_DeepCopyObject X p st = copy_object ''ZoneList'' (ZoneList_DeepCopy X p st)"

subsection \<open>What a struct stands for\<close>

text \<open>The fields of a struct as a tuple, its contents and the addresses it is spread over.\<close>

definition status_fields :: "gZoneStatus \<Rightarrow> slice option \<times> u32" where
  "status_fields x = (gsDynamicRRs x, gsSerial x)"

definition status_val :: "'x zstore \<Rightarrow> gZoneStatus \<Rightarrow> (DynamicRR list option \<times> u32) option" where
  "status_val st x = pair_val (slice_val un_rrs flat_val) flat_val st (status_fields x)"

definition status_reach :: "'x zstore \<Rightarrow> gZoneStatus \<Rightarrow> addr set" where
  "status_reach st x = pair_reach (slice_reach un_rrs flat_reach) flat_reach st (status_fields x)"

definition zone_fields :: "'x gZone \<Rightarrow> (string \<times> string) \<times> 'x \<times> ZoneSpec \<times> gZoneStatus" where
  "zone_fields x = (gzTypeMeta x, gzObjectMeta x, gzSpec x, gzStatus x)"

definition zone_val ::
  "('x, 'v) zext \<Rightarrow> 'x zstore \<Rightarrow> 'x gZone \<Rightarrow>
   ((string \<times> string) \<times> 'v \<times> ZoneSpec \<times> (DynamicRR list option \<times> u32)) option" where
  "zone_val X st x = pair_val flat_val (pair_val (xVal X) (pair_val flat_val status_val)) st (zone_fields x)"

definition zone_reach :: "('x, 'v) zext \<Rightarrow> 'x zstore \<Rightarrow> 'x gZone \<Rightarrow> addr set" where
  "zone_reach X st x =
     pair_reach flat_reach (pair_reach (xReach X) (pair_reach flat_reach status_reach)) st (zone_fields x)"

definition zone_list_fields :: "'x gZoneList \<Rightarrow> (string \<times> string) \<times> 'x \<times> slice option" where
  "zone_list_fields x = (gzlTypeMeta x, gzlListMeta x, gzlItems x)"

definition zone_list_val ::
  "('x, 'v) zext \<Rightarrow> 'x zstore \<Rightarrow> 'x gZoneList \<Rightarrow>
   ((string \<times> string) \<times> 'v \<times>
     ((string \<times> string) \<times> 'v \<times> ZoneSpec \<times> (DynamicRR list option \<times> u32)) list option) option" where
  "zone_list_val X st x =
     pair_val flat_val (pair_val (xVal X) (slice_val un_zones (zone_val X))) st (zone_list_fields x)"

definition zone_list_reach :: "('x, 'v) zext \<Rightarrow> 'x zstore \<Rightarrow> 'x gZoneList \<Rightarrow> addr set" where
  "zone_list_reach X st x =
     pair_reach flat_reach (pair_reach (xReach X) (slice_reach un_zones (zone_reach X))) st (zone_list_fields x)"

subsection \<open>The copies keep the contract\<close>

lemma rr_law: "copy_law DynamicRR_DeepCopyInto flat_reach flat_val"
  using flat_law by (simp add: DynamicRR_DeepCopyInto_def [abs_def] flat_into_def [abs_def])

interpretation rr_copy: deep_copier DynamicRR_DeepCopyInto flat_reach flat_val
  by (rule deep_copier.intro [OF rr_law])

lemma spec_law: "copy_law ZoneSpec_DeepCopyInto flat_reach flat_val"
  using flat_law by (simp add: ZoneSpec_DeepCopyInto_def [abs_def] flat_into_def [abs_def])

interpretation spec_copy: deep_copier ZoneSpec_DeepCopyInto flat_reach flat_val
  by (rule deep_copier.intro [OF spec_law])

lemma status_law: "copy_law ZoneStatus_DeepCopyInto status_reach status_val"
  by (rule iso_law [where to = status_fields and g = "\<lambda>v. v"
        and frm = "\<lambda>(rrs, n). \<lparr>gsDynamicRRs = rrs, gsSerial = n\<rparr>",
        OF pair_law [OF slice_dup_law [where mk = CRRs and un = un_rrs] flat_law]])
    (simp_all add: status_fields_def ZoneStatus_DeepCopyInto_def status_reach_def status_val_def
      pair_into_def flat_into_def option.map_ident split: prod.splits)

interpretation status_copy: deep_copier ZoneStatus_DeepCopyInto status_reach status_val
  by (rule deep_copier.intro [OF status_law])

lemma zone_law:
  assumes "ext_law X"
  shows "copy_law (Zone_DeepCopyInto X) (zone_reach X) (zone_val X)"
  by (rule iso_law [where to = zone_fields and g = "\<lambda>v. v"
        and frm = "\<lambda>(t, m, s, u). \<lparr>gzTypeMeta = t, gzObjectMeta = m, gzSpec = s, gzStatus = u\<rparr>",
        OF pair_law [OF flat_law pair_law [OF assms [unfolded ext_law_def] pair_law [OF flat_law status_law]]]])
    (simp_all add: zone_fields_def Zone_DeepCopyInto_def zone_reach_def zone_val_def
      pair_into_def flat_into_def option.map_ident split: prod.splits)

lemma zone_list_law:
  assumes "ext_law X"
  shows "copy_law (ZoneList_DeepCopyInto X) (zone_list_reach X) (zone_list_val X)"
  by (rule iso_law [where to = zone_list_fields and g = "\<lambda>v. v"
        and frm = "\<lambda>(t, m, s). \<lparr>gzlTypeMeta = t, gzlListMeta = m, gzlItems = s\<rparr>",
        OF pair_law [OF flat_law pair_law [OF assms [unfolded ext_law_def]
          slice_law [where mk = CZones and un = un_zones and zero = "zero_zone X", OF zone_law [OF assms]]]]])
    (simp_all add: zone_list_fields_def ZoneList_DeepCopyInto_def zone_list_reach_def zone_list_val_def
      pair_into_def flat_into_def option.map_ident split: prod.splits)

subsection \<open>Properties\<close>

lemma copy_object_Some: "r = (Some q, st) \<Longrightarrow> copy_object tp r = (Some (tp, Some q), st)"
  by (simp add: copy_object_def)

lemma zone_copy_separate:
  assumes "ext_law X" and "store_ok st" and "ptr_val un_zone (zone_val X) st (Some p) = Some (Some v)"
  shows "\<exists>q st'. Zone_DeepCopyObject X (Some p) st = (Some (''Zone'', Some q), st') \<and>
    separate_copy un_zone (zone_reach X) (zone_val X) st p v q st'"
  using ptr_copy_separate [where mk = CZone and un = un_zone and zero = "zero_zone X", OF zone_law [OF assms(1)] _ assms(2,3)]
  by (auto simp: Zone_DeepCopyObject_def Zone_DeepCopy_def copy_object_Some)

text \<open>
  C22: the copies of Zone objects and of lists of them share nothing with the original.  The copy
  of an object is a new object that reads the same; whatever is written to a part of one of the
  two, the records of a status included, is not seen through the other.  Copying a nil pointer
  gives the nil interface, not an interface that holds a nil pointer.
\<close>

theorem zone_copies_are_separate:
  assumes "ext_law X" and "store_ok st" and "ptr_val un_zone (zone_val X) st (Some p) = Some (Some v)"
    and "ptr_val un_zone_list (zone_list_val X) st (Some l) = Some (Some vs)"
  shows "(\<exists>q st'. Zone_DeepCopyObject X (Some p) st = (Some (''Zone'', Some q), st') \<and>
      separate_copy un_zone (zone_reach X) (zone_val X) st p v q st') \<and>
    (\<exists>q st'. ZoneList_DeepCopyObject X (Some l) st = (Some (''ZoneList'', Some q), st') \<and>
      separate_copy un_zone_list (zone_list_reach X) (zone_list_val X) st l vs q st') \<and>
    Zone_DeepCopyObject X None st = (None, st) \<and> ZoneList_DeepCopyObject X None st = (None, st)"
proof (intro conjI)
  show "\<exists>q st'. ZoneList_DeepCopyObject X (Some l) st = (Some (''ZoneList'', Some q), st') \<and>
      separate_copy un_zone_list (zone_list_reach X) (zone_list_val X) st l vs q st'"
    using ptr_copy_separate [where mk = CZoneList and un = un_zone_list and zero = "zero_zone_list X",
        OF zone_list_law [OF assms(1)] _ assms(2,4)]
    by (auto simp: ZoneList_DeepCopyObject_def ZoneList_DeepCopy_def copy_object_Some)
qed (use zone_copy_separate [OF assms(1-3)] in
    \<open>simp_all add: Zone_DeepCopyObject_def ZoneList_DeepCopyObject_def Zone_DeepCopy_def ZoneList_DeepCopy_def
      ptr_into_def copy_object_def\<close>)

text \<open>A sample: metadata with a name and a pointer, an object in a list, and an object by itself.\<close>

definition sample_ext :: "(string \<times> addr option, string \<times> DynamicRR option) zext" where
  "sample_ext =
     \<lparr>xZero = ('''', None), xInto = pair_into flat_into (ptr_into CRR un_rr \<lparr>RR = ''''\<rparr> flat_into),
      xReach = pair_reach flat_reach (ptr_reach un_rr flat_reach), xVal = pair_val flat_val (ptr_val un_rr flat_val)\<rparr>"

lemma sample_ext_law: "ext_law sample_ext"
  using pair_law [OF flat_law ptr_law [where mk = CRR and un = un_rr, OF flat_law]]
  by (simp add: ext_law_def sample_ext_def)

definition sample_zone :: "(string \<times> addr option) gZone" where
  "sample_zone = \<lparr>gzTypeMeta = (''Zone'', ''v1alpha1''), gzObjectMeta = (''a'', Some 1), gzSpec = \<lparr>spZone = ''''\<rparr>,
     gzStatus = \<lparr>gsDynamicRRs = Some (Slice 0 1 1), gsSerial = 7\<rparr>\<rparr>"

definition sample_store :: "(string \<times> addr option) zstore" where
  "sample_store = Store [0 \<mapsto> CRRs [\<lparr>RR = ''x''\<rparr>, \<lparr>RR = ''y''\<rparr>], 1 \<mapsto> CRR \<lparr>RR = ''label''\<rparr>, 2 \<mapsto> CZone sample_zone,
     3 \<mapsto> CZones [sample_zone], 4 \<mapsto> CZoneList \<lparr>gzlTypeMeta = ('''', ''''), gzlListMeta = ('''', None),
       gzlItems = Some (Slice 3 0 1)\<rparr>] 5"

theorem zone_copies_are_separate_witness:
  "\<exists>q st'. Zone_DeepCopyObject sample_ext (Some 2) sample_store = (Some (''Zone'', Some q), st') \<and>
     ptr_val un_zone (zone_val sample_ext) (store_write q (CZone (zero_zone sample_ext)) st') (Some 2) =
       Some (Some ((''Zone'', ''v1alpha1''), (''a'', Some \<lparr>RR = ''label''\<rparr>), \<lparr>spZone = ''''\<rparr>, Some [\<lparr>RR = ''y''\<rparr>], 7))"
proof -
  let ?z = "((''Zone'', ''v1alpha1''), (''a'', Some \<lparr>RR = ''label''\<rparr>), \<lparr>spZone = ''''\<rparr>, Some [\<lparr>RR = ''y''\<rparr>], 7)"
  have ok: "store_ok sample_store" by (auto simp: store_ok_def sample_store_def split: if_splits)
  have z: "zone_val sample_ext sample_store sample_zone = Some ?z"
    by (simp add: zone_val_def zone_fields_def sample_zone_def sample_ext_def status_val_def status_fields_def
        pair_val_def flat_val_def ptr_val_def slice_val_def elems_def deref_def sample_store_def)
  have p: "ptr_val un_zone (zone_val sample_ext) sample_store (Some 2) = Some (Some ?z)"
    using z by (simp add: ptr_val_def deref_def sample_store_def)
  have l: "ptr_val un_zone_list (zone_list_val sample_ext) sample_store (Some 4) =
      Some (Some (('''', ''''), ('''', None), Some [?z]))"
    using z by (simp add: ptr_val_def zone_list_val_def zone_list_fields_def pair_val_def flat_val_def slice_val_def
        elems_def deref_def sample_store_def sample_ext_def)
  from zone_copies_are_separate [OF sample_ext_law ok p l]
  obtain q st' where q: "Zone_DeepCopyObject sample_ext (Some 2) sample_store = (Some (''Zone'', Some q), st')"
    "separate_copy un_zone (zone_reach sample_ext) (zone_val sample_ext) sample_store 2 ?z q st'" by blast
  have "q \<in> ptr_reach un_zone (zone_reach sample_ext) st' (Some q)" by (simp add: ptr_reach_def)
  with q show ?thesis unfolding separate_copy_def by blast
qed

end
