(* ===== verification/DeepCopyKsdns.thy ===== *)
theory DeepCopyKsdns
  imports GoStore KsdnsZone
begin

text \<open>
  The generated copies of the Ksdns resource (\<open>apis/dns/v1alpha1/zz_generated.deepcopy.go\<close>), on an
  explicit store, with every field of the resource.  The operator reads the resource from a
  cache through such a copy and changes its conditions in place.  \<open>'x\<close> is the type of the structs
  of other packages (metadata, resources, tolerations, affinities, conditions).
\<close>

subsection \<open>The resource in memory\<close>

record gKZone =
  gkzOrigin :: string
  gkzRecords :: "slice option"

record gExposeService =
  gxServiceType :: string
  gxExternalIPs :: "slice option"
  gxLoadBalancerIP :: string
  gxProvider :: string
  gxAnnotations :: "addr option"

record gExpose =
  geCoreDNS :: "addr option"
  geZupd :: "addr option"

record 'x gCoreDNS =
  gcImage :: string
  gcImagePullPolicy :: string
  gcResources :: 'x
  gcNodeSelector :: "addr option"
  gcTolerations :: "slice option"
  gcAffinity :: "addr option"
  gcReplicas :: "32 word"

record 'x gKsdnsSpec =
  gpZones :: "slice option"
  gpCoreDNS :: "'x gCoreDNS"
  gpSecret :: "addr option"
  gpExpose :: gExpose

record gKsdnsStatus =
  gtConditions :: "slice option"

record 'x gKsdns =
  gqTypeMeta :: "string \<times> string"
  gqObjectMeta :: 'x
  gqSpec :: "'x gKsdnsSpec"
  gqStatus :: gKsdnsStatus

record 'x gKsdnsList =
  gqlTypeMeta :: "string \<times> string"
  gqlListMeta :: 'x
  gqlItems :: "slice option"

datatype 'x kcell =
  KStrings "string list"
| KMap "string \<rightharpoonup> string"
| KRef string
| KRecord Record
| KRecords "Record list"
| KZn gKZone
| KZns "gKZone list"
| KExposeService gExposeService
| KExpose gExpose
| KCoreDNS "'x gCoreDNS"
| KSpec "'x gKsdnsSpec"
| KStatus gKsdnsStatus
| KKsdns "'x gKsdns"
| KKsdnses "'x gKsdns list"
| KKsdnsList "'x gKsdnsList"
| KExt 'x
| KExts "'x list"

fun un_strings where "un_strings (KStrings x) = Some x" | "un_strings _ = None"
fun un_map where "un_map (KMap x) = Some x" | "un_map _ = None"
fun un_ref where "un_ref (KRef x) = Some x" | "un_ref _ = None"
fun un_record where "un_record (KRecord x) = Some x" | "un_record _ = None"
fun un_records where "un_records (KRecords x) = Some x" | "un_records _ = None"
fun un_kzone where "un_kzone (KZn x) = Some x" | "un_kzone _ = None"
fun un_kzones where "un_kzones (KZns x) = Some x" | "un_kzones _ = None"
fun un_service where "un_service (KExposeService x) = Some x" | "un_service _ = None"
fun un_expose where "un_expose (KExpose x) = Some x" | "un_expose _ = None"
fun un_coredns where "un_coredns (KCoreDNS x) = Some x" | "un_coredns _ = None"
fun un_kspec where "un_kspec (KSpec x) = Some x" | "un_kspec _ = None"
fun un_kstatus where "un_kstatus (KStatus x) = Some x" | "un_kstatus _ = None"
fun un_ksdns where "un_ksdns (KKsdns x) = Some x" | "un_ksdns _ = None"
fun un_ksdnses where "un_ksdnses (KKsdnses x) = Some x" | "un_ksdnses _ = None"
fun un_ksdns_list where "un_ksdns_list (KKsdnsList x) = Some x" | "un_ksdns_list _ = None"
fun un_ext where "un_ext (KExt x) = Some x" | "un_ext _ = None"
fun un_exts where "un_exts (KExts x) = Some x" | "un_exts _ = None"

type_synonym 'x kstore = "'x kcell store"
type_synonym ('x, 'v) kext = "('x, 'x kcell, 'v) ext_lib"

text \<open>Zero values.\<close>

definition zero_record :: Record where
  "zero_record = \<lparr>rcName = '''', rcType = '''', rcTTL = 0, rcPriority = 0, rcWeight = 0, rcPort = 0,
     rcTarget = '''', rcText = ''''\<rparr>"

definition zero_kzone :: gKZone where
  "zero_kzone = \<lparr>gkzOrigin = '''', gkzRecords = None\<rparr>"

definition zero_service :: gExposeService where
  "zero_service = \<lparr>gxServiceType = '''', gxExternalIPs = None, gxLoadBalancerIP = '''', gxProvider = '''',
     gxAnnotations = None\<rparr>"

definition zero_expose :: gExpose where
  "zero_expose = \<lparr>geCoreDNS = None, geZupd = None\<rparr>"

definition zero_coredns :: "('x, 'v) kext \<Rightarrow> 'x gCoreDNS" where
  "zero_coredns X = \<lparr>gcImage = '''', gcImagePullPolicy = '''', gcResources = xZero X, gcNodeSelector = None,
     gcTolerations = None, gcAffinity = None, gcReplicas = 0\<rparr>"

definition zero_kspec :: "('x, 'v) kext \<Rightarrow> 'x gKsdnsSpec" where
  "zero_kspec X = \<lparr>gpZones = None, gpCoreDNS = zero_coredns X, gpSecret = None, gpExpose = zero_expose\<rparr>"

definition zero_kstatus :: gKsdnsStatus where
  "zero_kstatus = \<lparr>gtConditions = None\<rparr>"

definition zero_ksdns :: "('x, 'v) kext \<Rightarrow> 'x gKsdns" where
  "zero_ksdns X = \<lparr>gqTypeMeta = ('''', ''''), gqObjectMeta = xZero X, gqSpec = zero_kspec X, gqStatus = zero_kstatus\<rparr>"

definition zero_ksdns_list :: "('x, 'v) kext \<Rightarrow> 'x gKsdnsList" where
  "zero_ksdns_list X = \<lparr>gqlTypeMeta = ('''', ''''), gqlListMeta = xZero X, gqlItems = None\<rparr>"

subsection \<open>The copies\<close>

text \<open>A map is made anew and filled with the entries of the old one, a pointer gets a new struct.\<close>

definition copy_map :: "addr option \<Rightarrow> 'x kstore \<Rightarrow> addr option \<times> 'x kstore" where
  "copy_map = ptr_into KMap un_map Map.empty flat_into"

definition Record_DeepCopyInto :: "Record \<Rightarrow> 'x kstore \<Rightarrow> Record \<times> 'x kstore" where
  "Record_DeepCopyInto x st = (x, st)"

definition KZone_DeepCopyInto :: "gKZone \<Rightarrow> 'x kstore \<Rightarrow> gKZone \<times> 'x kstore" where
  "KZone_DeepCopyInto x st =
     (case slice_dup KRecords un_records (gkzRecords x) st of (rs, st') \<Rightarrow> (x\<lparr>gkzRecords := rs\<rparr>, st'))"

definition ExposeService_DeepCopyInto :: "gExposeService \<Rightarrow> 'x kstore \<Rightarrow> gExposeService \<times> 'x kstore" where
  "ExposeService_DeepCopyInto x st =
     (case slice_dup KStrings un_strings (gxExternalIPs x) st of (ips, st1) \<Rightarrow>
        (case copy_map (gxAnnotations x) st1 of (ann, st2) \<Rightarrow>
           (x\<lparr>gxExternalIPs := ips, gxAnnotations := ann\<rparr>, st2)))"

definition copy_service :: "addr option \<Rightarrow> 'x kstore \<Rightarrow> addr option \<times> 'x kstore" where
  "copy_service = ptr_into KExposeService un_service zero_service ExposeService_DeepCopyInto"

definition Expose_DeepCopyInto :: "gExpose \<Rightarrow> 'x kstore \<Rightarrow> gExpose \<times> 'x kstore" where
  "Expose_DeepCopyInto x st =
     (case copy_service (geCoreDNS x) st of (c, st1) \<Rightarrow>
        (case copy_service (geZupd x) st1 of (z, st2) \<Rightarrow> (x\<lparr>geCoreDNS := c, geZupd := z\<rparr>, st2)))"

definition CoreDNS_DeepCopyInto :: "('x, 'v) kext \<Rightarrow> 'x gCoreDNS \<Rightarrow> 'x kstore \<Rightarrow> 'x gCoreDNS \<times> 'x kstore" where
  "CoreDNS_DeepCopyInto X x st =
     (case xInto X (gcResources x) st of (r, st1) \<Rightarrow>
        (case copy_map (gcNodeSelector x) st1 of (sel, st2) \<Rightarrow>
           (case slice_into KExts un_exts (xZero X) (xInto X) (gcTolerations x) st2 of (tols, st3) \<Rightarrow>
              (case ptr_into KExt un_ext (xZero X) (xInto X) (gcAffinity x) st3 of (aff, st4) \<Rightarrow>
                 (x\<lparr>gcResources := r, gcNodeSelector := sel, gcTolerations := tols, gcAffinity := aff\<rparr>, st4)))))"

definition KsdnsSpec_DeepCopyInto :: "('x, 'v) kext \<Rightarrow> 'x gKsdnsSpec \<Rightarrow> 'x kstore \<Rightarrow> 'x gKsdnsSpec \<times> 'x kstore" where
  "KsdnsSpec_DeepCopyInto X x st =
     (case slice_into KZns un_kzones zero_kzone KZone_DeepCopyInto (gpZones x) st of (zs, st1) \<Rightarrow>
        (case CoreDNS_DeepCopyInto X (gpCoreDNS x) st1 of (c, st2) \<Rightarrow>
           (case ptr_into KRef un_ref '''' flat_into (gpSecret x) st2 of (sec, st3) \<Rightarrow>
              (case Expose_DeepCopyInto (gpExpose x) st3 of (e, st4) \<Rightarrow>
                 (x\<lparr>gpZones := zs, gpCoreDNS := c, gpSecret := sec, gpExpose := e\<rparr>, st4)))))"

definition KsdnsStatus_DeepCopyInto :: "('x, 'v) kext \<Rightarrow> gKsdnsStatus \<Rightarrow> 'x kstore \<Rightarrow> gKsdnsStatus \<times> 'x kstore" where
  "KsdnsStatus_DeepCopyInto X x st =
     (case slice_into KExts un_exts (xZero X) (xInto X) (gtConditions x) st of (cs, st') \<Rightarrow>
        (x\<lparr>gtConditions := cs\<rparr>, st'))"

definition Ksdns_DeepCopyInto :: "('x, 'v) kext \<Rightarrow> 'x gKsdns \<Rightarrow> 'x kstore \<Rightarrow> 'x gKsdns \<times> 'x kstore" where
  "Ksdns_DeepCopyInto X x st =
     (case xInto X (gqObjectMeta x) st of (m, st1) \<Rightarrow>
        (case KsdnsSpec_DeepCopyInto X (gqSpec x) st1 of (s, st2) \<Rightarrow>
           (case KsdnsStatus_DeepCopyInto X (gqStatus x) st2 of (t, st3) \<Rightarrow>
              (x\<lparr>gqTypeMeta := gqTypeMeta x, gqObjectMeta := m, gqSpec := s, gqStatus := t\<rparr>, st3))))"

definition KsdnsList_DeepCopyInto :: "('x, 'v) kext \<Rightarrow> 'x gKsdnsList \<Rightarrow> 'x kstore \<Rightarrow> 'x gKsdnsList \<times> 'x kstore" where
  "KsdnsList_DeepCopyInto X x st =
     (case xInto X (gqlListMeta x) st of (m, st1) \<Rightarrow>
        (case slice_into KKsdnses un_ksdnses (zero_ksdns X) (Ksdns_DeepCopyInto X) (gqlItems x) st1 of (items, st2) \<Rightarrow>
           (x\<lparr>gqlTypeMeta := gqlTypeMeta x, gqlListMeta := m, gqlItems := items\<rparr>, st2)))"

definition Record_DeepCopy :: "addr option \<Rightarrow> 'x kstore \<Rightarrow> addr option \<times> 'x kstore" where
  "Record_DeepCopy = ptr_into KRecord un_record zero_record Record_DeepCopyInto"

definition KZone_DeepCopy :: "addr option \<Rightarrow> 'x kstore \<Rightarrow> addr option \<times> 'x kstore" where
  "KZone_DeepCopy = ptr_into KZn un_kzone zero_kzone KZone_DeepCopyInto"

definition ExposeService_DeepCopy :: "addr option \<Rightarrow> 'x kstore \<Rightarrow> addr option \<times> 'x kstore" where
  "ExposeService_DeepCopy = ptr_into KExposeService un_service zero_service ExposeService_DeepCopyInto"

definition Expose_DeepCopy :: "addr option \<Rightarrow> 'x kstore \<Rightarrow> addr option \<times> 'x kstore" where
  "Expose_DeepCopy = ptr_into KExpose un_expose zero_expose Expose_DeepCopyInto"

definition CoreDNS_DeepCopy :: "('x, 'v) kext \<Rightarrow> addr option \<Rightarrow> 'x kstore \<Rightarrow> addr option \<times> 'x kstore" where
  "CoreDNS_DeepCopy X = ptr_into KCoreDNS un_coredns (zero_coredns X) (CoreDNS_DeepCopyInto X)"

definition KsdnsSpec_DeepCopy :: "('x, 'v) kext \<Rightarrow> addr option \<Rightarrow> 'x kstore \<Rightarrow> addr option \<times> 'x kstore" where
  "KsdnsSpec_DeepCopy X = ptr_into KSpec un_kspec (zero_kspec X) (KsdnsSpec_DeepCopyInto X)"

definition KsdnsStatus_DeepCopy :: "('x, 'v) kext \<Rightarrow> addr option \<Rightarrow> 'x kstore \<Rightarrow> addr option \<times> 'x kstore" where
  "KsdnsStatus_DeepCopy X = ptr_into KStatus un_kstatus zero_kstatus (KsdnsStatus_DeepCopyInto X)"

definition Ksdns_DeepCopy :: "('x, 'v) kext \<Rightarrow> addr option \<Rightarrow> 'x kstore \<Rightarrow> addr option \<times> 'x kstore" where
  "Ksdns_DeepCopy X = ptr_into KKsdns un_ksdns (zero_ksdns X) (Ksdns_DeepCopyInto X)"

definition KsdnsList_DeepCopy :: "('x, 'v) kext \<Rightarrow> addr option \<Rightarrow> 'x kstore \<Rightarrow> addr option \<times> 'x kstore" where
  "KsdnsList_DeepCopy X = ptr_into KKsdnsList un_ksdns_list (zero_ksdns_list X) (KsdnsList_DeepCopyInto X)"

definition Ksdns_DeepCopyObject :: "('x, 'v) kext \<Rightarrow> addr option \<Rightarrow> 'x kstore \<Rightarrow> iface \<times> 'x kstore" where
  "Ksdns_DeepCopyObject X p st = copy_object ''Ksdns'' (Ksdns_DeepCopy X p st)"

definition KsdnsList_DeepCopyObject :: "('x, 'v) kext \<Rightarrow> addr option \<Rightarrow> 'x kstore \<Rightarrow> iface \<times> 'x kstore" where
  "KsdnsList_DeepCopyObject X p st = copy_object ''KsdnsList'' (KsdnsList_DeepCopy X p st)"

subsection \<open>What a struct stands for\<close>

text \<open>The fields of a struct as a tuple, its contents and the addresses it is spread over.\<close>

type_synonym kzone_v = "string \<times> Record list option"
type_synonym service_v = "(string \<times> string \<times> string) \<times> string list option \<times> (string \<rightharpoonup> string) option"
type_synonym expose_v = "service_v option \<times> service_v option"
type_synonym 'v coredns_v =
  "(string \<times> string \<times> 32 word) \<times> 'v \<times> (string \<rightharpoonup> string) option \<times> 'v list option \<times> 'v option"
type_synonym 'v kspec_v = "kzone_v list option \<times> 'v coredns_v \<times> string option \<times> expose_v"
type_synonym 'v kstatus_v = "'v list option"
type_synonym 'v ksdns_v = "(string \<times> string) \<times> 'v \<times> 'v kspec_v \<times> 'v kstatus_v"
type_synonym 'v ksdns_list_v = "(string \<times> string) \<times> 'v \<times> 'v ksdns_v list option"

definition kzone_fields :: "gKZone \<Rightarrow> string \<times> slice option" where
  "kzone_fields x = (gkzOrigin x, gkzRecords x)"

definition kzone_val :: "'x kstore \<Rightarrow> gKZone \<Rightarrow> kzone_v option" where
  "kzone_val st x = pair_val flat_val (slice_val un_records flat_val) st (kzone_fields x)"

definition kzone_reach :: "'x kstore \<Rightarrow> gKZone \<Rightarrow> addr set" where
  "kzone_reach st x = pair_reach flat_reach (slice_reach un_records flat_reach) st (kzone_fields x)"

definition service_fields :: "gExposeService \<Rightarrow> (string \<times> string \<times> string) \<times> slice option \<times> addr option" where
  "service_fields x = ((gxServiceType x, gxLoadBalancerIP x, gxProvider x), gxExternalIPs x, gxAnnotations x)"

definition service_val :: "'x kstore \<Rightarrow> gExposeService \<Rightarrow> service_v option" where
  "service_val st x =
     pair_val flat_val (pair_val (slice_val un_strings flat_val) (ptr_val un_map flat_val)) st (service_fields x)"

definition service_reach :: "'x kstore \<Rightarrow> gExposeService \<Rightarrow> addr set" where
  "service_reach st x =
     pair_reach flat_reach (pair_reach (slice_reach un_strings flat_reach) (ptr_reach un_map flat_reach)) st
       (service_fields x)"

definition expose_fields :: "gExpose \<Rightarrow> addr option \<times> addr option" where
  "expose_fields x = (geCoreDNS x, geZupd x)"

definition expose_val :: "'x kstore \<Rightarrow> gExpose \<Rightarrow> expose_v option" where
  "expose_val st x = pair_val (ptr_val un_service service_val) (ptr_val un_service service_val) st (expose_fields x)"

definition expose_reach :: "'x kstore \<Rightarrow> gExpose \<Rightarrow> addr set" where
  "expose_reach st x =
     pair_reach (ptr_reach un_service service_reach) (ptr_reach un_service service_reach) st (expose_fields x)"

definition coredns_fields ::
  "'x gCoreDNS \<Rightarrow> (string \<times> string \<times> 32 word) \<times> 'x \<times> addr option \<times> slice option \<times> addr option" where
  "coredns_fields x =
     ((gcImage x, gcImagePullPolicy x, gcReplicas x), gcResources x, gcNodeSelector x, gcTolerations x, gcAffinity x)"

definition coredns_val :: "('x, 'v) kext \<Rightarrow> 'x kstore \<Rightarrow> 'x gCoreDNS \<Rightarrow> 'v coredns_v option" where
  "coredns_val X st x =
     pair_val flat_val (pair_val (xVal X) (pair_val (ptr_val un_map flat_val)
       (pair_val (slice_val un_exts (xVal X)) (ptr_val un_ext (xVal X))))) st (coredns_fields x)"

definition coredns_reach :: "('x, 'v) kext \<Rightarrow> 'x kstore \<Rightarrow> 'x gCoreDNS \<Rightarrow> addr set" where
  "coredns_reach X st x =
     pair_reach flat_reach (pair_reach (xReach X) (pair_reach (ptr_reach un_map flat_reach)
       (pair_reach (slice_reach un_exts (xReach X)) (ptr_reach un_ext (xReach X))))) st (coredns_fields x)"

definition kspec_fields :: "'x gKsdnsSpec \<Rightarrow> slice option \<times> 'x gCoreDNS \<times> addr option \<times> gExpose" where
  "kspec_fields x = (gpZones x, gpCoreDNS x, gpSecret x, gpExpose x)"

definition kspec_val :: "('x, 'v) kext \<Rightarrow> 'x kstore \<Rightarrow> 'x gKsdnsSpec \<Rightarrow> 'v kspec_v option" where
  "kspec_val X st x =
     pair_val (slice_val un_kzones kzone_val) (pair_val (coredns_val X)
       (pair_val (ptr_val un_ref flat_val) expose_val)) st (kspec_fields x)"

definition kspec_reach :: "('x, 'v) kext \<Rightarrow> 'x kstore \<Rightarrow> 'x gKsdnsSpec \<Rightarrow> addr set" where
  "kspec_reach X st x =
     pair_reach (slice_reach un_kzones kzone_reach) (pair_reach (coredns_reach X)
       (pair_reach (ptr_reach un_ref flat_reach) expose_reach)) st (kspec_fields x)"

definition kstatus_val :: "('x, 'v) kext \<Rightarrow> 'x kstore \<Rightarrow> gKsdnsStatus \<Rightarrow> 'v kstatus_v option" where
  "kstatus_val X st x = slice_val un_exts (xVal X) st (gtConditions x)"

definition kstatus_reach :: "('x, 'v) kext \<Rightarrow> 'x kstore \<Rightarrow> gKsdnsStatus \<Rightarrow> addr set" where
  "kstatus_reach X st x = slice_reach un_exts (xReach X) st (gtConditions x)"

definition ksdns_fields :: "'x gKsdns \<Rightarrow> (string \<times> string) \<times> 'x \<times> 'x gKsdnsSpec \<times> gKsdnsStatus" where
  "ksdns_fields x = (gqTypeMeta x, gqObjectMeta x, gqSpec x, gqStatus x)"

definition ksdns_val :: "('x, 'v) kext \<Rightarrow> 'x kstore \<Rightarrow> 'x gKsdns \<Rightarrow> 'v ksdns_v option" where
  "ksdns_val X st x =
     pair_val flat_val (pair_val (xVal X) (pair_val (kspec_val X) (kstatus_val X))) st (ksdns_fields x)"

definition ksdns_reach :: "('x, 'v) kext \<Rightarrow> 'x kstore \<Rightarrow> 'x gKsdns \<Rightarrow> addr set" where
  "ksdns_reach X st x =
     pair_reach flat_reach (pair_reach (xReach X) (pair_reach (kspec_reach X) (kstatus_reach X))) st (ksdns_fields x)"

definition ksdns_list_fields :: "'x gKsdnsList \<Rightarrow> (string \<times> string) \<times> 'x \<times> slice option" where
  "ksdns_list_fields x = (gqlTypeMeta x, gqlListMeta x, gqlItems x)"

definition ksdns_list_val :: "('x, 'v) kext \<Rightarrow> 'x kstore \<Rightarrow> 'x gKsdnsList \<Rightarrow> 'v ksdns_list_v option" where
  "ksdns_list_val X st x =
     pair_val flat_val (pair_val (xVal X) (slice_val un_ksdnses (ksdns_val X))) st (ksdns_list_fields x)"

definition ksdns_list_reach :: "('x, 'v) kext \<Rightarrow> 'x kstore \<Rightarrow> 'x gKsdnsList \<Rightarrow> addr set" where
  "ksdns_list_reach X st x =
     pair_reach flat_reach (pair_reach (xReach X) (slice_reach un_ksdnses (ksdns_reach X))) st (ksdns_list_fields x)"

subsection \<open>The copies keep the contract\<close>

lemma map_law: "copy_law copy_map (ptr_reach un_map flat_reach) (ptr_val un_map flat_val)"
  unfolding copy_map_def by (rule ptr_law [OF flat_law]) simp

lemma record_law: "copy_law Record_DeepCopyInto flat_reach flat_val"
  using flat_law by (simp add: Record_DeepCopyInto_def [abs_def] flat_into_def [abs_def])

interpretation record_copy: deep_copier Record_DeepCopyInto flat_reach flat_val
  by (rule deep_copier.intro [OF record_law])

lemma kzone_law: "copy_law KZone_DeepCopyInto kzone_reach kzone_val"
  by (rule iso_law [where to = kzone_fields and g = "\<lambda>v. v"
        and frm = "\<lambda>(n, rs). \<lparr>gkzOrigin = n, gkzRecords = rs\<rparr>",
        OF pair_law [OF flat_law slice_dup_law [where mk = KRecords and un = un_records]]])
    (simp_all add: kzone_fields_def KZone_DeepCopyInto_def kzone_reach_def kzone_val_def
      pair_into_def flat_into_def option.map_ident split: prod.splits)

interpretation kzone_copy: deep_copier KZone_DeepCopyInto kzone_reach kzone_val
  by (rule deep_copier.intro [OF kzone_law])

lemma service_law: "copy_law ExposeService_DeepCopyInto service_reach service_val"
  by (rule iso_law [where to = service_fields and g = "\<lambda>v. v"
        and frm = "\<lambda>((t, l, p), ips, ann). \<lparr>gxServiceType = t, gxExternalIPs = ips, gxLoadBalancerIP = l,
          gxProvider = p, gxAnnotations = ann\<rparr>",
        OF pair_law [OF flat_law pair_law [OF slice_dup_law [where mk = KStrings and un = un_strings] map_law]]])
    (simp_all add: service_fields_def ExposeService_DeepCopyInto_def service_reach_def service_val_def
      pair_into_def flat_into_def option.map_ident split: prod.splits)

interpretation service_copy: deep_copier ExposeService_DeepCopyInto service_reach service_val
  by (rule deep_copier.intro [OF service_law])

lemma copy_service_law: "copy_law copy_service (ptr_reach un_service service_reach) (ptr_val un_service service_val)"
  unfolding copy_service_def by (rule ptr_law [OF service_law]) simp

lemma expose_law: "copy_law Expose_DeepCopyInto expose_reach expose_val"
  by (rule iso_law [where to = expose_fields and g = "\<lambda>v. v"
        and frm = "\<lambda>(c, z). \<lparr>geCoreDNS = c, geZupd = z\<rparr>", OF pair_law [OF copy_service_law copy_service_law]])
    (simp_all add: expose_fields_def Expose_DeepCopyInto_def expose_reach_def expose_val_def
      pair_into_def option.map_ident split: prod.splits)

interpretation expose_copy: deep_copier Expose_DeepCopyInto expose_reach expose_val
  by (rule deep_copier.intro [OF expose_law])

lemma exts_law:
  assumes "ext_law X"
  shows "copy_law (slice_into KExts un_exts (xZero X) (xInto X)) (slice_reach un_exts (xReach X)) (slice_val un_exts (xVal X))"
  by (rule slice_law [OF assms [unfolded ext_law_def]]) simp

lemma affinity_law:
  assumes "ext_law X"
  shows "copy_law (ptr_into KExt un_ext (xZero X) (xInto X)) (ptr_reach un_ext (xReach X)) (ptr_val un_ext (xVal X))"
  by (rule ptr_law [OF assms [unfolded ext_law_def]]) simp

lemma coredns_law:
  assumes "ext_law X"
  shows "copy_law (CoreDNS_DeepCopyInto X) (coredns_reach X) (coredns_val X)"
  by (rule iso_law [where to = coredns_fields and g = "\<lambda>v. v"
        and frm = "\<lambda>((i, p, n), r, sel, tols, aff). \<lparr>gcImage = i, gcImagePullPolicy = p, gcResources = r,
          gcNodeSelector = sel, gcTolerations = tols, gcAffinity = aff, gcReplicas = n\<rparr>",
        OF pair_law [OF flat_law pair_law [OF assms [unfolded ext_law_def]
          pair_law [OF map_law pair_law [OF exts_law [OF assms] affinity_law [OF assms]]]]]])
    (simp_all add: coredns_fields_def CoreDNS_DeepCopyInto_def coredns_reach_def coredns_val_def
      pair_into_def flat_into_def option.map_ident split: prod.splits)

lemma zones_law:
  "copy_law (slice_into KZns un_kzones zero_kzone KZone_DeepCopyInto) (slice_reach un_kzones kzone_reach)
     (slice_val un_kzones kzone_val)"
  by (rule slice_law [OF kzone_law]) simp

lemma ref_law: "copy_law (ptr_into KRef un_ref '''' flat_into) (ptr_reach un_ref flat_reach) (ptr_val un_ref flat_val)"
  by (rule ptr_law [OF flat_law]) simp

lemma kspec_law:
  assumes "ext_law X"
  shows "copy_law (KsdnsSpec_DeepCopyInto X) (kspec_reach X) (kspec_val X)"
  by (rule iso_law [where to = kspec_fields and g = "\<lambda>v. v"
        and frm = "\<lambda>(zs, c, sec, e). \<lparr>gpZones = zs, gpCoreDNS = c, gpSecret = sec, gpExpose = e\<rparr>",
        OF pair_law [OF zones_law pair_law [OF coredns_law [OF assms] pair_law [OF ref_law expose_law]]]])
    (simp_all add: kspec_fields_def KsdnsSpec_DeepCopyInto_def kspec_reach_def kspec_val_def
      pair_into_def option.map_ident split: prod.splits)

lemma kstatus_law:
  assumes "ext_law X"
  shows "copy_law (KsdnsStatus_DeepCopyInto X) (kstatus_reach X) (kstatus_val X)"
  by (rule iso_law [where to = gtConditions and g = "\<lambda>v. v" and frm = "\<lambda>cs. \<lparr>gtConditions = cs\<rparr>",
        OF exts_law [OF assms]])
    (simp_all add: KsdnsStatus_DeepCopyInto_def kstatus_reach_def kstatus_val_def option.map_ident split: prod.splits)

lemma ksdns_law:
  assumes "ext_law X"
  shows "copy_law (Ksdns_DeepCopyInto X) (ksdns_reach X) (ksdns_val X)"
  by (rule iso_law [where to = ksdns_fields and g = "\<lambda>v. v"
        and frm = "\<lambda>(t, m, s, u). \<lparr>gqTypeMeta = t, gqObjectMeta = m, gqSpec = s, gqStatus = u\<rparr>",
        OF pair_law [OF flat_law pair_law [OF assms [unfolded ext_law_def]
          pair_law [OF kspec_law [OF assms] kstatus_law [OF assms]]]]])
    (simp_all add: ksdns_fields_def Ksdns_DeepCopyInto_def ksdns_reach_def ksdns_val_def
      pair_into_def flat_into_def option.map_ident split: prod.splits)

lemma ksdns_list_law:
  assumes "ext_law X"
  shows "copy_law (KsdnsList_DeepCopyInto X) (ksdns_list_reach X) (ksdns_list_val X)"
  by (rule iso_law [where to = ksdns_list_fields and g = "\<lambda>v. v"
        and frm = "\<lambda>(t, m, s). \<lparr>gqlTypeMeta = t, gqlListMeta = m, gqlItems = s\<rparr>",
        OF pair_law [OF flat_law pair_law [OF assms [unfolded ext_law_def]
          slice_law [where mk = KKsdnses and un = un_ksdnses and zero = "zero_ksdns X", OF ksdns_law [OF assms]]]]])
    (simp_all add: ksdns_list_fields_def KsdnsList_DeepCopyInto_def ksdns_list_reach_def ksdns_list_val_def
      pair_into_def flat_into_def option.map_ident split: prod.splits)

subsection \<open>Properties\<close>

text \<open>
  The array behind the conditions of a copy is the copy's own: the operator sets a condition of
  the resource it has read by writing to an element of this array.
\<close>

lemma conditions_reached:
  assumes "deref un_ksdns st q = Some k" and "gtConditions (gqStatus k) = Some s"
  shows "base s \<in> ptr_reach un_ksdns (ksdns_reach X) st (Some q)"
  using assms by (simp add: ptr_reach_def ksdns_reach_def pair_reach_def ksdns_fields_def kstatus_reach_def slice_reach_def)

text \<open>
  C23: the copies of Ksdns resources and of lists of them share nothing with the original.  The
  copy is a new object that reads the same, with its zones and their records, services,
  annotations, tolerations and conditions; whatever is written to a part of one of the two is
  not seen through the other.  In particular a condition that is set in the array of the copy
  leaves the original as it was.  A nil pointer is copied to the nil interface.
\<close>

theorem ksdns_copies_are_separate:
  assumes "ext_law X" and "store_ok st" and "ptr_val un_ksdns (ksdns_val X) st (Some p) = Some (Some v)"
    and "ptr_val un_ksdns_list (ksdns_list_val X) st (Some l) = Some (Some vs)"
  shows "(\<exists>q st'. Ksdns_DeepCopyObject X (Some p) st = (Some (''Ksdns'', Some q), st') \<and>
      separate_copy un_ksdns (ksdns_reach X) (ksdns_val X) st p v q st' \<and>
      (\<forall>k s cs. deref un_ksdns st' q = Some k \<longrightarrow> gtConditions (gqStatus k) = Some s \<longrightarrow>
         ptr_val un_ksdns (ksdns_val X) (store_write (base s) (KExts cs) st') (Some p) = Some (Some v))) \<and>
    (\<exists>q st'. KsdnsList_DeepCopyObject X (Some l) st = (Some (''KsdnsList'', Some q), st') \<and>
      separate_copy un_ksdns_list (ksdns_list_reach X) (ksdns_list_val X) st l vs q st') \<and>
    Ksdns_DeepCopyObject X None st = (None, st) \<and> KsdnsList_DeepCopyObject X None st = (None, st)"
proof (intro conjI)
  obtain q st' where q: "Ksdns_DeepCopy X (Some p) st = (Some q, st')"
    "separate_copy un_ksdns (ksdns_reach X) (ksdns_val X) st p v q st'"
    using ptr_copy_separate [where mk = KKsdns and un = un_ksdns and zero = "zero_ksdns X",
        OF ksdns_law [OF assms(1)] _ assms(2,3)]
    by (auto simp: Ksdns_DeepCopy_def)
  moreover have "\<forall>k s cs. deref un_ksdns st' q = Some k \<longrightarrow> gtConditions (gqStatus k) = Some s \<longrightarrow>
      ptr_val un_ksdns (ksdns_val X) (store_write (base s) (KExts cs) st') (Some p) = Some (Some v)"
    using q(2) conditions_reached [of st' q] unfolding separate_copy_def by blast
  ultimately show "\<exists>q st'. Ksdns_DeepCopyObject X (Some p) st = (Some (''Ksdns'', Some q), st') \<and>
      separate_copy un_ksdns (ksdns_reach X) (ksdns_val X) st p v q st' \<and>
      (\<forall>k s cs. deref un_ksdns st' q = Some k \<longrightarrow> gtConditions (gqStatus k) = Some s \<longrightarrow>
         ptr_val un_ksdns (ksdns_val X) (store_write (base s) (KExts cs) st') (Some p) = Some (Some v))"
    by (auto simp: Ksdns_DeepCopyObject_def copy_object_def)
  show "\<exists>q st'. KsdnsList_DeepCopyObject X (Some l) st = (Some (''KsdnsList'', Some q), st') \<and>
      separate_copy un_ksdns_list (ksdns_list_reach X) (ksdns_list_val X) st l vs q st'"
    using ptr_copy_separate [where mk = KKsdnsList and un = un_ksdns_list and zero = "zero_ksdns_list X",
        OF ksdns_list_law [OF assms(1)] _ assms(2,4)]
    by (auto simp: KsdnsList_DeepCopyObject_def KsdnsList_DeepCopy_def copy_object_def)
qed (simp_all add: Ksdns_DeepCopyObject_def KsdnsList_DeepCopyObject_def Ksdns_DeepCopy_def KsdnsList_DeepCopy_def
    ptr_into_def copy_object_def)

text \<open>A sample: structs of other packages have a text and a pointer to a map.\<close>

definition map_ext :: "(string \<times> addr option, string \<times> (string \<rightharpoonup> string) option) kext" where
  "map_ext = \<lparr>xZero = ('''', None), xInto = pair_into flat_into copy_map,
     xReach = pair_reach flat_reach (ptr_reach un_map flat_reach), xVal = pair_val flat_val (ptr_val un_map flat_val)\<rparr>"

lemma map_ext_law: "ext_law map_ext"
  using pair_law [OF flat_law map_law] by (simp add: ext_law_def map_ext_def)

definition ex_gksdns :: "(string \<times> addr option) gKsdns" where
  "ex_gksdns = \<lparr>gqTypeMeta = (''Ksdns'', ''v1alpha1''), gqObjectMeta = (''k'', Some 0),
     gqSpec = \<lparr>gpZones = Some (Slice 1 0 1), gpCoreDNS = zero_coredns map_ext, gpSecret = None,
       gpExpose = \<lparr>geCoreDNS = Some 3, geZupd = None\<rparr>\<rparr>,
     gqStatus = \<lparr>gtConditions = Some (Slice 4 0 1)\<rparr>\<rparr>"

definition ex_kstore :: "(string \<times> addr option) kstore" where
  "ex_kstore = Store [0 \<mapsto> KMap [''l'' \<mapsto> ''m''], 1 \<mapsto> KZns [\<lparr>gkzOrigin = ''a.org'', gkzRecords = Some (Slice 2 0 1)\<rparr>],
     2 \<mapsto> KRecords [zero_record], 3 \<mapsto> KExposeService zero_service, 4 \<mapsto> KExts [(''Degraded'', None)], 5 \<mapsto> KKsdns ex_gksdns,
     6 \<mapsto> KKsdnses [ex_gksdns],
     7 \<mapsto> KKsdnsList \<lparr>gqlTypeMeta = ('''', ''''), gqlListMeta = ('''', None), gqlItems = Some (Slice 6 0 1)\<rparr>] 8"

definition ex_gksdns_v :: "(string \<times> (string \<rightharpoonup> string) option) ksdns_v" where
  "ex_gksdns_v = ((''Ksdns'', ''v1alpha1''), (''k'', Some [''l'' \<mapsto> ''m'']),
     (Some [(''a.org'', Some [zero_record])], (('''', '''', 0), ('''', None), None, None, None), None,
      Some (('''', '''', ''''), None, None), None),
     Some [(''Degraded'', None)])"

lemma ex_ksdns_val: "ksdns_val map_ext ex_kstore ex_gksdns = Some ex_gksdns_v"
  by (simp add: ksdns_val_def ksdns_fields_def kspec_val_def kspec_fields_def coredns_val_def coredns_fields_def
      expose_val_def expose_fields_def service_val_def service_fields_def kstatus_val_def kzone_val_def kzone_fields_def
      ex_gksdns_def map_ext_def zero_coredns_def zero_service_def pair_val_def flat_val_def ptr_val_def slice_val_def
      elems_def deref_def ex_kstore_def ex_gksdns_v_def)

theorem ksdns_copies_are_separate_witness:
  "\<exists>q st'. Ksdns_DeepCopyObject map_ext (Some 5) ex_kstore = (Some (''Ksdns'', Some q), st') \<and>
     ptr_val un_ksdns (ksdns_val map_ext) st' (Some q) = Some (Some ex_gksdns_v) \<and>
     ptr_val un_ksdns (ksdns_val map_ext) (store_write q (KKsdns (zero_ksdns map_ext)) st') (Some 5) =
       Some (Some ex_gksdns_v)"
proof -
  have ok: "store_ok ex_kstore" by (auto simp: store_ok_def ex_kstore_def split: if_splits)
  have p: "ptr_val un_ksdns (ksdns_val map_ext) ex_kstore (Some 5) = Some (Some ex_gksdns_v)"
    using ex_ksdns_val by (simp add: ptr_val_def deref_def ex_kstore_def)
  have l: "ptr_val un_ksdns_list (ksdns_list_val map_ext) ex_kstore (Some 7) =
      Some (Some (('''', ''''), ('''', None), Some [ex_gksdns_v]))"
    using ex_ksdns_val by (simp add: ptr_val_def ksdns_list_val_def ksdns_list_fields_def pair_val_def flat_val_def
        slice_val_def elems_def deref_def ex_kstore_def map_ext_def)
  from ksdns_copies_are_separate [OF map_ext_law ok p l]
  obtain q st' where q: "Ksdns_DeepCopyObject map_ext (Some 5) ex_kstore = (Some (''Ksdns'', Some q), st')"
    "separate_copy un_ksdns (ksdns_reach map_ext) (ksdns_val map_ext) ex_kstore 5 ex_gksdns_v q st'" by blast
  have "q \<in> ptr_reach un_ksdns (ksdns_reach map_ext) st' (Some q)" by (simp add: ptr_reach_def)
  with q show ?thesis unfolding separate_copy_def by blast
qed

end
