(* ===== verification/GoTemplate.thy ===== *)
theory GoTemplate
  imports ParseIP
begin

text \<open>
  The part of Go's \<open>text/template\<close> the operator's templates use: text, fields of the parameters,
  variables, \<open>if\<close>, \<open>range\<close> with an index and an element, and \<open>end\<close>.  The lexer, the parser with its
  check of the variables in scope, and the execution on a struct of parameters.  A template
  outside this part does not parse in the model.
\<close>

subsection \<open>Lexer\<close>

text \<open>Text between actions, and the words of an action.\<close>

datatype token = Lit string | Act "string list"

fun words_acc :: "string \<Rightarrow> string \<Rightarrow> string list" where
  "words_acc acc [] = (if acc = [] then [] else [rev acc])"
| "words_acc acc (c # cs) =
     (if c = CHR '' '' then (if acc = [] then words_acc [] cs else rev acc # words_acc [] cs)
      else words_acc (c # acc) cs)"

fun lex_text :: "string \<Rightarrow> string \<Rightarrow> token list option"
  and lex_action :: "string \<Rightarrow> string \<Rightarrow> token list option" where
  "lex_text acc (c # d # cs) =
     (if c = CHR ''{'' \<and> d = CHR ''{'' then map_option (Cons (Lit (rev acc))) (lex_action [] cs)
      else lex_text (c # acc) (d # cs))"
| "lex_text acc cs = Some [Lit (rev acc @ cs)]"
| "lex_action acc (c # d # cs) =
     (if c = CHR ''}'' \<and> d = CHR ''}''
      then map_option (Cons (Act (words_acc [] (rev acc)))) (lex_text [] cs)
      else lex_action (c # acc) (d # cs))"
| "lex_action acc cs = None"

subsection \<open>Parser\<close>

datatype node =
    NText string
  | NField string
  | NVariable string
  | NIf string "node list"
  | NRange string string string "node list"

text \<open>An action that is still open, with what it will be once its body is known.\<close>

datatype opener = OIf string | ORange string string string

fun close_action :: "opener \<Rightarrow> node list \<Rightarrow> node" where
  "close_action (OIf f) body = NIf f body"
| "close_action (ORange i e f) body = NRange i e f body"

fun opened_variables :: "opener \<Rightarrow> string list" where
  "opened_variables (OIf f) = []"
| "opened_variables (ORange i e f) = [i, e]"

definition in_scope :: "(opener \<times> node list) list \<Rightarrow> string \<Rightarrow> bool" where
  "in_scope st x = (\<exists>(op, _) \<in> set st. x \<in> set (opened_variables op))"

definition is_field :: "string \<Rightarrow> bool" where
  "is_field w = (case w of c # n \<Rightarrow> c = CHR ''.'' \<and> n \<noteq> [] | [] \<Rightarrow> False)"

definition is_variable :: "string \<Rightarrow> bool" where
  "is_variable w = (case w of c # n \<Rightarrow> c = CHR ''$'' \<and> n \<noteq> [] | [] \<Rightarrow> False)"

text \<open>The actions that stand for themselves, and those that open a body.\<close>

definition simple_action :: "(opener \<times> node list) list \<Rightarrow> string list \<Rightarrow> node option" where
  "simple_action st ws =
     (case ws of
        [w] \<Rightarrow> if is_field w then Some (NField (tl w))
               else if is_variable w \<and> in_scope st w then Some (NVariable w) else None
      | _ \<Rightarrow> None)"

definition opening_action :: "string list \<Rightarrow> opener option" where
  "opening_action ws =
     (case ws of
        [k, f] \<Rightarrow> if k = ''if'' \<and> is_field f then Some (OIf (tl f)) else None
      | [k, i, e, d, f] \<Rightarrow>
          if k = ''range'' \<and> is_variable i \<and> last i = CHR '','' \<and> is_variable e \<and> d = '':='' \<and> is_field f
          then Some (ORange (butlast i) e (tl f)) else None
      | _ \<Rightarrow> None)"

text \<open>The open actions are a stack; the nodes read so far at each level are in reverse.\<close>

fun parse_tokens :: "(opener \<times> node list) list \<Rightarrow> node list \<Rightarrow> token list \<Rightarrow> node list option" where
  "parse_tokens st ns [] = (if st = [] then Some (rev ns) else None)"
| "parse_tokens st ns (Lit s # ts) = parse_tokens st (if s = [] then ns else NText s # ns) ts"
| "parse_tokens st ns (Act ws # ts) =
     (if ws = [''end'']
      then (case st of [] \<Rightarrow> None | (op, outer) # st' \<Rightarrow> parse_tokens st' (close_action op (rev ns) # outer) ts)
      else (case simple_action st ws of
              Some n \<Rightarrow> parse_tokens st (n # ns) ts
            | None \<Rightarrow> (case opening_action ws of
                        Some op \<Rightarrow> parse_tokens ((op, ns) # st) [] ts
                      | None \<Rightarrow> None)))"

definition parse_template :: "string \<Rightarrow> node list option" where
  "parse_template s = Option.bind (lex_text [] s) (parse_tokens [] [])"

text \<open>\<open>template.Must\<close>: an error of the parser panics while the package is initialised.\<close>

definition must_parse :: "string \<Rightarrow> node list go" where
  "must_parse s = (case parse_template s of Some ns \<Rightarrow> Ret ns | None \<Rightarrow> Panic)"

subsection \<open>Execution\<close>

datatype tvalue = VStr string | VBool bool | VList "string list" | VInt nat

fun print_value :: "tvalue \<Rightarrow> string" where
  "print_value (VStr s) = s"
| "print_value (VBool b) = (if b then ''true'' else ''false'')"
| "print_value (VList xs) =
     ''['' @ (case xs of [] \<Rightarrow> [] | y # ys \<Rightarrow> y @ concat (map (\<lambda>x. '' '' @ x) ys)) @ '']''"
| "print_value (VInt n) = decimal n"

fun truth :: "tvalue \<Rightarrow> bool" where
  "truth (VStr s) = (s \<noteq> [])"
| "truth (VBool b) = b"
| "truth (VList xs) = (xs \<noteq> [])"
| "truth (VInt n) = (n \<noteq> 0)"

fun concat_all :: "string option list \<Rightarrow> string option" where
  "concat_all [] = Some []"
| "concat_all (x # xs) = Option.bind x (\<lambda>s. map_option (append s) (concat_all xs))"

text \<open>
  \<open>Execute\<close>: an unknown field, an unknown variable and a range over something else than a list are
  errors.
\<close>

fun exec_node :: "(string \<rightharpoonup> tvalue) \<Rightarrow> (string \<rightharpoonup> tvalue) \<Rightarrow> node \<Rightarrow> string option"
  and exec_nodes :: "(string \<rightharpoonup> tvalue) \<Rightarrow> (string \<rightharpoonup> tvalue) \<Rightarrow> node list \<Rightarrow> string option" where
  "exec_node D V (NText s) = Some s"
| "exec_node D V (NField f) = map_option print_value (D f)"
| "exec_node D V (NVariable x) = map_option print_value (V x)"
| "exec_node D V (NIf f body) =
     (case D f of
        None \<Rightarrow> None
      | Some v \<Rightarrow> if truth v then exec_nodes D V body else Some [])"
| "exec_node D V (NRange i e f body) =
     (case D f of
        Some (VList xs) \<Rightarrow>
          concat_all (map (\<lambda>(n, x). exec_nodes D (V(i \<mapsto> VInt n, e \<mapsto> VStr x)) body) (enumerate 0 xs))
      | _ \<Rightarrow> None)"
| "exec_nodes D V [] = Some []"
| "exec_nodes D V (n # ns) =
     Option.bind (exec_node D V n) (\<lambda>s. map_option (append s) (exec_nodes D V ns))"

text \<open>What executing the source of a template on a struct gives.\<close>

definition run_template :: "string \<Rightarrow> (string \<rightharpoonup> tvalue) \<Rightarrow> string option" where
  "run_template s D = Option.bind (parse_template s) (exec_nodes D Map.empty)"

subsection \<open>Lemmas\<close>

lemma concat_all_map:
  assumes "\<And>x. x \<in> set xs \<Longrightarrow> f x = Some (g x)"
  shows "concat_all (map f xs) = Some (concat (map g xs))"
  using assms by (induction xs) auto

lemma map_enumerate_snd: "map (\<lambda>p. g (snd p)) (enumerate k xs) = map g xs"
  by (induction xs arbitrary: k) auto

text \<open>A range whose body depends on the element only.\<close>

lemma exec_range:
  assumes "D f = Some (VList xs)"
    and "\<And>n x. exec_nodes D (V(i \<mapsto> VInt n, e \<mapsto> VStr x)) body = Some (g x)"
  shows "exec_node D V (NRange i e f body) = Some (concat (map g xs))"
proof -
  have "concat_all (map (\<lambda>(n, x). exec_nodes D (V(i \<mapsto> VInt n, e \<mapsto> VStr x)) body) (enumerate 0 xs)) =
      Some (concat (map (\<lambda>p. g (snd p)) (enumerate 0 xs)))"
    by (rule concat_all_map) (auto simp: assms(2) simp del: exec_nodes.simps)
  then show ?thesis
    using assms(1) by (simp add: map_enumerate_snd)
qed

end
