(* ===== verification/KsdnsTemplates.thy ===== *)
theory KsdnsTemplates
  imports KsdnsZupd GoTemplate
begin

text \<open>
  The text templates of the operator (\<open>coredns.go\<close>, \<open>zupd.go\<close>), as they stand in the source, and
  that executing them gives the files the operator is modelled to write: the templates parse, so
  \<open>template.Must\<close> does not panic, and no execution fails.
\<close>

subsection \<open>Sources\<close>

definition coreDNSTsigSecretTmpl :: string where
  "coreDNSTsigSecretTmpl = text_lines
     [''key '' @ [dq] @ ''{{.Name}}'' @ [dq] @ '' {'',
      ''  secret '' @ [dq] @ ''{{.Secret}}'' @ [dq] @ '';'',
      ''};'']"

definition coreDNSCorefileTmpl :: string where
  "coreDNSCorefileTmpl = text_lines
     [''# This files is auto-generated by ksdns-controller. Do NOT edit.'',
      ''{{range $index, $element := .Zones}}{{$element}}:1053{{end}} {'',
      ''  {{if .Debug}}debug{{end}}'',
      ''  {{if .Debug}}log{{end}}'',
      ''  reload'',
      ''  ready'',
      ''  health'',
      ''  prometheus'',
      ''  tsig {'',
      [tab] @ ''secrets /etc/coredns/secret/tsig.conf'',
      [tab] @ ''require none'',
      ''  }'',
      ''  secondary {'',
      [tab] @ ''transfer from {{range $index, $element := .SecondaryFrom}}{{$element}}:1053 {{end}}'',
      ''  }'',
      ''}'']"

definition zupdCorefileTmpl :: string where
  "zupdCorefileTmpl = text_lines
     [''# This files is auto-generated by ksdns-controller. Do NOT edit.'',
      ''{{range $index, $element := .Zones}}{{$element}}:1053{{end}} {'',
      ''  {{if .Debug}}debug{{end}}'',
      ''  {{if .Debug}}log{{end}}'',
      ''  reload'',
      ''  ready'',
      ''  health'',
      ''  prometheus'',
      ''  tsig {'',
      [tab] @ ''secrets /etc/coredns/secret/tsig.conf'',
      [tab] @ ''require none'',
      ''  }'',
      ''  dynamicupdate {{.Namespace}}'',
      ''  transfer {'',
      ''    to *'',
      ''    #{{range $index, $element := .TransferTo}}to {{$element}}'',
      ''    #{{end}}'',
      ''  }'',
      ''}'']"

subsection \<open>Parameters\<close>

definition tsig_params :: "string \<Rightarrow> string \<Rightarrow> string \<rightharpoonup> tvalue" where
  "tsig_params key secret = [''Name'' \<mapsto> VStr key, ''Secret'' \<mapsto> VStr secret]"

definition coredns_params :: "string list \<Rightarrow> string list \<Rightarrow> bool \<Rightarrow> string \<rightharpoonup> tvalue" where
  "coredns_params zones secondaryFrom debug =
     [''Zones'' \<mapsto> VList zones, ''SecondaryFrom'' \<mapsto> VList secondaryFrom, ''Debug'' \<mapsto> VBool debug]"

definition zupd_params :: "string list \<Rightarrow> string list \<Rightarrow> string \<Rightarrow> bool \<Rightarrow> string \<rightharpoonup> tvalue" where
  "zupd_params zones transferTo namespace debug =
     [''Zones'' \<mapsto> VList zones, ''TransferTo'' \<mapsto> VList transferTo,
      ''Namespace'' \<mapsto> VStr namespace, ''Debug'' \<mapsto> VBool debug]"

subsection \<open>The parsed templates\<close>

definition tsig_nodes :: "node list" where
  "tsig_nodes =
     [NText (''key '' @ [dq]), NField ''Name'',
      NText ([dq] @ '' {'' @ [nl] @ ''  secret '' @ [dq]), NField ''Secret'',
      NText ([dq] @ '';'' @ [nl] @ ''};'' @ [nl])]"

definition corefile_head_nodes :: "node list" where
  "corefile_head_nodes =
     [NText (''# This files is auto-generated by ksdns-controller. Do NOT edit.'' @ [nl]),
      NRange ''$index'' ''$element'' ''Zones'' [NVariable ''$element'', NText '':1053''],
      NText ('' {'' @ [nl] @ ''  ''),
      NIf ''Debug'' [NText ''debug''],
      NText ([nl] @ ''  ''),
      NIf ''Debug'' [NText ''log'']]"

definition tsig_block :: string where
  "tsig_block = [nl] @ text_lines
     [''  reload'', ''  ready'', ''  health'', ''  prometheus'', ''  tsig {'',
      [tab] @ ''secrets /etc/coredns/secret/tsig.conf'', [tab] @ ''require none'', ''  }'']"

lemma parse_tsig: "parse_template coreDNSTsigSecretTmpl = Some tsig_nodes"
  by code_simp

lemma parse_coredns:
  "parse_template coreDNSCorefileTmpl = Some (corefile_head_nodes @
     [NText (tsig_block @ ''  secondary {'' @ [nl] @ [tab] @ ''transfer from ''),
      NRange ''$index'' ''$element'' ''SecondaryFrom'' [NVariable ''$element'', NText '':1053 ''],
      NText ([nl] @ ''  }'' @ [nl] @ ''}'' @ [nl])])"
  by code_simp

lemma parse_zupd:
  "parse_template zupdCorefileTmpl = Some (corefile_head_nodes @
     [NText (tsig_block @ ''  dynamicupdate ''), NField ''Namespace'',
      NText ([nl] @ ''  transfer {'' @ [nl] @ ''    to *'' @ [nl] @ ''    #''),
      NRange ''$index'' ''$element'' ''TransferTo''
        [NText ''to '', NVariable ''$element'', NText ([nl] @ ''    #'')],
      NText ([nl] @ ''  }'' @ [nl] @ ''}'' @ [nl])])"
  by code_simp

subsection \<open>Their execution\<close>

lemma exec_nodes_append:
  "exec_nodes D V ns = Some s \<Longrightarrow>
   exec_nodes D V (ns @ ms) = map_option (append s) (exec_nodes D V ms)"
  by (induction ns arbitrary: s; cases "exec_nodes D V ms") (auto simp: bind_eq_Some_conv)

lemma exec_each:
  assumes "D f = Some (VList xs)"
  shows "exec_node D V (NRange i e f [NVariable e, NText t]) = Some (concat (map (\<lambda>x. x @ t) xs))"
    and "exec_node D V (NRange i e f [NText u, NVariable e, NText t]) =
      Some (concat (map (\<lambda>x. u @ x @ t) xs))"
  by (rule exec_range, rule assms, simp)+

lemma exec_corefile_head:
  assumes "D ''Zones'' = Some (VList zones)" and "D ''Debug'' = Some (VBool debug)"
  shows "map_option (\<lambda>s. s @ tsig_block) (exec_nodes D V corefile_head_nodes) =
    Some (text_lines (corefile_head zones debug))"
  using assms
  by (simp add: corefile_head_nodes_def exec_each tsig_block_def corefile_head_def text_lines_def
      del: exec_node.simps(5))

lemma exec_with_head:
  assumes "D ''Zones'' = Some (VList zones)" and "D ''Debug'' = Some (VBool debug)"
  shows "exec_nodes D V (corefile_head_nodes @ NText (tsig_block @ t) # ns) =
    map_option (append (text_lines (corefile_head zones debug) @ t)) (exec_nodes D V ns)"
proof -
  obtain z where "exec_nodes D V corefile_head_nodes = Some z"
    and "text_lines (corefile_head zones debug) = z @ tsig_block"
    using exec_corefile_head[OF assms, of V] by auto
  then show ?thesis
    by (cases "exec_nodes D V ns") (simp_all add: exec_nodes_append)
qed

lemma text_lines_append: "text_lines (ls @ ms) = text_lines ls @ text_lines ms"
  by (simp add: text_lines_def)

text \<open>
  C38: the files of the operator are its templates, executed.  The three templates parse, and
  executing them on the parameters the render functions build never fails and gives the TSIG
  configuration and the two Corefiles.
\<close>

theorem templates_render_files:
  "(must_parse coreDNSTsigSecretTmpl \<noteq> Panic \<and> must_parse coreDNSCorefileTmpl \<noteq> Panic \<and>
     must_parse zupdCorefileTmpl \<noteq> Panic) \<and>
   run_template coreDNSTsigSecretTmpl (tsig_params key secret) = Some (renderCoreFileTsigSecret key secret) \<and>
   run_template coreDNSCorefileTmpl (coredns_params zones secondaryFrom debug) =
     Some (renderCoreDNSCorefile zones secondaryFrom debug) \<and>
   run_template zupdCorefileTmpl (zupd_params zones transferTo namespace debug) =
     Some (renderZupdDNSCorefile zones transferTo namespace debug)"
proof (intro conjI)
  show "must_parse coreDNSTsigSecretTmpl \<noteq> Panic" "must_parse coreDNSCorefileTmpl \<noteq> Panic"
    "must_parse zupdCorefileTmpl \<noteq> Panic"
    by (simp_all add: must_parse_def parse_tsig parse_coredns parse_zupd)
  show "run_template coreDNSTsigSecretTmpl (tsig_params key secret) = Some (renderCoreFileTsigSecret key secret)"
    by (simp add: run_template_def parse_tsig tsig_nodes_def tsig_params_def renderCoreFileTsigSecret_def
        text_lines_def)
  show "run_template coreDNSCorefileTmpl (coredns_params zones secondaryFrom debug) =
    Some (renderCoreDNSCorefile zones secondaryFrom debug)"
    by (simp add: run_template_def parse_coredns coredns_params_def exec_with_head exec_each
        renderCoreDNSCorefile_def text_lines_append del: exec_node.simps(5)) (simp add: text_lines_def)
  show "run_template zupdCorefileTmpl (zupd_params zones transferTo namespace debug) =
    Some (renderZupdDNSCorefile zones transferTo namespace debug)"
    by (simp add: run_template_def parse_zupd zupd_params_def exec_with_head exec_each
        renderZupdDNSCorefile_def text_lines_append del: exec_node.simps(5)) (simp add: text_lines_def)
qed

end
