(* ===== verification/Schemes.thy ===== *)
theory Schemes
  imports Watches
begin

text \<open>
  The API groups of the two custom resources (\<open>groupversion_info.go\<close> of both API packages), the
  types their packages register, the schemes the two programs build when they are initialised
  (\<open>src/main.go\<close>, \<open>manager.go\<close>), and the permissions of the operator: the markers above its
  reconciler and the role for the leader election that is shipped with it.  The runtime of the
  schemes and the API server are parameters.
\<close>

subsection \<open>Groups and types\<close>

record GroupVersion =
  gvGroup :: string
  gvVersion :: string

definition dns_GroupVersion :: GroupVersion where
  "dns_GroupVersion = \<lparr>gvGroup = ''dns.ksdns.io'', gvVersion = ''v1alpha1''\<rparr>"

definition rfc1035_GroupVersion :: GroupVersion where
  "rfc1035_GroupVersion = \<lparr>gvGroup = ''rfc1035.ksdns.io'', gvVersion = ''v1alpha1''\<rparr>"

text \<open>A builder of schemes: its group version and the kinds registered with it.\<close>

record SchemeBuilder =
  sbGroupVersion :: GroupVersion
  sbKinds :: "string list"

definition Register :: "string list \<Rightarrow> SchemeBuilder \<Rightarrow> SchemeBuilder" where
  "Register ks b = b\<lparr>sbKinds := sbKinds b @ ks\<rparr>"

definition dns_builder :: SchemeBuilder where
  "dns_builder = Register [''Ksdns'', ''KsdnsList''] \<lparr>sbGroupVersion = dns_GroupVersion, sbKinds = []\<rparr>"

definition rfc1035_builder :: SchemeBuilder where
  "rfc1035_builder = Register [''Zone'', ''ZoneList''] \<lparr>sbGroupVersion = rfc1035_GroupVersion, sbKinds = []\<rparr>"

subsection \<open>The schemes of the programs\<close>

text \<open>
  \<open>sClientgo\<close> is \<open>AddToScheme\<close> of client-go, \<open>sBuild\<close> the one of a builder.  \<open>Must\<close> panics on an
  error, and all of this runs while the package is initialised.
\<close>

record 's scheme_lib =
  sNew :: 's
  sClientgo :: "'s \<Rightarrow> string + 's"
  sBuild :: "SchemeBuilder \<Rightarrow> 's \<Rightarrow> string + 's"
  sKnows :: "'s \<Rightarrow> GroupVersion \<Rightarrow> string \<Rightarrow> bool"

definition Must :: "string + 's \<Rightarrow> 's go" where
  "Must r = (case r of Inl _ \<Rightarrow> Panic | Inr s \<Rightarrow> Ret s)"

definition operator_scheme :: "('s, 'm) scheme_lib_scheme \<Rightarrow> 's go" where
  "operator_scheme S =
     go_bind (Must (sClientgo S (sNew S))) (\<lambda>s1.
     go_bind (Must (sBuild S dns_builder s1)) (\<lambda>s2. Must (sBuild S rfc1035_builder s2)))"

definition plugin_scheme :: "('s, 'm) scheme_lib_scheme \<Rightarrow> 's go" where
  "plugin_scheme S =
     go_bind (Must (sClientgo S (sNew S))) (\<lambda>s1. Must (sBuild S rfc1035_builder s1))"

text \<open>
  What is relied on: adding types keeps those that are known; client-go knows the built-in kinds;
  the scheme of a builder is added without an error when none of its kinds is known yet, and then
  knows them.
\<close>

definition kind_group :: "string \<Rightarrow> GroupVersion" where
  "kind_group kd =
     (if kd \<in> {''Ksdns'', ''KsdnsList''} then dns_GroupVersion
      else if kd \<in> {''Zone'', ''ZoneList''} then rfc1035_GroupVersion
      else if kd \<in> {''Role'', ''RoleBinding''}
      then \<lparr>gvGroup = ''rbac.authorization.k8s.io'', gvVersion = ''v1''\<rparr>
      else if kd = ''Deployment'' then \<lparr>gvGroup = ''apps'', gvVersion = ''v1''\<rparr>
      else \<lparr>gvGroup = '''', gvVersion = ''v1''\<rparr>)"

definition builtin_kinds :: "string list" where
  "builtin_kinds =
     [''Secret'', ''ConfigMap'', ''Service'', ''ServiceAccount'', ''Pod'', ''PodList'', ''Deployment'', ''Role'',
      ''RoleBinding'']"

definition clientgo_law :: "('s, 'm) scheme_lib_scheme \<Rightarrow> 's \<Rightarrow> bool" where
  "clientgo_law S s \<longleftrightarrow>
     sClientgo S (sNew S) = Inr s \<and> list_all (\<lambda>kd. sKnows S s (kind_group kd) kd) builtin_kinds \<and>
     (\<forall>gv kd. sKnows S s gv kd \<longrightarrow> gv \<noteq> dns_GroupVersion \<and> gv \<noteq> rfc1035_GroupVersion)"

definition builder_law :: "('s, 'm) scheme_lib_scheme \<Rightarrow> SchemeBuilder \<Rightarrow> 's \<Rightarrow> 's \<Rightarrow> bool" where
  "builder_law S b s s' \<longleftrightarrow>
     sBuild S b s = Inr s' \<and>
     (\<forall>gv kd. sKnows S s' gv kd = (sKnows S s gv kd \<or> gv = sbGroupVersion b \<and> kd \<in> set (sbKinds b)))"

definition scheme_laws :: "('s, 'm) scheme_lib_scheme \<Rightarrow> bool" where
  "scheme_laws S \<longleftrightarrow>
     (\<exists>s. clientgo_law S s) \<and>
     (\<forall>b s. list_all (\<lambda>kd. \<not> sKnows S s (sbGroupVersion b) kd) (sbKinds b) \<longrightarrow> (\<exists>s'. builder_law S b s s'))"

lemma builder_simps [simp]:
  "sbGroupVersion dns_builder = dns_GroupVersion" "sbKinds dns_builder = [''Ksdns'', ''KsdnsList'']"
  "sbGroupVersion rfc1035_builder = rfc1035_GroupVersion" "sbKinds rfc1035_builder = [''Zone'', ''ZoneList'']"
  by (simp_all add: dns_builder_def rfc1035_builder_def Register_def)

lemma clientgo_adds: "scheme_laws S \<Longrightarrow> \<exists>s. clientgo_law S s"
  by (simp add: scheme_laws_def)

lemma build_adds:
  "scheme_laws S \<Longrightarrow> list_all (\<lambda>kd. \<not> sKnows S s (sbGroupVersion b) kd) (sbKinds b) \<Longrightarrow>
   \<exists>s'. builder_law S b s s'"
  by (simp add: scheme_laws_def)

lemma Must_laws:
  "clientgo_law S s \<Longrightarrow> Must (sClientgo S (sNew S)) = Ret s"
  "builder_law S b s s' \<Longrightarrow> Must (sBuild S b s) = Ret s'"
  by (simp_all add: clientgo_law_def builder_law_def Must_def)

lemma groups_differ: "rfc1035_GroupVersion \<noteq> dns_GroupVersion"
  by (simp add: rfc1035_GroupVersion_def dns_GroupVersion_def)

text \<open>
  Both programs come up with a scheme that knows the kinds they read and write; the update
  server's does not know the Ksdns resource, which it never touches.
\<close>

lemma operator_scheme_knows:
  assumes "scheme_laws S"
  shows "\<exists>s. operator_scheme S = Ret s \<and>
    list_all (\<lambda>kd. sKnows S s (kind_group kd) kd)
      (builtin_kinds @ [''Ksdns'', ''KsdnsList'', ''Zone'', ''ZoneList''])"
proof -
  obtain s1 where 1: "clientgo_law S s1" using clientgo_adds[OF assms] by blast
  have f: "\<not> sKnows S s1 dns_GroupVersion kd" "\<not> sKnows S s1 rfc1035_GroupVersion kd" for kd
    using 1 by (auto simp: clientgo_law_def)
  have "list_all (\<lambda>kd. \<not> sKnows S s1 (sbGroupVersion dns_builder) kd) (sbKinds dns_builder)"
    by (simp add: f)
  then obtain s2 where 2: "builder_law S dns_builder s1 s2" using build_adds[OF assms] by blast
  have k2: "sKnows S s2 gv kd = (sKnows S s1 gv kd \<or> gv = dns_GroupVersion \<and> kd \<in> {''Ksdns'', ''KsdnsList''})"
    for gv kd using 2 by (simp add: builder_law_def)
  have "list_all (\<lambda>kd. \<not> sKnows S s2 (sbGroupVersion rfc1035_builder) kd) (sbKinds rfc1035_builder)"
    by (simp add: k2 f groups_differ)
  then obtain s3 where 3: "builder_law S rfc1035_builder s2 s3" using build_adds[OF assms] by blast
  have k3: "sKnows S s3 gv kd = (sKnows S s2 gv kd \<or> gv = rfc1035_GroupVersion \<and> kd \<in> {''Zone'', ''ZoneList''})"
    for gv kd using 3 by (simp add: builder_law_def)
  have "list_all (\<lambda>kd. sKnows S s1 (kind_group kd) kd) builtin_kinds" using 1 by (simp add: clientgo_law_def)
  then have "list_all (\<lambda>kd. sKnows S s3 (kind_group kd) kd) builtin_kinds"
    by (rule list.pred_mono_strong) (simp add: k2 k3)
  moreover have "list_all (\<lambda>kd. sKnows S s3 (kind_group kd) kd) [''Ksdns'', ''KsdnsList'', ''Zone'', ''ZoneList'']"
    by (simp add: k2 k3 kind_group_def)
  ultimately show ?thesis
    using Must_laws(1)[OF 1] Must_laws(2)[OF 2] Must_laws(2)[OF 3] by (simp add: operator_scheme_def)
qed

lemma plugin_scheme_knows:
  assumes "scheme_laws S"
  shows "\<exists>s. plugin_scheme S = Ret s \<and> sKnows S s rfc1035_GroupVersion ''Zone'' \<and>
    sKnows S s rfc1035_GroupVersion ''ZoneList'' \<and> (\<forall>kd. \<not> sKnows S s dns_GroupVersion kd)"
proof -
  obtain s1 where 1: "clientgo_law S s1" using clientgo_adds[OF assms] by blast
  have f: "\<not> sKnows S s1 dns_GroupVersion kd" "\<not> sKnows S s1 rfc1035_GroupVersion kd" for kd
    using 1 by (auto simp: clientgo_law_def)
  have "list_all (\<lambda>kd. \<not> sKnows S s1 (sbGroupVersion rfc1035_builder) kd) (sbKinds rfc1035_builder)"
    by (simp add: f)
  then obtain s2 where 2: "builder_law S rfc1035_builder s1 s2" using build_adds[OF assms] by blast
  have k2: "sKnows S s2 gv kd = (sKnows S s1 gv kd \<or> gv = rfc1035_GroupVersion \<and> kd \<in> {''Zone'', ''ZoneList''})"
    for gv kd using 2 by (simp add: builder_law_def)
  have "plugin_scheme S = Ret s2"
    using Must_laws(1)[OF 1] Must_laws(2)[OF 2] by (simp add: plugin_scheme_def)
  then show ?thesis by (simp add: k2 f groups_differ [symmetric])
qed

text \<open>Schemes as sets of kinds have these laws.\<close>

definition set_schemes :: "(GroupVersion \<times> string) set scheme_lib" where
  "set_schemes =
     \<lparr>sNew = {},
      sClientgo = (\<lambda>s. Inr (s \<union> set (map (\<lambda>kd. (kind_group kd, kd)) builtin_kinds))),
      sBuild = (\<lambda>b s. Inr (s \<union> Pair (sbGroupVersion b) ` set (sbKinds b))),
      sKnows = (\<lambda>s gv kd. (gv, kd) \<in> s)\<rparr>"

lemma builtin_groups:
  "kd \<in> set builtin_kinds \<Longrightarrow> kind_group kd \<noteq> dns_GroupVersion \<and> kind_group kd \<noteq> rfc1035_GroupVersion"
  by (auto simp: builtin_kinds_def kind_group_def dns_GroupVersion_def rfc1035_GroupVersion_def)

lemma set_schemes_laws: "scheme_laws set_schemes"
proof -
  have "clientgo_law set_schemes (set (map (\<lambda>kd. (kind_group kd, kd)) builtin_kinds))"
    using builtin_groups by (auto simp: clientgo_law_def set_schemes_def list_all_iff)
  moreover have "builder_law set_schemes b s (s \<union> Pair (sbGroupVersion b) ` set (sbKinds b))" for b s
    by (auto simp: builder_law_def set_schemes_def)
  ultimately show ?thesis unfolding scheme_laws_def by blast
qed

end
