(* ===== verification/Access.thy ===== *)
theory Access
  imports Schemes
begin

text \<open>
  What the operator may do in a cluster: the permissions that its markers ask for
  (\<open>controllers/dns/controller.go\<close>) and that the role shipped for its leader election grants
  (\<open>config/rbac/leader_election_role.yaml\<close>), against the objects it has to read and write.
\<close>

subsection \<open>Permissions\<close>

text \<open>
  The markers above \<open>Reconcile\<close>.  The shipped \<open>config/rbac/role.yaml\<close> holds the first three of
  them only, and so allows no more.
\<close>

definition marker_rules :: "PolicyRule list" where
  "marker_rules =
     [\<lparr>prGroups = [''dns.ksdns.io''], prResources = [''ksdns''], prVerbs = all_verbs\<rparr>,
      \<lparr>prGroups = [''dns.ksdns.io''], prResources = [''ksdns/status''], prVerbs = [''get'', ''update'', ''patch'']\<rparr>,
      \<lparr>prGroups = [''dns.ksdns.io''], prResources = [''ksdns/finalizers''], prVerbs = [''update'']\<rparr>,
      \<lparr>prGroups = [''rfc1035.ksdns.io''], prResources = [''zones''], prVerbs = all_verbs\<rparr>,
      \<lparr>prGroups = [''rfc1035.ksdns.io''], prResources = [''zones/status''], prVerbs = [''get'', ''update'', ''patch'']\<rparr>,
      \<lparr>prGroups = [''rfc1035.ksdns.io''], prResources = [''zones/finalizers''], prVerbs = [''update'']\<rparr>]"

definition leader_election_rules :: "PolicyRule list" where
  "leader_election_rules =
     [\<lparr>prGroups = [''''], prResources = [''configmaps''], prVerbs = all_verbs\<rparr>,
      \<lparr>prGroups = [''coordination.k8s.io''], prResources = [''leases''], prVerbs = all_verbs\<rparr>,
      \<lparr>prGroups = [''''], prResources = [''events''], prVerbs = [''create'', ''patch'']\<rparr>]"

definition operator_rules :: "PolicyRule list" where
  "operator_rules = marker_rules @ leader_election_rules"

text \<open>The resource a kind of objects is served as.\<close>

definition kind_resource :: "string \<Rightarrow> string" where
  "kind_resource kd =
     (if kd = ''Zone'' then ''zones'' else if kd = ''ConfigMap'' then ''configmaps''
      else if kd = ''Secret'' then ''secrets'' else if kd = ''ServiceAccount'' then ''serviceaccounts''
      else if kd = ''Service'' then ''services'' else if kd = ''Deployment'' then ''deployments''
      else if kd = ''Role'' then ''roles'' else if kd = ''RoleBinding'' then ''rolebindings''
      else '''')"

definition may :: "PolicyRule list \<Rightarrow> string \<Rightarrow> string \<Rightarrow> bool" where
  "may rules verb kd = rules_allow rules (gvGroup (kind_group kd)) (kind_resource kd) verb"

lemma operator_may_not:
  "kd \<in> {''Secret'', ''ServiceAccount'', ''Service'', ''Deployment'', ''Role'', ''RoleBinding''} \<Longrightarrow>
   \<not> may operator_rules verb kd"
  by (auto simp: may_def operator_rules_def marker_rules_def leader_election_rules_def rules_allow_def
      rule_allows_def kind_group_def kind_resource_def dns_GroupVersion_def rfc1035_GroupVersion_def)

lemma operator_may:
  assumes "verb \<in> set all_verbs"
  shows "may operator_rules verb ''Zone''" and "may operator_rules verb ''ConfigMap''"
  using assms by (simp_all add: may_def operator_rules_def marker_rules_def leader_election_rules_def
      rules_allow_def rule_allows_def kind_group_def kind_resource_def rfc1035_GroupVersion_def)

lemma sure_kinds:
  "key \<in> sure_keys k \<Longrightarrow>
   fst key \<in> {''ConfigMap'', ''Secret'', ''ServiceAccount'', ''Service'', ''Deployment'', ''Role'', ''RoleBinding''}"
  by (auto simp: sure_keys_def coredns_kinds_def)

subsection \<open>The operator under its permissions\<close>

text \<open>
  C30: the permissions of the operator do not cover what it has to write.  Of the objects that a
  reconciliation without an error is sure to leave, the markers and the role for the leader election
  allow no verb at all on any but the Corefile of the secondary server (and that only through the
  leader election's access to configmaps); and of the kinds the controller is registered to own,
  they allow to list and to watch the zones and the configmaps only.
\<close>

theorem permissions_omit_objects:
  assumes "key \<in> sure_keys k"
  shows "(fst key \<noteq> ''ConfigMap'' \<longrightarrow> \<not> may operator_rules verb (fst key)) \<and>
    (fst key = ''ConfigMap'' \<longrightarrow> \<not> may marker_rules verb (fst key)) \<and>
    (kd \<in> set (rgOwns ksdns_registration) \<longrightarrow>
      (may operator_rules ''list'' kd \<longleftrightarrow> kd \<in> {''Zone'', ''ConfigMap''}) \<and>
      (may operator_rules ''watch'' kd \<longleftrightarrow> kd \<in> {''Zone'', ''ConfigMap''}))"
proof (intro conjI impI)
  show "\<not> may operator_rules verb (fst key)" if "fst key \<noteq> ''ConfigMap''"
    using operator_may_not [of "fst key" verb] sure_kinds [OF assms] that by blast
  show "\<not> may marker_rules verb (fst key)" if "fst key = ''ConfigMap''"
    unfolding that by (simp add: may_def marker_rules_def rules_allow_def rule_allows_def kind_group_def
        kind_resource_def dns_GroupVersion_def rfc1035_GroupVersion_def)
  assume kd: "kd \<in> set (rgOwns ksdns_registration)"
  have "may operator_rules v kd \<longleftrightarrow> kd \<in> {''Zone'', ''ConfigMap''}" if "v \<in> set all_verbs" for v
    using kd operator_may [OF that] operator_may_not [of kd v] unfolding ksdns_registration_def by fastforce
  then show "may operator_rules ''list'' kd \<longleftrightarrow> kd \<in> {''Zone'', ''ConfigMap''}"
    and "may operator_rules ''watch'' kd \<longleftrightarrow> kd \<in> {''Zone'', ''ConfigMap''}"
    by (simp_all add: all_verbs_def)
qed

theorem permissions_omit_objects_witness:
  "(''Secret'', ''d'', ''k-coredns'') \<in> sure_keys store_ksdns \<and> \<not> may operator_rules ''get'' ''Secret'' \<and>
   \<not> may operator_rules ''watch'' ''Deployment'' \<and> may operator_rules ''watch'' ''Zone''"
proof -
  have key: "(''Secret'', ''d'', ''k-coredns'') \<in> sure_keys store_ksdns" by (simp add: sure_keys_def corednsName_def)
  show ?thesis
    using key permissions_omit_objects [OF key, of "''get''" "''Deployment''"]
      permissions_omit_objects [OF key, of "''get''" "''Zone''"]
    by (simp add: ksdns_registration_def)
qed

end
