(* ===== verification/Spec2Isabelle.thy ===== *)
theory Spec2Isabelle
  imports PluginLocks OperatorFlags LeaderElection TestServer SerialNumbers Served NameClash Removal Failover Commands DeepCopyZone DeepCopyKsdns
    KsdnsTemplates Access
begin

text \<open>
  ksdns serves DNS zones from Kubernetes.  It has two programs: the operator turns a Ksdns
  resource into Zone resources, Corefiles, secrets, services and deployments; the update
  server (zupd) is a CoreDNS server with the plugin \<open>dynamicupdate\<close>, which serves the Zone
  resources and accepts RFC 2136 updates.

  \<^bold>\<open>The plugin\<close> (\<open>src/pkg/zupd/plugin/dynamicupdate\<close>).  Its state is the table of zones
  (\<open>Zones\<close>: static zones parsed from the objects' specs, dynamic zones holding the updates, and
  the list of names), the namespaces, and in the model also the part of the world it acts on:
  the serials behind the pointers to SOA structs, the cluster, and the trace of locks, notifies,
  stored statuses and replies (record \<open>plugin\<close>, theory World).

  \<^item> Prelude: outcomes of Go calls (value or panic), Go maps (nil or entries), range loops with an
    early return, and the locale \<open>invariant_machine\<close>.
  \<^item> DnsTypes, Libs: DNS data; CoreDNS's file plugin, miekg/dns and the helpers of CoreDNS as
    parameters (\<open>file_lib\<close>, \<open>dns_lib\<close>), with their documented behaviour as the predicates
    \<open>file_laws\<close>, \<open>alloc_laws\<close>, \<open>text_laws\<close>, \<open>match_laws\<close>.  Zones are abstract; \<open>records L z\<close> are
    the records one gets by ranging over a zone.
  \<^item> ZoneTypes: the Zone resource (\<open>src/pkg/zupd/api/v1alpha1/zone_types.go\<close>) and the loading of
    the records of a status.
  \<^item> Trace: the events and the discipline of the locks of one goroutine.
  \<^item> ZonesStore: the table of zones (\<open>DeleteZone\<close>, and the creation and replacement in \<open>Reconcile\<close>)
    with its invariant \<open>zones_ok\<close>; the locale \<open>zone_table\<close> is its contract, interpreted on these
    operations as \<open>zt\<close> and used by the controller and by start-up.
  \<^item> World, SampleLib: the state of the plugin with the client as parameters (\<open>plugin_lib\<close>), and a
    concrete library on which all laws hold, with which the witnesses compute.
  \<^item> MergeZones: \<open>Merge\<close> and \<open>Transfer\<close> (\<open>merge.go\<close>, \<open>xfer.go\<close>).
  \<^item> DynUpdate, UpdateEffects: the update branch of \<open>ServeDNS\<close>, the abstract update on sets of
    records (\<open>updates_spec\<close>) that its loops refine, its frame, locks, and effects.
  \<^item> Serving: \<open>ServeDNS\<close> as a whole, the query path, \<open>Reload\<close>, \<open>Ready\<close>, \<open>OnShutdown\<close>.
  \<^item> ZoneController: the controller's \<open>Reconcile\<close> (\<open>zone_controller.go\<close>).
  \<^item> SoaSharing: the invariant that static zones share no SOA struct.
  \<^item> Initialize: \<open>initialize\<close> (\<open>setup.go\<close>), and that after a restart a zone whose file parses is in
    the table again with the records of the stored updates.
  \<^item> NameClash: two objects of one name in two namespaces, at start-up and under reconciles.
  \<^item> PluginMachine: the plugin as a step relation (requests, transfers, reconciles, changes of the
    cluster), an interpretation of \<open>invariant_machine\<close> that gives the invariants in every reachable
    state, and the handler split in two for the race with the controller.
  \<^item> Removal: runs of that step relation in which the object of a zone is not seen being deleted,
    or is gone; the zone stays in the table.
  \<^item> Failover: a second server over the same cluster, its reconcile of an object the first has
    written, and the status its own update stores.
  \<^item> Setup: the registration of the plugin (\<open>setup\<close>), its callbacks, and the controller manager
    (\<open>manager.go\<close>); the plugin that serves after start-up is the one Initialize builds.
  \<^item> LeaderElection: from the deployment of an update server over its settings to the options of
    its manager, and the lease that the servers of a namespace contend for.
  \<^item> Locks: Go's read-write mutex with several goroutines, and the deadlock of two updates.
  \<^item> LockSafety, PluginLocks: the locale \<open>lock_programs\<close> of goroutines that cannot deadlock, and
    its interpretation on requests, reconciles and transfers: without two updates of one zone at
    a time every schedule can be completed.

  \<^bold>\<open>The operator\<close> (\<open>src/apis/dns/v1alpha1\<close>, \<open>src/controllers/dns\<close>).

  \<^item> ParseIP, Base64: the two functions of Go's standard library the operator computes with, and
    that they invert dotted decimals and decoding.
  \<^item> KsdnsRecords: the generated records and the splitting of TXT data (\<open>utils.go\<close>).
  \<^item> KsdnsZone: rendering a zone to an RFC 1035 zone file (\<open>ksdns_types.go\<close>), against the list of
    records it stands for (\<open>zone_rrs\<close>).
  \<^item> KsdnsTypes: the Ksdns resource, the objects the operator writes and its client (\<open>op_lib\<close>).
  \<^item> KsdnsUtils: labels, retries, Zone objects, lookups (\<open>utils.go\<close>, \<open>zone.go\<close>, \<open>coredns.go\<close>).  The
    retries give their condition to \<open>wait.ExponentialBackoff\<close>, a parameter of the client with the
    documented behaviour \<open>backoff_law\<close>.
  \<^item> KsdnsCoreDNS, KsdnsZupd: the objects of the two servers (\<open>coredns.go\<close>, \<open>zupd.go\<close>).
  \<^item> KsdnsController: the reconciliation of a Ksdns resource (\<open>controller.go\<close>), and the resource a run
    works on (\<open>seen_resource\<close>), which the first run reads again after storing the first condition.
  \<^item> ClusterWrites, ClusterSteps: a client with the documented behaviour \<open>client_laws\<close> over a view of
    the objects by kind, namespace and name, and what each step of a reconciliation writes.  Writes
    may fail; where a property needs the write of a zone whose error is dropped to succeed, it says
    so for that write and that run (\<open>zone_write\<close>).
  \<^item> ClusterStore, KsdnsCluster: a concrete cluster \<open>store_op\<close> on which the laws hold; what a
    reconciliation leaves in the cluster.
  \<^item> KsdnsTsig: the generated TSIG secret and its way into the configuration.
  \<^item> KsdnsObjects: the deployments, services, mounts and Corefiles fit together.
  \<^item> GoTemplate, KsdnsTemplates: lexer, parser and execution of the part of \<open>text/template\<close> the
    operator uses, its three templates as they stand in the source, and that they render the files
    the models of the render functions write.
  \<^item> SerialNumbers: the serials of both programs under RFC 1982 arithmetic.

  \<^bold>\<open>Both together.\<close>

  \<^item> Watches: what the two controllers are registered for (both \<open>SetupWithManager\<close>), and what the
    writes of the two programs change in the Zone objects they share.
  \<^item> Served: from the Ksdns resource to the answer of a query, through the reconciliation of the
    operator, the Zone object and the reconcile of the plugin, for a parser of zone files with the
    documented behaviour \<open>zone_file_law\<close>; a concrete parser on which it holds.
  \<^item> Schemes, Access: the API groups, the types the packages register and the schemes of the
    programs; the permissions the operator is given, against the objects it writes and owns.

  \<^bold>\<open>Generated code\<close> (\<open>zz_generated.deepcopy.go\<close> of both API packages).

  \<^item> GoStore: the memory of arrays, maps and structs behind pointers, the copying of pointers and
    slices, and the locale \<open>deep_copier\<close>: the contract of a \<open>DeepCopyInto\<close> (the original is not
    changed, the copy reads the same and reaches new cells only), closed under pairs, pointers
    and slices.
  \<^item> DeepCopyZone, DeepCopyKsdns: every generated function, and that the copies share no memory
    with the originals.  In the other theories objects are values, which this justifies.

  \<^bold>\<open>The commands\<close> (\<open>src/cmd/zupd/cmd\<close>, \<open>src/pkg/zupd/core/plugin\<close>, \<open>src/main.go\<close>): ZupdCommand, with the
  property that the update server serves the Corefile the operator writes for it, and
  OperatorFlags, the command line of the operator with Go's package \<open>flag\<close>.  TestServer: the
  harness of the tests, which starts servers as the command does (\<open>src/test/utils.go\<close>).
  Commands: the tree of commands and their flags as data.

  \<^bold>\<open>Conventions.\<close>  A request, a transfer and a reconcile are one step each, except where a theory
  says otherwise (\<open>ServeDNS_split\<close>, Locks).  A write through a pointer to a zone is a write to the
  table entry that holds the pointer; SOA structs, which a copy of a zone shares with the
  original, are cells of an explicit store.  Times are arguments, in milliseconds for the
  plugin and in seconds for the operator.  Serials, TTLs and ports are words of their width.
  Loops are structural recursion over what they range over; \<open>split_loop\<close> and \<open>parse_flags\<close> have
  termination proofs.  There is no fuel; the number of attempts of \<open>wait.ExponentialBackoff\<close> is a
  parameter of its law (the sample clients take four).

  \<^bold>\<open>Not modelled\<close>: logging and the counter of requests (\<open>metrics.go\<close>), which no code increments; how
  cobra and viper find a command and parse its flags, and the watches, queues, workers and leader
  election of controller-runtime, which are calls of libraries; the error type \<open>serialErr\<close>, which no code uses;
  the test suites.  The deep copies of the library types are parameters with the contract of
  \<open>deep_copier\<close>.  \<open>rand.Read\<close>, which draws the octets of the TSIG secret, is a parameter; goroutines that \<open>setup\<close>
  starts are taken to run at once.
\<close>

end
